(* ===== verification/HQ_Prelude.thy ===== *)
theory HQ_Prelude
  imports Main "HOL-Library.FSet" "HOL-Library.Finite_Map" "HOL-Library.Word"
    "HOL-Library.Char_ord" "HOL-Library.List_Lexorder" "HOL-Library.Option_ord"
    "HOL-Library.Product_Lexorder" "HOL-Library.Multiset"
begin

text \<open>
  Shared vocabulary of the development.

  \<^item> Rust's \<open>Result<T, E>\<close> is the sum type \<open>'e + 'a\<close>, with \<open>Err\<close> and \<open>Ok\<close> as
    input abbreviations for its injections and \<open>and_then\<close> for the \<open>?\<close> operator.
  \<^item> \<open>BTreeSet<T>\<close> is \<open>'a fset\<close> and \<open>BTreeMap<K, V>\<close> is \<open>('k, 'v) fmap\<close>: both are
    extensional and finite, as the Rust containers are under \<open>==\<close>, and both iterate in
    key order through \<open>sorted_list_of_fset\<close> and \<open>sorted_list_of_fmap\<close>.
  \<^item> An index \<open>BTreeMap<K, BTreeSet<V>>\<close> has the three operations the source uses on it:
    \<open>index_get\<close> (lookup with the empty set as default), \<open>entry_or_default\<close> and
    \<open>entry_insert\<close> (\<open>entry(k).or_default().insert(v)\<close>).

  The theory also holds the locale \<open>arrival_store\<close>: a store whose insertion commutes and
  absorbs repetition keeps the same value for every arrival order.
\<close>

named_theorems index_simps "lookups in set-valued indexes"

section \<open>Results\<close>

abbreviation (input) Err :: "'e \<Rightarrow> 'e + 'a" where
  "Err \<equiv> Inl"

abbreviation (input) Ok :: "'a \<Rightarrow> 'e + 'a" where
  "Ok \<equiv> Inr"

fun and_then :: "'e + 'a \<Rightarrow> ('a \<Rightarrow> 'e + 'b) \<Rightarrow> 'e + 'b" where
  "and_then (Inl e) f = Inl e"
| "and_then (Inr a) f = f a"

text \<open>\<open>Option::ok_or\<close>, and \<open>condition.then_some(()).ok_or(error)\<close>.\<close>

fun ok_or :: "'e \<Rightarrow> 'a option \<Rightarrow> 'e + 'a" where
  "ok_or e None = Inl e"
| "ok_or e (Some a) = Inr a"

definition check :: "bool \<Rightarrow> 'e \<Rightarrow> 'e + unit" where
  "check b e = (if b then Inr () else Inl e)"

lemma and_then_Err_iff:
  "and_then r f = Inl e \<longleftrightarrow> r = Inl e \<or> (\<exists>a. r = Inr a \<and> f a = Inl e)"
  by (cases r) simp_all

lemma and_then_Ok_iff: "and_then r f = Inr b \<longleftrightarrow> (\<exists>a. r = Inr a \<and> f a = Inr b)"
  by (cases r) auto

lemma ok_or_Ok_iff [simp]: "ok_or e opt = Inr a \<longleftrightarrow> opt = Some a"
  by (cases opt) auto

lemma ok_or_Err_iff [simp]: "ok_or e opt = Inl d \<longleftrightarrow> opt = None \<and> d = e"
  by (cases opt) auto

lemma check_Ok_iff [simp]: "check b e = Inr u \<longleftrightarrow> b"
  by (simp add: check_def)

lemma check_Err_iff [simp]: "check b e = Inl d \<longleftrightarrow> \<not> b \<and> d = e"
  by (auto simp: check_def)

section \<open>Finite sets and maps as ordered containers\<close>

lemma set_sorted_list_of_fset [simp]: "set (sorted_list_of_fset A) = fset A"
  by (fact sorted_list_of_fset_simps(1))

lemma sorted_list_of_fset_empty [simp]: "sorted_list_of_fset {||} = []"
  by (metis bot_fset.rep_eq set_empty set_sorted_list_of_fset)

lemma distinct_sorted_list_of_fset [simp]: "distinct (sorted_list_of_fset A)"
  by (simp add: sorted_list_of_fset.rep_eq)

lemma sorted_sorted_list_of_fset [simp]: "sorted (sorted_list_of_fset A)"
  by (simp add: sorted_list_of_fset.rep_eq)

lemma length_sorted_list_of_fset [simp]: "length (sorted_list_of_fset A) = fcard A"
  by (simp add: sorted_list_of_fset.rep_eq fcard.rep_eq)

lemma set_sorted_list_of_fmap: "set (sorted_list_of_fmap m) = {(k, v). fmlookup m k = Some v}"
  by (auto simp: sorted_list_of_fmap_def fmlookup_dom_iff image_iff)

text \<open>Rust's \<open>count\<close> and \<open>any\<close> over the facts of a set read a sorted list; \<open>fset_of_list\<close>
  turns it back into a container.\<close>

text \<open>Collecting fallible results that are all present.\<close>

lemma those_map_defined:
  "(\<And>x. x \<in> set xs \<Longrightarrow> f x \<noteq> None) \<Longrightarrow> \<exists>ys. those (map f xs) = Some ys \<and> map Some ys = map f xs"
proof (induction xs)
  case (Cons x xs)
  then obtain ys y where "those (map f xs) = Some ys" "map Some ys = map f xs" "f x = Some y" by fastforce
  then show ?case by (intro exI [of _ "y # ys"]) simp
qed simp

lemma fset_of_list_member [simp]: "x |\<in>| fset_of_list xs \<longleftrightarrow> x \<in> set xs"
  by (simp add: fset_of_list_elem)

lemma filter_length_gt_one_iff:
  assumes "distinct xs"
  shows "1 < length (filter P xs) \<longleftrightarrow> (\<exists>a b. a \<in> set xs \<and> b \<in> set xs \<and> P a \<and> P b \<and> a \<noteq> b)"
proof -
  have "length (filter P xs) = card {x \<in> set xs. P x}"
    using assms by (metis distinct_card distinct_filter set_filter)
  moreover have "finite {x \<in> set xs. P x}" by simp
  ultimately have "length (filter P xs) \<le> Suc 0 \<longleftrightarrow>
      (\<forall>a \<in> {x \<in> set xs. P x}. \<forall>b \<in> {x \<in> set xs. P x}. a = b)"
    by (simp add: card_le_Suc0_iff_eq)
  moreover have "1 < length (filter P xs) \<longleftrightarrow> \<not> length (filter P xs) \<le> Suc 0"
    by linarith
  ultimately show ?thesis by blast
qed

section \<open>Set-valued indexes\<close>

definition index_get :: "('k, 'v fset) fmap \<Rightarrow> 'k \<Rightarrow> 'v fset" where
  "index_get m k = (case fmlookup m k of Some s \<Rightarrow> s | None \<Rightarrow> {||})"

definition entry_or_default :: "'k \<Rightarrow> ('k, 'v fset) fmap \<Rightarrow> ('k, 'v fset) fmap" where
  "entry_or_default k m = (case fmlookup m k of Some s \<Rightarrow> m | None \<Rightarrow> fmupd k {||} m)"

definition entry_insert :: "'k \<Rightarrow> 'v \<Rightarrow> ('k, 'v fset) fmap \<Rightarrow> ('k, 'v fset) fmap" where
  "entry_insert k v m = fmupd k (finsert v (index_get m k)) m"

lemma index_get_empty [simp, index_simps]: "index_get fmempty k = {||}"
  by (simp add: index_get_def)

lemma index_get_entry_or_default [simp, index_simps]:
  "index_get (entry_or_default k m) x = index_get m x"
  by (auto simp: index_get_def entry_or_default_def split: option.splits)

lemma index_get_entry_insert [simp, index_simps]:
  "index_get (entry_insert k v m) x = (if x = k then finsert v (index_get m k) else index_get m x)"
  by (auto simp: index_get_def entry_insert_def)

lemma fmdom_entry_or_default [simp, index_simps]:
  "fmdom (entry_or_default k m) = finsert k (fmdom m)"
  by (auto simp: entry_or_default_def fmlookup_dom_iff split: option.splits)

lemma fmdom_entry_insert [simp, index_simps]:
  "fmdom (entry_insert k v m) = finsert k (fmdom m)"
  by (simp add: entry_insert_def)

lemma index_get_outside: "k |\<notin>| fmdom m \<Longrightarrow> index_get m k = {||}"
  by (simp add: index_get_def fmdom_notD)

lemma index_get_constant:
  "index_get (fmap_of_list (map (\<lambda>i. (i, {||})) xs)) k = {||}"
  by (auto simp: index_get_def split: option.splits dest: fmap_of_list_SomeD)

text \<open>Building an index from a list of key/value pairs, in any order, collects each key's values.\<close>

lemma index_get_fold_entry_insert:
  "v |\<in>| index_get (fold (\<lambda>(k, v). entry_insert k v) kvs m) x
     \<longleftrightarrow> v |\<in>| index_get m x \<or> (x, v) \<in> set kvs"
proof (induction kvs arbitrary: m)
  case Nil
  show ?case by simp
next
  case (Cons kv kvs)
  obtain k w where kv: "kv = (k, w)" by fastforce
  show ?case
    unfolding kv fold.simps o_apply case_prod_conv Cons.IH by auto
qed

lemma fmdom_fold_entry_insert:
  "fmdom (fold (\<lambda>(k, v). entry_insert k v) kvs m) = fmdom m |\<union>| fset_of_list (map fst kvs)"
  by (induction kvs arbitrary: m) (simp_all add: case_prod_beta)

section \<open>Order-insensitive stores\<close>

text \<open>
  The contract of a store that facts arrive in: insertion commutes, and inserting again what
  was just inserted changes nothing. The value after a batch then depends only on the set of
  items in the batch, so neither arrival order nor redelivery can be observed.
\<close>

locale arrival_store =
  fixes put :: "'f \<Rightarrow> 's \<Rightarrow> 's"
  assumes put_commute: "put a (put b s) = put b (put a s)"
    and put_absorb: "put a (put a s) = put a s"
begin

lemma put_fold_commute: "fold put xs (put a s) = put a (fold put xs s)"
proof (induction xs arbitrary: s)
  case Nil
  show ?case by simp
next
  case (Cons x xs)
  have "fold put (x # xs) (put a s) = fold put xs (put a (put x s))"
    by (simp add: put_commute)
  then show ?case using Cons.IH by simp
qed

lemma put_member_absorb: "a \<in> set xs \<Longrightarrow> put a (fold put xs s) = fold put xs s"
proof (induction xs arbitrary: s)
  case Nil
  then show ?case by simp
next
  case (Cons x xs)
  show ?case
  proof (cases "a = x")
    case True
    have "put a (fold put (x # xs) s) = fold put xs (put x (put x s))"
      using True by (simp add: put_fold_commute)
    then show ?thesis by (simp add: put_absorb)
  next
    case False
    with Cons show ?thesis by simp
  qed
qed

lemma fold_put_remdups: "fold put (remdups xs) s = fold put xs s"
proof (induction xs arbitrary: s)
  case Nil
  show ?case by simp
next
  case (Cons x xs)
  show ?case
  proof (cases "x \<in> set xs")
    case True
    have "fold put (x # xs) s = put x (fold put xs s)"
      by (simp add: put_fold_commute)
    also have "\<dots> = fold put xs s"
      using True by (rule put_member_absorb)
    finally show ?thesis using True Cons.IH by simp
  next
    case False
    with Cons.IH show ?thesis by simp
  qed
qed

lemma fold_put_permute: "mset xs = mset ys \<Longrightarrow> fold put xs = fold put ys"
  by (rule fold_multiset_equiv) (auto simp: put_commute)

theorem fold_put_set_cong:
  assumes "set xs = set ys"
  shows "fold put xs s = fold put ys s"
proof -
  have "mset (remdups xs) = mset (remdups ys)"
    using assms by (metis distinct_remdups set_eq_iff_mset_eq_distinct set_remdups)
  then have "fold put (remdups xs) = fold put (remdups ys)"
    by (rule fold_put_permute)
  then show ?thesis using fold_put_remdups by metis
qed

end

section \<open>Evaluating identities\<close>

text \<open>
  Identities are 256-bit words. When a concrete run is evaluated, a word given by a small
  number is compared as that number, without reducing it modulo \<open>2 ^ 256\<close> each time.
\<close>

definition small_id :: "int \<Rightarrow> 256 word" where
  "small_id k = word_of_int k"

lemma the_int_small_id [code]:
  "Word.the_int (small_id k) = (if 0 \<le> k \<and> k < 65536 then k else take_bit 256 k)"
proof -
  have "Word.the_int (small_id k) = take_bit 256 k" unfolding small_id_def by transfer simp
  moreover have "take_bit 256 k = k" if "0 \<le> k" and "k < 65536"
    by (rule take_bit_int_eq_self) (use that in simp_all)
  ultimately show ?thesis by simp
qed

lemma of_int_small_id [code_unfold]: "(Word.of_int k :: 256 word) = small_id k"
  by (simp add: small_id_def)

end
