(* ===== verification/Domain_Values.thy ===== *)
theory Domain_Values
  imports HQ_Prelude
begin

text \<open>
  The validated values of \<open>hq-domain\<close>: opaque identities, bounded text and collections,
  addresses, correlation, resource locators, and causal references.

  An opaque identity is a \<open>[u8; 32]\<close> with the derived lexicographic order. Read as a
  big-endian number it is a 256-bit word, and the lexicographic order of the bytes is the
  unsigned order of the word. A \<open>String\<close> is the list of its UTF-8 bytes, so \<open>length\<close> is
  Rust's \<open>len\<close> and the order is the bytewise order of \<open>str\<close>. Lengths and limits of type
  \<open>usize\<close> are natural numbers; timestamps of type \<open>i64\<close>, which the modelled code only
  compares, are integers.

  Every validating constructor returns the error the source returns, in the order the source
  checks; the lemmas say exactly which inputs are accepted.
\<close>

section \<open>Identities and text\<close>

type_synonym opaque_bytes = "256 word"

type_synonym FactId = opaque_bytes
type_synonym InstallationId = opaque_bytes
type_synonym MailboxId = opaque_bytes
type_synonym AccountId = opaque_bytes
type_synonym AgentId = opaque_bytes
type_synonym ProjectId = opaque_bytes
type_synonym MessageId = opaque_bytes
type_synonym ResourceId = opaque_bytes
type_synonym CommandId = opaque_bytes
type_synonym OperationId = opaque_bytes
type_synonym GrantId = opaque_bytes
type_synonym AssignmentId = opaque_bytes
type_synonym ThreadId = opaque_bytes
type_synonym DispatchId = opaque_bytes
type_synonym CommandDigest = opaque_bytes
type_synonym SigningPublicKey = opaque_bytes
type_synonym EncryptionPublicKey = opaque_bytes

type_synonym ShortText = string
type_synonym ContentText = string
type_synonym ProviderId = string
type_synonym ProviderSessionId = string
type_synonym ErrorCode = string
type_synonym Timestamp = int

section \<open>Bounded values\<close>

datatype ValidatedValueError =
    EmptyValue
  | TooLong (too_long_maximum: nat) (too_long_actual: nat)
  | TooMany (too_many_maximum: nat) (too_many_actual: nat)
  | Duplicate
  | AuthorityNotParent
  | DuplicateAuthorityRole

definition bounded_text_new :: "nat \<Rightarrow> string \<Rightarrow> ValidatedValueError + string" where
  "bounded_text_new maximum_bytes value =
     (let actual = length value in
      if actual = 0 then Err EmptyValue
      else if maximum_bytes < actual then Err (TooLong maximum_bytes actual)
      else Ok value)"

definition bounded_vec_new :: "nat \<Rightarrow> 'a list \<Rightarrow> ValidatedValueError + 'a list" where
  "bounded_vec_new maximum_items items =
     (let actual = length items in
      if maximum_items < actual then Err (TooMany maximum_items actual) else Ok items)"

definition bounded_set_new :: "nat \<Rightarrow> 'a list \<Rightarrow> ValidatedValueError + 'a fset" where
  "bounded_set_new maximum_items items =
     (let actual = length items in
      if maximum_items < actual then Err (TooMany maximum_items actual)
      else
        let values = fset_of_list items in
        if fcard values \<noteq> actual then Err Duplicate else Ok values)"

definition non_empty_bounded_set_new :: "nat \<Rightarrow> 'a list \<Rightarrow> ValidatedValueError + 'a fset" where
  "non_empty_bounded_set_new maximum_items items =
     (if items = [] then Err EmptyValue else bounded_set_new maximum_items items)"

definition PROVIDER_ID_MAX_BYTES :: nat where "PROVIDER_ID_MAX_BYTES = 64"
definition PROVIDER_SESSION_ID_MAX_BYTES :: nat where "PROVIDER_SESSION_ID_MAX_BYTES = 256"
definition ERROR_CODE_MAX_BYTES :: nat where "ERROR_CODE_MAX_BYTES = 96"
definition RESOURCE_LOCATOR_MAX_BYTES :: nat where "RESOURCE_LOCATOR_MAX_BYTES = 4096"

definition provider_id_new :: "string \<Rightarrow> ValidatedValueError + ProviderId" where
  "provider_id_new = bounded_text_new PROVIDER_ID_MAX_BYTES"

definition provider_session_id_new :: "string \<Rightarrow> ValidatedValueError + ProviderSessionId" where
  "provider_session_id_new = bounded_text_new PROVIDER_SESSION_ID_MAX_BYTES"

definition error_code_new :: "string \<Rightarrow> ValidatedValueError + ErrorCode" where
  "error_code_new = bounded_text_new ERROR_CODE_MAX_BYTES"

lemma fcard_fset_of_list_eq_length: "fcard (fset_of_list xs) = length xs \<longleftrightarrow> distinct xs"
  by (auto simp: fcard.rep_eq fset_of_list.rep_eq distinct_card intro: card_distinct)

lemma bounded_text_new_Ok_iff:
  "bounded_text_new n s = Ok t \<longleftrightarrow> t = s \<and> s \<noteq> [] \<and> length s \<le> n"
  by (auto simp: bounded_text_new_def Let_def)

lemma bounded_vec_new_Ok_iff: "bounded_vec_new n xs = Ok ys \<longleftrightarrow> ys = xs \<and> length xs \<le> n"
  by (auto simp: bounded_vec_new_def Let_def)

lemma bounded_set_new_Ok_iff:
  "bounded_set_new n xs = Ok s \<longleftrightarrow> s = fset_of_list xs \<and> distinct xs \<and> length xs \<le> n"
  by (auto simp: bounded_set_new_def Let_def fcard_fset_of_list_eq_length)

lemma non_empty_bounded_set_new_Ok_iff:
  "non_empty_bounded_set_new n xs = Ok s \<longleftrightarrow>
     s = fset_of_list xs \<and> xs \<noteq> [] \<and> distinct xs \<and> length xs \<le> n"
  by (auto simp: non_empty_bounded_set_new_def bounded_set_new_Ok_iff)

section \<open>Addresses, locators and correlation\<close>

datatype InstallationAddress =
  InstallationAddress (ia_installation_id: InstallationId) (ia_signing_key: SigningPublicKey)

datatype MailboxAddress =
  MailboxAddress (ma_installation_id: InstallationId) (ma_mailbox_id: MailboxId)

text \<open>The derived order of addresses.\<close>

definition mailbox_rank :: "MailboxAddress \<Rightarrow> 256 word \<times> 256 word" where
  "mailbox_rank m = (ma_installation_id m, ma_mailbox_id m)"

instantiation MailboxAddress :: linorder
begin
definition less_eq_MailboxAddress :: "MailboxAddress \<Rightarrow> MailboxAddress \<Rightarrow> bool" where
  "a \<le> b \<longleftrightarrow> mailbox_rank a \<le> mailbox_rank b"
definition less_MailboxAddress :: "MailboxAddress \<Rightarrow> MailboxAddress \<Rightarrow> bool" where
  "a < b \<longleftrightarrow> mailbox_rank a < mailbox_rank b"
instance
proof
  fix a b :: MailboxAddress
  show "a \<le> b \<Longrightarrow> b \<le> a \<Longrightarrow> a = b"
    by (auto simp: less_eq_MailboxAddress_def mailbox_rank_def intro: MailboxAddress.expand)
qed (auto simp: less_eq_MailboxAddress_def less_MailboxAddress_def less_le_not_le linear intro: order.trans)
end

datatype ResourceScheme = GitRepository | WorkingTree | Container | Opaque

datatype ResourceLocator =
  ResourceLocator (locator_scheme: ResourceScheme) (locator_value: string)

datatype OperationCorrelation =
  OperationCorrelation (correlation_provider: ProviderId) (correlation_session: ProviderSessionId)
    (correlation_operation: OperationId)

datatype ConversationId =
    ProjectThreadId (pt_project_id: ProjectId) (pt_thread: ThreadId)
  | PeerThreadId (th_counterparty: MailboxAddress) (th_thread: ThreadId)
  | ProviderSessionConversation (ps_counterparty: MailboxAddress) (ps_provider: ProviderId)
      (ps_session: ProviderSessionId)

section \<open>Causal references\<close>

datatype AuthorityRole =
    LocalInstallation
  | MailboxOwner
  | MailboxGrant
  | AccountCreator
  | DeviceGrant
  | AccountMembership
  | PreviousState
  | ProjectHome
  | ActiveHuman
  | Assignment
  | Dispatch
  | Request
  | OutputBinding

definition authority_role_all :: "AuthorityRole list" where
  "authority_role_all =
     [LocalInstallation, MailboxOwner, MailboxGrant, AccountCreator, DeviceGrant,
      AccountMembership, PreviousState, ProjectHome, ActiveHuman, Assignment, Dispatch, Request,
      OutputBinding]"

record AuthorityReference =
  ref_role :: AuthorityRole
  ref_fact_id :: FactId

record CausalReferences =
  causal_parents :: "FactId fset"
  causal_authorities :: "(AuthorityRole, FactId) fmap"

definition authority_of :: "CausalReferences \<Rightarrow> AuthorityRole \<Rightarrow> FactId option" where
  "authority_of causal role = fmlookup (causal_authorities causal) role"

fun collect_authorities ::
  "FactId fset \<Rightarrow> AuthorityReference list \<Rightarrow> (AuthorityRole, FactId) fmap \<Rightarrow>
     ValidatedValueError + (AuthorityRole, FactId) fmap" where
  "collect_authorities parents [] by_role = Ok by_role"
| "collect_authorities parents (a # rest) by_role =
     (if ref_fact_id a |\<notin>| parents then Err AuthorityNotParent
      else if fmlookup by_role (ref_role a) \<noteq> None then Err DuplicateAuthorityRole
      else collect_authorities parents rest (fmupd (ref_role a) (ref_fact_id a) by_role))"

definition causal_references_new ::
  "nat \<Rightarrow> FactId fset \<Rightarrow> AuthorityReference list \<Rightarrow> ValidatedValueError + CausalReferences" where
  "causal_references_new maximum_authorities parents authorities =
     (if maximum_authorities < length authorities
      then Err (TooMany maximum_authorities (length authorities))
      else and_then (collect_authorities parents authorities fmempty)
        (\<lambda>by_role. Ok \<lparr>causal_parents = parents, causal_authorities = by_role\<rparr>))"

text \<open>The well-formedness every constructed value has: an authority is one of the parents.\<close>

definition causal_wf :: "CausalReferences \<Rightarrow> bool" where
  "causal_wf causal \<longleftrightarrow> fmran (causal_authorities causal) |\<subseteq>| causal_parents causal"

lemma causal_wf_authority:
  "causal_wf causal \<Longrightarrow> authority_of causal role = Some i \<Longrightarrow> i |\<in>| causal_parents causal"
  by (auto simp: causal_wf_def authority_of_def dest: fmranI)

lemma authority_role_all_complete: "distinct authority_role_all \<and> set authority_role_all = UNIV"
proof -
  have "role \<in> set authority_role_all" for role
    by (cases role) (simp_all add: authority_role_all_def)
  moreover have "distinct authority_role_all" by (simp add: authority_role_all_def)
  ultimately show ?thesis by blast
qed

lemma collect_authorities_Ok:
  "collect_authorities parents refs by_role = Ok final \<Longrightarrow>
     (\<forall>a \<in> set refs. ref_fact_id a |\<in>| parents \<and> fmlookup final (ref_role a) = Some (ref_fact_id a)) \<and>
     distinct (map ref_role refs) \<and> fmdom final = fmdom by_role |\<union>| fset_of_list (map ref_role refs) \<and>
     (\<forall>r. r |\<in>| fmdom by_role \<longrightarrow> fmlookup final r = fmlookup by_role r \<and> r \<notin> ref_role ` set refs)"
proof (induction parents refs by_role rule: collect_authorities.induct)
  case (1 parents by_role)
  then show ?case by simp
next
  case (2 parents a rest by_role)
  from "2.prems" have a: "ref_fact_id a |\<in>| parents" "fmlookup by_role (ref_role a) = None"
    and run: "collect_authorities parents rest (fmupd (ref_role a) (ref_fact_id a) by_role) = Ok final"
    by (auto split: if_splits)
  note IH = "2.IH" [OF _ _ run]
  have "fmlookup final (ref_role a) = Some (ref_fact_id a)" and "ref_role a \<notin> ref_role ` set rest"
    using IH a by auto
  with IH a show ?case by (auto simp: fmlookup_dom_iff)
qed

lemma causal_references_new_wf:
  assumes "causal_references_new n parents refs = Ok causal"
  shows "causal_wf causal"
proof -
  from assms obtain by_role where run: "collect_authorities parents refs fmempty = Ok by_role"
    and causal: "causal = \<lparr>causal_parents = parents, causal_authorities = by_role\<rparr>"
    by (auto simp: causal_references_new_def and_then_Ok_iff split: if_splits)
  have "i |\<in>| parents" if "fmlookup by_role r = Some i" for r i
  proof -
    from that have "r |\<in>| fset_of_list (map ref_role refs)"
      using collect_authorities_Ok [OF run] fmdomI by fastforce
    then obtain a where "a \<in> set refs" and "r = ref_role a" by auto
    with that collect_authorities_Ok [OF run] show ?thesis by auto
  qed
  then show ?thesis by (auto simp: causal causal_wf_def fmlookup_ran_iff)
qed

end
