(* ===== verification/Fact_Catalog.thy ===== *)
theory Fact_Catalog
  imports Domain_Values
begin

text \<open>
  The stable fact catalog of \<open>hq-domain/src/fact_catalog.rs\<close>: the 49 semantic families in
  catalog order, their catalog identifiers, protocol namespaces and retention contracts, as the
  \<open>fact_catalog!\<close> macro expands them.
\<close>

datatype ProtocolClass = ProtocolCanonical | ProtocolRemoteControl

datatype RetentionClass = CanonicalPermanent | CanonicalCompactedView | ControlPermanent

datatype (plugins only: code size) FactKind =
    FK_InstallationDeclared
  | FK_MailboxCreated
  | FK_MailboxSessionBound
  | FK_MailboxContextRecorded
  | FK_PeerRouteSet
  | FK_PeerRouteBlocked
  | FK_MailboxAccessGranted
  | FK_MailboxAccessRevoked
  | FK_MailboxActionObserved
  | FK_HumanAccountCreated
  | FK_HumanAccountSelected
  | FK_HumanDeviceGranted
  | FK_HumanDeviceAccepted
  | FK_HumanDeviceRevoked
  | FK_QuestionAsked
  | FK_AsynchronousMessageSent
  | FK_AnswerGiven
  | FK_ThreadCancelled
  | FK_MessageArchived
  | FK_MessageRestored
  | FK_MessageRejected
  | FK_HarnessActivityRecorded
  | FK_AgentNameClaimed
  | FK_AgentRetired
  | FK_ProviderSessionSelected
  | FK_ProviderSessionRenamed
  | FK_ProjectCreated
  | FK_ProjectOpened
  | FK_ProjectClosingStarted
  | FK_ProjectClosed
  | FK_ProjectArchived
  | FK_ProjectUnarchived
  | FK_ProjectMetadataUpdated
  | FK_ProjectResourceAdded
  | FK_ProjectResourceRemoved
  | FK_ProjectResourceReplaced
  | FK_ProjectPrimaryResourceChanged
  | FK_ProjectResourceHealthObserved
  | FK_ProjectAssignmentConfiguring
  | FK_ProjectAssignmentRunnable
  | FK_ProjectAssignmentBlocked
  | FK_ProjectAssignmentEnded
  | FK_ProjectInputAccepted
  | FK_ProjectInputDispatched
  | FK_ProjectOutputRecorded
  | FK_RemoteProjectCommandRequested
  | FK_RemoteProjectCommandReceipt
  | FK_RemoteProjectCommandOutcome
  | FK_ConversationArchived

primrec catalog_id :: "FactKind \<Rightarrow> string" where
  "catalog_id FK_InstallationDeclared = ''FCT-001''"
| "catalog_id FK_MailboxCreated = ''FCT-002''"
| "catalog_id FK_MailboxSessionBound = ''FCT-003''"
| "catalog_id FK_MailboxContextRecorded = ''FCT-004''"
| "catalog_id FK_PeerRouteSet = ''FCT-005''"
| "catalog_id FK_PeerRouteBlocked = ''FCT-006''"
| "catalog_id FK_MailboxAccessGranted = ''FCT-007''"
| "catalog_id FK_MailboxAccessRevoked = ''FCT-008''"
| "catalog_id FK_MailboxActionObserved = ''FCT-009''"
| "catalog_id FK_HumanAccountCreated = ''FCT-010''"
| "catalog_id FK_HumanAccountSelected = ''FCT-011''"
| "catalog_id FK_HumanDeviceGranted = ''FCT-012''"
| "catalog_id FK_HumanDeviceAccepted = ''FCT-013''"
| "catalog_id FK_HumanDeviceRevoked = ''FCT-014''"
| "catalog_id FK_QuestionAsked = ''FCT-015''"
| "catalog_id FK_AsynchronousMessageSent = ''FCT-016''"
| "catalog_id FK_AnswerGiven = ''FCT-017''"
| "catalog_id FK_ThreadCancelled = ''FCT-018''"
| "catalog_id FK_MessageArchived = ''FCT-019''"
| "catalog_id FK_MessageRestored = ''FCT-020''"
| "catalog_id FK_MessageRejected = ''FCT-021''"
| "catalog_id FK_HarnessActivityRecorded = ''FCT-022''"
| "catalog_id FK_AgentNameClaimed = ''FCT-023''"
| "catalog_id FK_AgentRetired = ''FCT-024''"
| "catalog_id FK_ProviderSessionSelected = ''FCT-025''"
| "catalog_id FK_ProviderSessionRenamed = ''FCT-026''"
| "catalog_id FK_ProjectCreated = ''FCT-027''"
| "catalog_id FK_ProjectOpened = ''FCT-028''"
| "catalog_id FK_ProjectClosingStarted = ''FCT-029''"
| "catalog_id FK_ProjectClosed = ''FCT-030''"
| "catalog_id FK_ProjectArchived = ''FCT-031''"
| "catalog_id FK_ProjectUnarchived = ''FCT-032''"
| "catalog_id FK_ProjectMetadataUpdated = ''FCT-033''"
| "catalog_id FK_ProjectResourceAdded = ''FCT-034''"
| "catalog_id FK_ProjectResourceRemoved = ''FCT-035''"
| "catalog_id FK_ProjectResourceReplaced = ''FCT-036''"
| "catalog_id FK_ProjectPrimaryResourceChanged = ''FCT-037''"
| "catalog_id FK_ProjectResourceHealthObserved = ''FCT-038''"
| "catalog_id FK_ProjectAssignmentConfiguring = ''FCT-039''"
| "catalog_id FK_ProjectAssignmentRunnable = ''FCT-040''"
| "catalog_id FK_ProjectAssignmentBlocked = ''FCT-041''"
| "catalog_id FK_ProjectAssignmentEnded = ''FCT-042''"
| "catalog_id FK_ProjectInputAccepted = ''FCT-043''"
| "catalog_id FK_ProjectInputDispatched = ''FCT-044''"
| "catalog_id FK_ProjectOutputRecorded = ''FCT-045''"
| "catalog_id FK_RemoteProjectCommandRequested = ''FCT-046''"
| "catalog_id FK_RemoteProjectCommandReceipt = ''FCT-047''"
| "catalog_id FK_RemoteProjectCommandOutcome = ''FCT-048''"
| "catalog_id FK_ConversationArchived = ''FCT-049''"

primrec protocol_class :: "FactKind \<Rightarrow> ProtocolClass" where
  "protocol_class FK_InstallationDeclared = ProtocolCanonical"
| "protocol_class FK_MailboxCreated = ProtocolCanonical"
| "protocol_class FK_MailboxSessionBound = ProtocolCanonical"
| "protocol_class FK_MailboxContextRecorded = ProtocolCanonical"
| "protocol_class FK_PeerRouteSet = ProtocolCanonical"
| "protocol_class FK_PeerRouteBlocked = ProtocolCanonical"
| "protocol_class FK_MailboxAccessGranted = ProtocolCanonical"
| "protocol_class FK_MailboxAccessRevoked = ProtocolCanonical"
| "protocol_class FK_MailboxActionObserved = ProtocolCanonical"
| "protocol_class FK_HumanAccountCreated = ProtocolCanonical"
| "protocol_class FK_HumanAccountSelected = ProtocolCanonical"
| "protocol_class FK_HumanDeviceGranted = ProtocolCanonical"
| "protocol_class FK_HumanDeviceAccepted = ProtocolCanonical"
| "protocol_class FK_HumanDeviceRevoked = ProtocolCanonical"
| "protocol_class FK_QuestionAsked = ProtocolCanonical"
| "protocol_class FK_AsynchronousMessageSent = ProtocolCanonical"
| "protocol_class FK_AnswerGiven = ProtocolCanonical"
| "protocol_class FK_ThreadCancelled = ProtocolCanonical"
| "protocol_class FK_MessageArchived = ProtocolCanonical"
| "protocol_class FK_MessageRestored = ProtocolCanonical"
| "protocol_class FK_MessageRejected = ProtocolCanonical"
| "protocol_class FK_HarnessActivityRecorded = ProtocolCanonical"
| "protocol_class FK_AgentNameClaimed = ProtocolCanonical"
| "protocol_class FK_AgentRetired = ProtocolCanonical"
| "protocol_class FK_ProviderSessionSelected = ProtocolCanonical"
| "protocol_class FK_ProviderSessionRenamed = ProtocolCanonical"
| "protocol_class FK_ProjectCreated = ProtocolCanonical"
| "protocol_class FK_ProjectOpened = ProtocolCanonical"
| "protocol_class FK_ProjectClosingStarted = ProtocolCanonical"
| "protocol_class FK_ProjectClosed = ProtocolCanonical"
| "protocol_class FK_ProjectArchived = ProtocolCanonical"
| "protocol_class FK_ProjectUnarchived = ProtocolCanonical"
| "protocol_class FK_ProjectMetadataUpdated = ProtocolCanonical"
| "protocol_class FK_ProjectResourceAdded = ProtocolCanonical"
| "protocol_class FK_ProjectResourceRemoved = ProtocolCanonical"
| "protocol_class FK_ProjectResourceReplaced = ProtocolCanonical"
| "protocol_class FK_ProjectPrimaryResourceChanged = ProtocolCanonical"
| "protocol_class FK_ProjectResourceHealthObserved = ProtocolCanonical"
| "protocol_class FK_ProjectAssignmentConfiguring = ProtocolCanonical"
| "protocol_class FK_ProjectAssignmentRunnable = ProtocolCanonical"
| "protocol_class FK_ProjectAssignmentBlocked = ProtocolCanonical"
| "protocol_class FK_ProjectAssignmentEnded = ProtocolCanonical"
| "protocol_class FK_ProjectInputAccepted = ProtocolCanonical"
| "protocol_class FK_ProjectInputDispatched = ProtocolCanonical"
| "protocol_class FK_ProjectOutputRecorded = ProtocolCanonical"
| "protocol_class FK_RemoteProjectCommandRequested = ProtocolRemoteControl"
| "protocol_class FK_RemoteProjectCommandReceipt = ProtocolRemoteControl"
| "protocol_class FK_RemoteProjectCommandOutcome = ProtocolRemoteControl"
| "protocol_class FK_ConversationArchived = ProtocolCanonical"

primrec retention_class :: "FactKind \<Rightarrow> RetentionClass" where
  "retention_class FK_InstallationDeclared = CanonicalPermanent"
| "retention_class FK_MailboxCreated = CanonicalPermanent"
| "retention_class FK_MailboxSessionBound = CanonicalPermanent"
| "retention_class FK_MailboxContextRecorded = CanonicalPermanent"
| "retention_class FK_PeerRouteSet = CanonicalPermanent"
| "retention_class FK_PeerRouteBlocked = CanonicalPermanent"
| "retention_class FK_MailboxAccessGranted = CanonicalPermanent"
| "retention_class FK_MailboxAccessRevoked = CanonicalPermanent"
| "retention_class FK_MailboxActionObserved = CanonicalPermanent"
| "retention_class FK_HumanAccountCreated = CanonicalPermanent"
| "retention_class FK_HumanAccountSelected = CanonicalPermanent"
| "retention_class FK_HumanDeviceGranted = CanonicalPermanent"
| "retention_class FK_HumanDeviceAccepted = CanonicalPermanent"
| "retention_class FK_HumanDeviceRevoked = CanonicalPermanent"
| "retention_class FK_QuestionAsked = CanonicalPermanent"
| "retention_class FK_AsynchronousMessageSent = CanonicalPermanent"
| "retention_class FK_AnswerGiven = CanonicalPermanent"
| "retention_class FK_ThreadCancelled = CanonicalPermanent"
| "retention_class FK_MessageArchived = CanonicalPermanent"
| "retention_class FK_MessageRestored = CanonicalPermanent"
| "retention_class FK_MessageRejected = CanonicalPermanent"
| "retention_class FK_HarnessActivityRecorded = CanonicalCompactedView"
| "retention_class FK_AgentNameClaimed = CanonicalPermanent"
| "retention_class FK_AgentRetired = CanonicalPermanent"
| "retention_class FK_ProviderSessionSelected = CanonicalPermanent"
| "retention_class FK_ProviderSessionRenamed = CanonicalPermanent"
| "retention_class FK_ProjectCreated = CanonicalPermanent"
| "retention_class FK_ProjectOpened = CanonicalPermanent"
| "retention_class FK_ProjectClosingStarted = CanonicalPermanent"
| "retention_class FK_ProjectClosed = CanonicalPermanent"
| "retention_class FK_ProjectArchived = CanonicalPermanent"
| "retention_class FK_ProjectUnarchived = CanonicalPermanent"
| "retention_class FK_ProjectMetadataUpdated = CanonicalPermanent"
| "retention_class FK_ProjectResourceAdded = CanonicalPermanent"
| "retention_class FK_ProjectResourceRemoved = CanonicalPermanent"
| "retention_class FK_ProjectResourceReplaced = CanonicalPermanent"
| "retention_class FK_ProjectPrimaryResourceChanged = CanonicalPermanent"
| "retention_class FK_ProjectResourceHealthObserved = CanonicalPermanent"
| "retention_class FK_ProjectAssignmentConfiguring = CanonicalPermanent"
| "retention_class FK_ProjectAssignmentRunnable = CanonicalPermanent"
| "retention_class FK_ProjectAssignmentBlocked = CanonicalPermanent"
| "retention_class FK_ProjectAssignmentEnded = CanonicalPermanent"
| "retention_class FK_ProjectInputAccepted = CanonicalPermanent"
| "retention_class FK_ProjectInputDispatched = CanonicalPermanent"
| "retention_class FK_ProjectOutputRecorded = CanonicalPermanent"
| "retention_class FK_RemoteProjectCommandRequested = ControlPermanent"
| "retention_class FK_RemoteProjectCommandReceipt = ControlPermanent"
| "retention_class FK_RemoteProjectCommandOutcome = ControlPermanent"
| "retention_class FK_ConversationArchived = CanonicalPermanent"

definition fact_kind_all :: "FactKind list" where
  "fact_kind_all =
     [FK_InstallationDeclared, FK_MailboxCreated, FK_MailboxSessionBound,
      FK_MailboxContextRecorded, FK_PeerRouteSet, FK_PeerRouteBlocked, FK_MailboxAccessGranted,
      FK_MailboxAccessRevoked, FK_MailboxActionObserved, FK_HumanAccountCreated,
      FK_HumanAccountSelected, FK_HumanDeviceGranted, FK_HumanDeviceAccepted,
      FK_HumanDeviceRevoked, FK_QuestionAsked, FK_AsynchronousMessageSent, FK_AnswerGiven,
      FK_ThreadCancelled, FK_MessageArchived, FK_MessageRestored, FK_MessageRejected,
      FK_HarnessActivityRecorded, FK_AgentNameClaimed, FK_AgentRetired,
      FK_ProviderSessionSelected, FK_ProviderSessionRenamed, FK_ProjectCreated, FK_ProjectOpened,
      FK_ProjectClosingStarted, FK_ProjectClosed, FK_ProjectArchived, FK_ProjectUnarchived,
      FK_ProjectMetadataUpdated, FK_ProjectResourceAdded, FK_ProjectResourceRemoved,
      FK_ProjectResourceReplaced, FK_ProjectPrimaryResourceChanged,
      FK_ProjectResourceHealthObserved, FK_ProjectAssignmentConfiguring,
      FK_ProjectAssignmentRunnable, FK_ProjectAssignmentBlocked, FK_ProjectAssignmentEnded,
      FK_ProjectInputAccepted, FK_ProjectInputDispatched, FK_ProjectOutputRecorded,
      FK_RemoteProjectCommandRequested, FK_RemoteProjectCommandReceipt,
      FK_RemoteProjectCommandOutcome, FK_ConversationArchived]"

lemma fact_kind_all_complete: "set fact_kind_all = UNIV"
proof -
  have "k \<in> set fact_kind_all" for k by (cases k) (simp_all add: fact_kind_all_def)
  then show ?thesis by blast
qed

lemma fact_kind_all_distinct: "distinct fact_kind_all"
  by (simp add: fact_kind_all_def)

text \<open>The identifiers of the catalog, listed in catalog order, are pairwise distinct.\<close>

lemma distinct_catalog_ids: "distinct (map catalog_id fact_kind_all)"
  by (simp add: fact_kind_all_def)

lemma catalog_id_inj: "catalog_id a = catalog_id b \<longleftrightarrow> a = b"
proof -
  have "inj_on catalog_id (set fact_kind_all)"
    using distinct_catalog_ids by (simp add: distinct_map)
  then show ?thesis by (auto simp: fact_kind_all_complete inj_on_def)
qed

lemma control_retention_iff: "retention_class k = ControlPermanent \<longleftrightarrow> protocol_class k = ProtocolRemoteControl"
  by (cases k) simp_all

end
