(* ===== verification/Semantic_Facts.thy ===== *)
theory Semantic_Facts
  imports Fact_Catalog
begin

text \<open>
  The verified semantic fact of \<open>hq-domain/src/semantic_fact.rs\<close>: its scope, the structures its
  payloads carry, the payload catalog with the source's variants and field order, and the
  validating constructor \<open>SemanticFact::new\<close>.

  A \<open>NonZeroU64\<close> sequence is a natural number; the only computation on one is the successor of an
  input number (\<open>Project\<close>).
\<close>

section \<open>Payload structures\<close>

definition MAX_FACT_PARENTS :: nat where "MAX_FACT_PARENTS = 64"
definition MAX_FACT_AUTHORITIES :: nat where "MAX_FACT_AUTHORITIES = 8"
definition SHORT_TEXT_MAX_BYTES :: nat where "SHORT_TEXT_MAX_BYTES = 128"
definition CONTENT_MAX_BYTES :: nat where "CONTENT_MAX_BYTES = 16384"
definition MAX_COMPLETED_FILE_CHANGES :: nat where "MAX_COMPLETED_FILE_CHANGES = 64"
definition MAX_RELAY_HINTS :: nat where "MAX_RELAY_HINTS = 8"

type_synonym RelayHints = "ResourceLocator list"

datatype FactScope =
    InstallationPrivate InstallationId
  | PeerAddressed MailboxAddress
  | AccountAddressed AccountId
  | RemoteControl AccountId InstallationId

datatype MailboxKind = HumanMailbox | AgentMailbox

datatype RepositoryContext =
  RepositoryContext (rc_directory: ResourceLocator) (rc_repository: "ResourceLocator option")
    (rc_worktree: "ResourceLocator option") (rc_branch: "ShortText option")

datatype MessagePurpose = Question | Asynchronous | ProjectOutput

fun is_project_input :: "MessagePurpose \<Rightarrow> bool" where
  "is_project_input Question = True"
| "is_project_input Asynchronous = True"
| "is_project_input ProjectOutput = False"

datatype PresentationKind = MessagePresentation | FinalAnswer | StatusPresentation

record MessageContent =
  mc_message_id :: MessageId
  mc_sender :: MailboxAddress
  mc_recipient :: "MailboxAddress option"
  mc_body :: ContentText
  mc_purpose :: MessagePurpose
  mc_presentation :: PresentationKind
  mc_correlation :: "OperationCorrelation option"
  mc_project_id :: "ProjectId option"

datatype ActivityKind = StatusActivity | AgentTurn | Progress | Plan | Diff | CompletedItem

datatype ActivityStatus = Snapshot | Running | Succeeded | Failed ErrorCode | Interrupted

record CompletedFileChange =
  cf_path :: ContentText
  cf_diff :: "ContentText option"
  cf_path_truncated :: bool
  cf_diff_truncated :: bool

datatype CompletedItemPresentation =
    CommandItem (ci_command: ContentText) (ci_output: "ContentText option")
      (ci_exit_code: "64 word option") (ci_command_truncated: bool) (ci_output_truncated: bool)
  | FileChangeItem (ci_changes: "CompletedFileChange list") (ci_changes_truncated: bool)
  | ToolItem (ci_name: ShortText) (ci_name_truncated: bool)
  | WebSearchItem (ci_query: ContentText) (ci_query_truncated: bool)
  | UnknownItem

datatype RuntimeObservation =
    ObservedSucceeded
  | ObservedFailed ErrorCode
  | ObservedUncertain ErrorCode

datatype ResourceHealth = HealthUnknown | Healthy | Degraded | Unavailable

record ProjectResource =
  pr_resource_id :: ResourceId
  pr_display_locator :: ResourceLocator
  pr_canonical_locator :: ResourceLocator
  pr_health :: ResourceHealth

record AssignmentIntent =
  ai_assignment_id :: AssignmentId
  ai_agent_id :: AgentId
  ai_provider :: ProviderId

record AssignmentBinding =
  ab_assignment_id :: AssignmentId
  ab_agent_id :: AgentId
  ab_provider :: ProviderId
  ab_session :: ProviderSessionId

record ProjectActivityAttribution =
  pa_project_id :: ProjectId
  pa_dispatch_id :: DispatchId
  pa_binding :: AssignmentBinding
  pa_thread_id :: ThreadId

datatype InitialProjectState = InitiallyOpen | InitiallyClosed

datatype ProjectExternalStateWarning = WorktreeMayExist ResourceLocator ShortText

datatype RemoteCommandResult =
    Committed FactId
  | Rejected ErrorCode "ProjectExternalStateWarning option"

section \<open>The payload catalog\<close>

datatype (plugins only: code size) SemanticPayload =
    InstallationDeclared InstallationId SigningPublicKey EncryptionPublicKey "ShortText option"
  | MailboxCreated MailboxId MailboxKind "ShortText option"
  | MailboxSessionBound MailboxId ProviderId ProviderSessionId
  | MailboxContextRecorded MailboxId RepositoryContext
  | PeerRouteSet InstallationAddress EncryptionPublicKey "ShortText option" RelayHints
  | PeerRouteBlocked InstallationId ErrorCode
  | MailboxAccessGranted GrantId MailboxAddress InstallationAddress
  | MailboxAccessRevoked GrantId MailboxAddress InstallationId
  | MailboxActionObserved GrantId FactId
  | HumanAccountCreated AccountId InstallationAddress "ShortText option"
  | HumanAccountSelected AccountId
  | HumanDeviceGranted AccountId GrantId InstallationAddress "ShortText option" RelayHints
  | HumanDeviceAccepted AccountId GrantId InstallationAddress
  | HumanDeviceRevoked AccountId GrantId InstallationId
  | QuestionAsked MessageContent
  | AsynchronousMessageSent "ThreadId option" MessageContent
  | AnswerGiven ThreadId MessageContent
  | ThreadCancelled ThreadId "ContentText option"
  | MessageArchived MessageId
  | MessageRestored MessageId
  | ConversationArchived ConversationId
  | MessageRejected MessageId ErrorCode
  | HarnessActivityRecorded "ProjectActivityAttribution option" MailboxAddress
      OperationCorrelation "ShortText option" ActivityKind ShortText ShortText nat
      Timestamp ActivityStatus ContentText bool "CompletedItemPresentation option"
  | AgentNameClaimed AgentId MailboxId ShortText
  | AgentRetired AgentId MailboxId
  | ProviderSessionSelected AgentId MailboxId ProviderId ProviderSessionId RepositoryContext
  | ProviderSessionRenamed AgentId ProviderId ProviderSessionId "ShortText option"
  | ProjectCreated ProjectId MailboxId InstallationId ShortText "ContentText option"
      "ProjectId option" "ProjectResource list" "ResourceId option" InitialProjectState
  | ProjectOpened ProjectId
  | ProjectClosingStarted ProjectId
  | ProjectClosed ProjectId bool "RuntimeObservation option"
  | ProjectArchived ProjectId
  | ProjectUnarchived ProjectId
  | ProjectMetadataUpdated ProjectId ShortText "ContentText option"
  | ProjectResourceAdded ProjectId ProjectResource bool
  | ProjectResourceRemoved ProjectId ResourceId bool
  | ProjectResourceReplaced ProjectId ResourceId ProjectResource
  | ProjectPrimaryResourceChanged ProjectId ResourceId
  | ProjectResourceHealthObserved ProjectId ResourceId ResourceHealth "ContentText option"
      Timestamp
  | ProjectAssignmentConfiguring ProjectId AssignmentIntent
  | ProjectAssignmentRunnable ProjectId AssignmentBinding ThreadId ResourceLocator
      OperationCorrelation
  | ProjectAssignmentBlocked ProjectId AssignmentId ErrorCode
  | ProjectAssignmentEnded ProjectId AssignmentId bool "RuntimeObservation option"
  | ProjectInputAccepted ProjectId MessageId FactId nat
  | ProjectInputDispatched ProjectId MessageId nat DispatchId AssignmentBinding ThreadId
  | ProjectOutputRecorded ProjectId MessageId DispatchId AssignmentBinding ThreadId
      MessageContent
  | RemoteProjectCommandRequested CommandId CommandDigest ProjectId InstallationId
      "FactId option" OperationCorrelation ContentText
  | RemoteProjectCommandReceipt CommandId CommandDigest ProjectId "FactId option" Timestamp
  | RemoteProjectCommandOutcome CommandId CommandDigest ProjectId RemoteCommandResult
      "RuntimeObservation option"

primrec payload_kind :: "SemanticPayload \<Rightarrow> FactKind" where
  "payload_kind (InstallationDeclared _ _ _ _) = FK_InstallationDeclared"
| "payload_kind (MailboxCreated _ _ _) = FK_MailboxCreated"
| "payload_kind (MailboxSessionBound _ _ _) = FK_MailboxSessionBound"
| "payload_kind (MailboxContextRecorded _ _) = FK_MailboxContextRecorded"
| "payload_kind (PeerRouteSet _ _ _ _) = FK_PeerRouteSet"
| "payload_kind (PeerRouteBlocked _ _) = FK_PeerRouteBlocked"
| "payload_kind (MailboxAccessGranted _ _ _) = FK_MailboxAccessGranted"
| "payload_kind (MailboxAccessRevoked _ _ _) = FK_MailboxAccessRevoked"
| "payload_kind (MailboxActionObserved _ _) = FK_MailboxActionObserved"
| "payload_kind (HumanAccountCreated _ _ _) = FK_HumanAccountCreated"
| "payload_kind (HumanAccountSelected _) = FK_HumanAccountSelected"
| "payload_kind (HumanDeviceGranted _ _ _ _ _) = FK_HumanDeviceGranted"
| "payload_kind (HumanDeviceAccepted _ _ _) = FK_HumanDeviceAccepted"
| "payload_kind (HumanDeviceRevoked _ _ _) = FK_HumanDeviceRevoked"
| "payload_kind (QuestionAsked _) = FK_QuestionAsked"
| "payload_kind (AsynchronousMessageSent _ _) = FK_AsynchronousMessageSent"
| "payload_kind (AnswerGiven _ _) = FK_AnswerGiven"
| "payload_kind (ThreadCancelled _ _) = FK_ThreadCancelled"
| "payload_kind (MessageArchived _) = FK_MessageArchived"
| "payload_kind (MessageRestored _) = FK_MessageRestored"
| "payload_kind (ConversationArchived _) = FK_ConversationArchived"
| "payload_kind (MessageRejected _ _) = FK_MessageRejected"
| "payload_kind (HarnessActivityRecorded _ _ _ _ _ _ _ _ _ _ _ _ _) = FK_HarnessActivityRecorded"
| "payload_kind (AgentNameClaimed _ _ _) = FK_AgentNameClaimed"
| "payload_kind (AgentRetired _ _) = FK_AgentRetired"
| "payload_kind (ProviderSessionSelected _ _ _ _ _) = FK_ProviderSessionSelected"
| "payload_kind (ProviderSessionRenamed _ _ _ _) = FK_ProviderSessionRenamed"
| "payload_kind (ProjectCreated _ _ _ _ _ _ _ _ _) = FK_ProjectCreated"
| "payload_kind (ProjectOpened _) = FK_ProjectOpened"
| "payload_kind (ProjectClosingStarted _) = FK_ProjectClosingStarted"
| "payload_kind (ProjectClosed _ _ _) = FK_ProjectClosed"
| "payload_kind (ProjectArchived _) = FK_ProjectArchived"
| "payload_kind (ProjectUnarchived _) = FK_ProjectUnarchived"
| "payload_kind (ProjectMetadataUpdated _ _ _) = FK_ProjectMetadataUpdated"
| "payload_kind (ProjectResourceAdded _ _ _) = FK_ProjectResourceAdded"
| "payload_kind (ProjectResourceRemoved _ _ _) = FK_ProjectResourceRemoved"
| "payload_kind (ProjectResourceReplaced _ _ _) = FK_ProjectResourceReplaced"
| "payload_kind (ProjectPrimaryResourceChanged _ _) = FK_ProjectPrimaryResourceChanged"
| "payload_kind (ProjectResourceHealthObserved _ _ _ _ _) = FK_ProjectResourceHealthObserved"
| "payload_kind (ProjectAssignmentConfiguring _ _) = FK_ProjectAssignmentConfiguring"
| "payload_kind (ProjectAssignmentRunnable _ _ _ _ _) = FK_ProjectAssignmentRunnable"
| "payload_kind (ProjectAssignmentBlocked _ _ _) = FK_ProjectAssignmentBlocked"
| "payload_kind (ProjectAssignmentEnded _ _ _ _) = FK_ProjectAssignmentEnded"
| "payload_kind (ProjectInputAccepted _ _ _ _) = FK_ProjectInputAccepted"
| "payload_kind (ProjectInputDispatched _ _ _ _ _ _) = FK_ProjectInputDispatched"
| "payload_kind (ProjectOutputRecorded _ _ _ _ _ _) = FK_ProjectOutputRecorded"
| "payload_kind (RemoteProjectCommandRequested _ _ _ _ _ _ _) = FK_RemoteProjectCommandRequested"
| "payload_kind (RemoteProjectCommandReceipt _ _ _ _ _) = FK_RemoteProjectCommandReceipt"
| "payload_kind (RemoteProjectCommandOutcome _ _ _ _ _) = FK_RemoteProjectCommandOutcome"

section \<open>Facts\<close>

record SemanticFact =
  fact_id :: FactId
  author :: InstallationAddress
  authored_at :: Timestamp
  scope :: FactScope
  causal :: CausalReferences
  payload :: SemanticPayload

abbreviation fact_parents :: "SemanticFact \<Rightarrow> FactId fset" where
  "fact_parents f \<equiv> causal_parents (causal f)"

abbreviation author_id :: "SemanticFact \<Rightarrow> InstallationId" where
  "author_id f \<equiv> ia_installation_id (author f)"

datatype SemanticFactError = ProtocolScopeMismatch | PayloadInvariant | AuthorSubjectMismatch

fun is_remote_scope :: "FactScope \<Rightarrow> bool" where
  "is_remote_scope (RemoteControl _ _) = True"
| "is_remote_scope _ = False"

text \<open>The family-specific checks of \<open>SemanticFact::new\<close>, one per guarded match arm.\<close>

definition payload_check ::
  "InstallationAddress \<Rightarrow> FactScope \<Rightarrow> SemanticPayload \<Rightarrow> SemanticFactError + unit" where
  "payload_check fact_author fact_scope p =
     (case p of
        InstallationDeclared installation_id signing_key _ _ \<Rightarrow>
          if ia_installation_id fact_author \<noteq> installation_id
             \<or> ia_signing_key fact_author \<noteq> signing_key
             \<or> fact_scope \<noteq> InstallationPrivate installation_id
          then Err AuthorSubjectMismatch else Ok ()
      | QuestionAsked message \<Rightarrow>
          if mc_purpose message \<noteq> Question then Err PayloadInvariant else Ok ()
      | AsynchronousMessageSent _ message \<Rightarrow>
          if mc_purpose message \<noteq> Asynchronous then Err PayloadInvariant else Ok ()
      | ProjectOutputRecorded project_id _ _ _ _ message \<Rightarrow>
          if mc_purpose message \<noteq> ProjectOutput \<or> mc_project_id message \<noteq> Some project_id
          then Err PayloadInvariant else Ok ()
      | ProjectCreated _ _ _ _ _ _ resources primary _ \<Rightarrow>
          (case primary of
             Some r \<Rightarrow>
               if \<not> list_ex (\<lambda>resource. pr_resource_id resource = r) resources
               then Err PayloadInvariant else Ok ()
           | None \<Rightarrow> Ok ())
      | RemoteProjectCommandRequested _ _ _ target_home _ _ _ \<Rightarrow>
          (case fact_scope of
             RemoteControl _ scope_home \<Rightarrow>
               if scope_home = target_home then Ok () else Err AuthorSubjectMismatch
           | _ \<Rightarrow> Err AuthorSubjectMismatch)
      | _ \<Rightarrow> Ok ())"

definition semantic_fact_new ::
  "FactId \<Rightarrow> InstallationAddress \<Rightarrow> Timestamp \<Rightarrow> FactScope \<Rightarrow> CausalReferences \<Rightarrow>
     SemanticPayload \<Rightarrow> SemanticFactError + SemanticFact" where
  "semantic_fact_new new_id new_author new_authored_at new_scope new_causal new_payload =
     (let remote_scope = is_remote_scope new_scope;
          remote_payload = (protocol_class (payload_kind new_payload) = ProtocolRemoteControl)
      in if remote_scope \<noteq> remote_payload then Err ProtocolScopeMismatch
         else and_then (payload_check new_author new_scope new_payload)
           (\<lambda>_. Ok \<lparr>fact_id = new_id, author = new_author, authored_at = new_authored_at,
                     scope = new_scope, causal = new_causal, payload = new_payload\<rparr>))"

end
