(* ===== verification/Sample_Facts.thy ===== *)
theory Sample_Facts
  imports Semantic_Facts
begin

text \<open>
  Small concrete facts at which the properties of the later theories are instantiated. They
  model no code: each is a value of the fact record with the identity, parents and payload given.
\<close>

definition sample_author :: "256 word \<Rightarrow> InstallationAddress" where
  "sample_author k = InstallationAddress k k"

definition sample_causal :: "FactId list \<Rightarrow> (AuthorityRole \<times> FactId) list \<Rightarrow> CausalReferences" where
  "sample_causal ps auths = \<lparr>causal_parents = fset_of_list ps, causal_authorities = fmap_of_list auths\<rparr>"

definition sample_fact :: "256 word \<Rightarrow> FactId \<Rightarrow> FactId list \<Rightarrow> SemanticPayload \<Rightarrow> SemanticFact" where
  "sample_fact who i ps p =
     \<lparr>fact_id = i, author = sample_author who, authored_at = 0, scope = InstallationPrivate who,
      causal = sample_causal ps [], payload = p\<rparr>"

text \<open>A fact with its scope and the authorities it cites; the root of installation 1.\<close>

definition sample_signed ::
  "256 word \<Rightarrow> FactScope \<Rightarrow> FactId \<Rightarrow> FactId list \<Rightarrow> (AuthorityRole \<times> FactId) list \<Rightarrow> SemanticPayload \<Rightarrow>
     SemanticFact" where
  "sample_signed who where_to i ps auths p =
     \<lparr>fact_id = i, author = sample_author who, authored_at = 0, scope = where_to,
      causal = sample_causal ps auths, payload = p\<rparr>"

definition sample_root :: SemanticFact where
  "sample_root = sample_signed 1 (InstallationPrivate 1) 1 [] [] (InstallationDeclared 1 1 1 None)"

text \<open>A private fact of installation 1.\<close>

definition sample_local :: "FactId \<Rightarrow> FactId list \<Rightarrow> SemanticPayload \<Rightarrow> SemanticFact" where
  "sample_local i ps p = sample_signed 1 (InstallationPrivate 1) i (1 # ps) [(LocalInstallation, 1)] p"

lemma sample_local_payload [simp]: "payload (sample_local i ps p) = p"
  by (simp add: sample_local_def sample_signed_def)

text \<open>A plain node of a causal graph: its payload plays no part in the graph.\<close>

definition sample_node :: "FactId \<Rightarrow> FactId list \<Rightarrow> SemanticFact" where
  "sample_node i ps = sample_fact 1 i ps (MessageArchived i)"

lemma sample_node_fields [simp]:
  "fact_id (sample_node i ps) = i" "fact_parents (sample_node i ps) = fset_of_list ps"
  by (simp_all add: sample_node_def sample_fact_def sample_causal_def)

lemma sample_node_eq [simp]: "sample_node i ps = sample_node j qs \<longleftrightarrow> i = j \<and> fset_of_list ps = fset_of_list qs"
  by (auto simp: sample_node_def sample_fact_def sample_causal_def)

end
