(* ===== verification/Fact_Set.thy ===== *)
theory Fact_Set
  imports Sample_Facts
begin

text \<open>
  \<open>FactSet\<close> of \<open>hq-reducer/src/fact_set.rs\<close>: the immutable set of exact facts normalised by
  content identity. Equal facts collapse, and unequal facts that carry one identity leave an
  absorbing \<open>Collision\<close> entry.

  The set refines a simple specification: the entry of an identity is a function of the set of
  facts seen with that identity (\<open>absorbed\<close>). From the locale \<open>arrival_store\<close> it follows that
  \<open>from_facts\<close> depends only on which facts arrived, and \<open>merge\<close> is the join of the resulting
  semilattice.
\<close>

section \<open>Operations\<close>

datatype StoredFact = Unique SemanticFact | Collision

record FactSet =
  entries :: "(FactId, StoredFact) fmap"

definition fact_set_empty :: FactSet where
  "fact_set_empty = \<lparr>entries = fmempty\<rparr>"

definition fact_set_insert :: "SemanticFact \<Rightarrow> FactSet \<Rightarrow> FactSet" where
  "fact_set_insert f s =
     (case fmlookup (entries s) (fact_id f) of
        None \<Rightarrow> s\<lparr>entries := fmupd (fact_id f) (Unique f) (entries s)\<rparr>
      | Some (Unique existing) \<Rightarrow>
          if existing = f then s
          else s\<lparr>entries := fmupd (fact_id f) Collision (entries s)\<rparr>
      | Some Collision \<Rightarrow> s)"

definition from_facts :: "SemanticFact list \<Rightarrow> FactSet" where
  "from_facts facts = fold fact_set_insert facts fact_set_empty"

definition merge_entry :: "FactId \<times> StoredFact \<Rightarrow> FactSet \<Rightarrow> FactSet" where
  "merge_entry entry merged =
     (case entry of (i, stored) \<Rightarrow>
        (case stored of
           Unique f \<Rightarrow> fact_set_insert f merged
         | Collision \<Rightarrow> merged\<lparr>entries := fmupd i Collision (entries merged)\<rparr>))"

definition fact_set_merge :: "FactSet \<Rightarrow> FactSet \<Rightarrow> FactSet" where
  "fact_set_merge self other = fold merge_entry (sorted_list_of_fmap (entries other)) self"

definition fact_set_get :: "FactSet \<Rightarrow> FactId \<Rightarrow> SemanticFact option" where
  "fact_set_get s i =
     (case fmlookup (entries s) i of Some (Unique f) \<Rightarrow> Some f | _ \<Rightarrow> None)"

definition fact_set_contains :: "FactSet \<Rightarrow> FactId \<Rightarrow> bool" where
  "fact_set_contains s i \<longleftrightarrow> fmlookup (entries s) i \<noteq> None"

definition fact_set_ids :: "FactSet \<Rightarrow> FactId list" where
  "fact_set_ids s = sorted_list_of_fset (fmdom (entries s))"

fun stored_unique :: "StoredFact \<Rightarrow> SemanticFact option" where
  "stored_unique (Unique f) = Some f"
| "stored_unique Collision = None"

definition fact_set_facts :: "FactSet \<Rightarrow> SemanticFact list" where
  "fact_set_facts s =
     List.map_filter (\<lambda>(i, stored). stored_unique stored) (sorted_list_of_fmap (entries s))"

definition fact_set_collisions :: "FactSet \<Rightarrow> FactId fset" where
  "fact_set_collisions s =
     ffilter (\<lambda>i. fmlookup (entries s) i = Some Collision) (fmdom (entries s))"

definition is_collision :: "FactSet \<Rightarrow> FactId \<Rightarrow> bool" where
  "is_collision s i \<longleftrightarrow> fmlookup (entries s) i = Some Collision"

section \<open>Well-formed sets\<close>

text \<open>A unique entry stands under the identity of its fact.\<close>

definition fact_set_wf :: "FactSet \<Rightarrow> bool" where
  "fact_set_wf s \<longleftrightarrow> (\<forall>i f. fmlookup (entries s) i = Some (Unique f) \<longrightarrow> fact_id f = i)"

lemma fact_set_wf_empty [simp]: "fact_set_wf fact_set_empty"
  by (simp add: fact_set_wf_def fact_set_empty_def)

lemma fact_set_wf_insert: "fact_set_wf s \<Longrightarrow> fact_set_wf (fact_set_insert f s)"
  by (auto simp: fact_set_wf_def fact_set_insert_def split: option.splits StoredFact.splits if_splits)

lemma fact_set_wf_from_facts [simp]: "fact_set_wf (from_facts facts)"
proof -
  have "fact_set_wf s \<Longrightarrow> fact_set_wf (fold fact_set_insert facts s)" for s
    by (induction facts arbitrary: s) (simp_all add: fact_set_wf_insert)
  then show ?thesis by (simp add: from_facts_def)
qed

lemma fact_set_wf_merge:
  assumes "fact_set_wf s"
  shows "fact_set_wf (fact_set_merge s t)"
proof -
  have step: "fact_set_wf u \<Longrightarrow> fact_set_wf (merge_entry e u)" for e u
    by (cases e; cases "snd e")
      (auto simp: merge_entry_def fact_set_wf_insert fact_set_wf_def [of "_\<lparr>entries := _\<rparr>"]
        fact_set_wf_def [of u])
  have "fact_set_wf u \<Longrightarrow> fact_set_wf (fold merge_entry es u)" for es u
    by (induction es arbitrary: u) (simp_all add: step)
  with assms show ?thesis by (simp add: fact_set_merge_def)
qed

lemma fact_set_get_id: "fact_set_wf s \<Longrightarrow> fact_set_get s i = Some f \<Longrightarrow> fact_id f = i"
  by (auto simp: fact_set_get_def fact_set_wf_def split: option.splits StoredFact.splits)

lemma set_map_filter: "set (List.map_filter f xs) = {y. \<exists>x \<in> set xs. f x = Some y}"
  by (force simp: List.map_filter_def)

lemma fact_set_get_Some_iff: "fact_set_get s i = Some f \<longleftrightarrow> fmlookup (entries s) i = Some (Unique f)"
  by (auto simp: fact_set_get_def split: option.splits StoredFact.splits)

lemma stored_unique_Some_iff [simp]: "stored_unique b = Some f \<longleftrightarrow> b = Unique f"
  by (cases b) auto

lemma set_fact_set_facts:
  assumes "fact_set_wf s"
  shows "set (fact_set_facts s) = {f. fact_set_get s (fact_id f) = Some f}"
proof -
  have "set (fact_set_facts s) = {f. \<exists>i. fmlookup (entries s) i = Some (Unique f)}"
    by (auto simp: fact_set_facts_def set_map_filter set_sorted_list_of_fmap)
  also have "\<dots> = {f. fmlookup (entries s) (fact_id f) = Some (Unique f)}"
    using assms by (auto simp: fact_set_wf_def)
  finally show ?thesis by (simp add: fact_set_get_Some_iff)
qed

lemma fact_set_facts_iff:
  assumes "fact_set_wf s"
  shows "f \<in> set (fact_set_facts s) \<longleftrightarrow> fact_set_get s (fact_id f) = Some f"
  using set_fact_set_facts [OF assms] by simp

lemma set_fact_set_ids: "set (fact_set_ids s) = {i. fact_set_contains s i}"
  by (auto simp: fact_set_ids_def fact_set_contains_def fmlookup_dom_iff)

lemma fact_set_get_contains: "fact_set_get s i = Some f \<Longrightarrow> fact_set_contains s i"
  by (auto simp: fact_set_get_def fact_set_contains_def split: option.splits)

text \<open>Each known identity is either a collision or has its unique fact.\<close>

lemma known_identity_cases:
  assumes "fact_set_contains s i"
  obtains (collision) "is_collision s i" "fact_set_get s i = None"
    | (unique) f where "fact_set_get s i = Some f" "\<not> is_collision s i"
  using assms
  by (cases "fmlookup (entries s) i"; cases "the (fmlookup (entries s) i)")
    (auto simp: fact_set_contains_def is_collision_def fact_set_get_def)

section \<open>The semilattice of fact sets\<close>

interpretation fact_arrival: arrival_store fact_set_insert
proof
  fix a b s
  show "fact_set_insert a (fact_set_insert b s) = fact_set_insert b (fact_set_insert a s)"
    by (cases "fact_id a = fact_id b")
      (auto simp: fact_set_insert_def fmupd_reorder_neq split: option.splits StoredFact.splits)
  show "fact_set_insert a (fact_set_insert a s) = fact_set_insert a s"
    by (auto simp: fact_set_insert_def split: option.splits StoredFact.splits)
qed

text \<open>The specification of an entry: nothing, the one fact seen, or a collision.\<close>

definition absorbed :: "SemanticFact set \<Rightarrow> StoredFact option" where
  "absorbed F = (if F = {} then None else if is_singleton F then Some (Unique (the_elem F))
                 else Some Collision)"

lemma absorbed_insert:
  "absorbed (insert f F) =
     (case absorbed F of
        None \<Rightarrow> Some (Unique f)
      | Some (Unique existing) \<Rightarrow> if existing = f then Some (Unique f) else Some Collision
      | Some Collision \<Rightarrow> Some Collision)"
proof -
  consider "F = {}" | (one) g where "F = {g}" | (many) g h where "g \<in> F" "h \<in> F" "g \<noteq> h"
    by blast
  then show ?thesis
  proof cases
    case many
    then have "\<not> is_singleton F" and "\<not> is_singleton (insert f F)"
      by (auto simp: is_singleton_def)
    with many show ?thesis by (auto simp: absorbed_def)
  qed (auto simp: absorbed_def is_singleton_def doubleton_eq_iff)
qed

lemma from_facts_snoc: "from_facts (facts @ [f]) = fact_set_insert f (from_facts facts)"
  by (simp add: from_facts_def)

lemma fmlookup_fact_set_insert:
  "fmlookup (entries (fact_set_insert f s)) i =
     (if i = fact_id f
      then (case fmlookup (entries s) i of
              None \<Rightarrow> Some (Unique f)
            | Some (Unique existing) \<Rightarrow> if existing = f then Some (Unique f) else Some Collision
            | Some Collision \<Rightarrow> Some Collision)
      else fmlookup (entries s) i)"
  by (auto simp: fact_set_insert_def split: option.splits StoredFact.splits)

lemma from_facts_absorbed:
  "fmlookup (entries (from_facts facts)) i = absorbed {f \<in> set facts. fact_id f = i}"
proof (induction facts rule: rev_induct)
  case Nil
  show ?case by (simp add: from_facts_def fact_set_empty_def absorbed_def)
next
  case (snoc g facts)
  have "{f \<in> set (facts @ [g]). fact_id f = i} =
      (if fact_id g = i then insert g {f \<in> set facts. fact_id f = i}
       else {f \<in> set facts. fact_id f = i})"
    by auto
  then show ?case
    by (simp only: from_facts_snoc fmlookup_fact_set_insert snoc.IH absorbed_insert)
      (auto simp: absorbed_insert)
qed

lemma fact_set_eqI: "(\<And>i. fmlookup (entries s) i = fmlookup (entries t) i) \<Longrightarrow> s = (t :: FactSet)"
  by (cases s, cases t) (simp add: fmap_ext)

text \<open>The join of two entries, as merging computes it.\<close>

definition stored_join :: "StoredFact option \<Rightarrow> StoredFact option \<Rightarrow> StoredFact option" where
  "stored_join a b =
     (case a of None \<Rightarrow> b
      | Some x \<Rightarrow> (case b of None \<Rightarrow> a | Some y \<Rightarrow> if x = y then a else Some Collision))"

lemma stored_join_commute: "stored_join a b = stored_join b a"
  by (auto simp: stored_join_def split: option.splits)

lemma stored_join_assoc: "stored_join (stored_join a b) c = stored_join a (stored_join b c)"
  by (auto simp: stored_join_def split: option.splits if_splits)

lemma stored_join_idem [simp]: "stored_join a a = a"
  by (auto simp: stored_join_def split: option.splits)

lemma stored_join_None [simp]: "stored_join a None = a" "stored_join None a = a"
  by (auto simp: stored_join_def split: option.splits)

lemma fmlookup_merge_entry:
  assumes "\<And>f. e = (i, Unique f) \<Longrightarrow> fact_id f = i" and "fst e = i"
  shows "fmlookup (entries (merge_entry e s)) k =
           (if k = i then stored_join (fmlookup (entries s) i) (Some (snd e))
            else fmlookup (entries s) k)"
  using assms
  by (cases e; cases "snd e"; cases "fmlookup (entries s) i"; cases "the (fmlookup (entries s) i)")
    (auto simp: merge_entry_def fmlookup_fact_set_insert stored_join_def)

lemma fmlookup_fold_merge_entry:
  assumes "\<And>i f. (i, Unique f) \<in> set es \<Longrightarrow> fact_id f = i" and "distinct (map fst es)"
  shows "fmlookup (entries (fold merge_entry es s)) k =
           stored_join (fmlookup (entries s) k) (map_of es k)"
  using assms
proof (induction es arbitrary: s)
  case Nil
  show ?case by simp
next
  case (Cons e es)
  have "fmlookup (entries (merge_entry e s)) k =
      (if k = fst e then stored_join (fmlookup (entries s) k) (Some (snd e))
       else fmlookup (entries s) k)"
    using fmlookup_merge_entry [of e "fst e" s k] Cons.prems(1) by (cases e) auto
  moreover have "map_of es (fst e) = None"
    using Cons.prems(2) by (simp add: map_of_eq_None_iff)
  ultimately show ?case
    using Cons.IH [of "merge_entry e s"] Cons.prems by (cases e) auto
qed

lemma fmlookup_merge:
  assumes "fact_set_wf t"
  shows "fmlookup (entries (fact_set_merge s t)) k =
           stored_join (fmlookup (entries s) k) (fmlookup (entries t) k)"
proof -
  have "distinct (map fst (sorted_list_of_fmap (entries t)))"
    by (simp add: sorted_list_of_fmap_def o_def)
  moreover have "fact_id f = i" if "(i, Unique f) \<in> set (sorted_list_of_fmap (entries t))" for i f
    using that assms by (simp add: set_sorted_list_of_fmap fact_set_wf_def)
  ultimately show ?thesis
    by (simp add: fact_set_merge_def fmlookup_fold_merge_entry)
qed

lemma absorbed_Unique_iff: "absorbed F = Some (Unique f) \<longleftrightarrow> F = {f}"
  by (auto simp: absorbed_def is_singleton_def)

lemma absorbed_Collision_iff: "absorbed F = Some Collision \<longleftrightarrow> (\<exists>f \<in> F. \<exists>g \<in> F. f \<noteq> g)"
  by (auto simp: absorbed_def is_singleton_def split: if_splits)

lemma absorbed_Un: "absorbed (F \<union> G) = stored_join (absorbed F) (absorbed G)"
proof -
  have split: "F = {} \<or> (\<exists>f. F = {f}) \<or> (\<exists>f \<in> F. \<exists>g \<in> F. f \<noteq> g)" for F :: "SemanticFact set"
    by blast
  have none: "absorbed F = None \<longleftrightarrow> F = {}" for F :: "SemanticFact set"
    by (simp add: absorbed_def)
  consider (one) f g where "F = {f}" "G = {g}" | (empty) "F = {} \<or> G = {}"
    | (many) "\<exists>f \<in> F. \<exists>g \<in> F. f \<noteq> g" "G \<noteq> {}" | (many') "\<exists>f \<in> G. \<exists>g \<in> G. f \<noteq> g" "F \<noteq> {}"
    using split [of F] split [of G] by blast
  then show ?thesis
  proof cases
    case one
    then show ?thesis by (cases "f = g") (simp_all add: absorbed_def stored_join_def is_singleton_def)
  next
    case empty
    then show ?thesis by (auto simp: absorbed_def)
  next
    case many
    then have "absorbed F = Some Collision" and "absorbed (F \<union> G) = Some Collision"
      unfolding absorbed_Collision_iff by blast+
    then show ?thesis using many(2) none [of G] by (auto simp: stored_join_def split: option.splits)
  next
    case many'
    then have "absorbed G = Some Collision" and "absorbed (F \<union> G) = Some Collision"
      unfolding absorbed_Collision_iff by blast+
    then show ?thesis using many'(2) none [of F]
      by (auto simp: stored_join_def split: option.splits StoredFact.splits)
  qed
qed

lemma fact_set_merge_eqI:
  assumes "fact_set_wf t" and "fact_set_wf v"
    and "\<And>k. stored_join (fmlookup (entries s) k) (fmlookup (entries t) k) =
             stored_join (fmlookup (entries u) k) (fmlookup (entries v) k)"
  shows "fact_set_merge s t = fact_set_merge u v"
  by (rule fact_set_eqI) (simp add: fmlookup_merge assms)

lemma contains_from_facts: "fact_set_contains (from_facts xs) i \<longleftrightarrow> i \<in> fact_id ` set xs"
  by (auto simp: fact_set_contains_def from_facts_absorbed absorbed_def)

section \<open>Properties\<close>

text \<open>
  C29. Merging fact sets is a join: for well-formed sets it is commutative, associative and
  idempotent, so replicas that exchange their sets in any order and grouping agree.
\<close>

theorem fact_set_merge_semilattice:
  assumes "fact_set_wf s" and "fact_set_wf t" and "fact_set_wf u"
  shows "fact_set_merge s t = fact_set_merge t s \<and>
         fact_set_merge (fact_set_merge s t) u = fact_set_merge s (fact_set_merge t u) \<and>
         fact_set_merge s s = s"
proof (intro conjI)
  show "fact_set_merge s t = fact_set_merge t s"
    by (rule fact_set_merge_eqI) (simp_all add: assms stored_join_commute)
  show "fact_set_merge (fact_set_merge s t) u = fact_set_merge s (fact_set_merge t u)"
    by (rule fact_set_eqI) (simp add: assms fmlookup_merge fact_set_wf_merge stored_join_assoc)
  show "fact_set_merge s s = s"
    by (rule fact_set_eqI) (simp add: assms fmlookup_merge)
qed

theorem fact_set_merge_semilattice_witness:
  "let s = from_facts [sample_node 1 []]; t = from_facts [sample_node 1 [2], sample_node 2 []]
   in fact_set_wf s \<and> fact_set_wf t \<and> fact_set_merge s t = fact_set_merge t s \<and>
      fact_set_collisions (fact_set_merge t s) = {|1|}"
  using fact_set_merge_semilattice [of "from_facts [sample_node 1 []]"
      "from_facts [sample_node 1 [2], sample_node 2 []]" fact_set_empty]
  apply (simp add: Let_def)
  by code_simp

text \<open>
  The set a replica holds after receiving two batches is the merge of the sets of the
  batches: delivery in pieces, with duplicates across the pieces, loses and invents nothing.
\<close>

lemma from_facts_append_merge:
  "from_facts (xs @ ys) = fact_set_merge (from_facts xs) (from_facts ys)"
  by (rule fact_set_eqI)
    (simp add: fmlookup_merge from_facts_absorbed Int_Un_distrib2 Collect_disj_eq conj_disj_distribR absorbed_Un)

text \<open>
  C36. An identity resolves to a fact exactly when that fact arrived and no different fact
  arrived under the same identity; two different facts under one identity are a permanent
  collision. Neither depends on the order or the multiplicity of the arrivals.
\<close>

theorem from_facts_contents:
  "(fact_set_get (from_facts xs) i = Some f \<longleftrightarrow>
      f \<in> set xs \<and> fact_id f = i \<and> {g \<in> set xs. fact_id g = i} \<subseteq> {f}) \<and>
   (is_collision (from_facts xs) i \<longleftrightarrow>
      (\<exists>g \<in> set xs. \<exists>h \<in> set xs. fact_id g = i \<and> fact_id h = i \<and> g \<noteq> h)) \<and>
   (fact_set_contains (from_facts xs) i \<longleftrightarrow> i \<in> fact_id ` set xs)"
proof (intro conjI)
  show "fact_set_get (from_facts xs) i = Some f \<longleftrightarrow>
      f \<in> set xs \<and> fact_id f = i \<and> {g \<in> set xs. fact_id g = i} \<subseteq> {f}"
  proof -
    have "fact_set_get (from_facts xs) i = Some f \<longleftrightarrow> {g \<in> set xs. fact_id g = i} = {f}"
      by (simp add: fact_set_get_Some_iff from_facts_absorbed absorbed_Unique_iff)
    then show ?thesis by auto
  qed
  show "is_collision (from_facts xs) i \<longleftrightarrow>
      (\<exists>g \<in> set xs. \<exists>h \<in> set xs. fact_id g = i \<and> fact_id h = i \<and> g \<noteq> h)"
    by (auto simp: is_collision_def from_facts_absorbed absorbed_Collision_iff)
  show "fact_set_contains (from_facts xs) i \<longleftrightarrow> i \<in> fact_id ` set xs"
    by (rule contains_from_facts)
qed

end
