(* ===== verification/Worklist.thy ===== *)
theory Worklist
  imports HQ_Prelude
begin

text \<open>
  The breadth-first loops of the causal graph and of the reducers.

  The source writes the same loop several times: a \<open>VecDeque\<close> of pending identities and a
  \<open>BTreeSet\<close> of visited ones over an adjacency index, with an optional usability filter on the
  children (\<open>CausalGraph::reaches_non_reflexive\<close>, \<open>reverse_dependant_closure\<close>,
  \<open>usably_reaches\<close> of \<open>reducer.rs\<close>, \<open>reaches_with_candidate\<close> of \<open>authority.rs\<close>).
  \<open>search_loop\<close> is the loop that looks for one identity and \<open>closure_loop\<close> the one that
  collects all of them; \<open>support_loop\<close> is the collecting loop of \<open>derive_projections\<close>, which
  stops with an error at an unusable identity. All are total, because the unvisited keys of the
  index shrink or the queue does. Their meaning is reachability in the edge relation of the index.
\<close>

section \<open>The loops\<close>

function search_loop ::
  "('a::linorder, 'a fset) fmap \<Rightarrow> ('a \<Rightarrow> bool) \<Rightarrow> 'a \<Rightarrow> 'a fset \<Rightarrow> 'a list \<Rightarrow> bool" where
  "search_loop ch ok target visited [] = False"
| "search_loop ch ok target visited (candidate # pending) =
     (if candidate = target then True
      else if candidate |\<in>| visited then search_loop ch ok target visited pending
      else search_loop ch ok target (finsert candidate visited)
             (pending @ filter ok (sorted_list_of_fset (index_get ch candidate))))"
  by pat_completeness auto

function closure_loop ::
  "('a::linorder, 'a fset) fmap \<Rightarrow> ('a \<Rightarrow> bool) \<Rightarrow> 'a fset \<Rightarrow> 'a list \<Rightarrow> 'a fset" where
  "closure_loop ch ok visited [] = visited"
| "closure_loop ch ok visited (candidate # pending) =
     (if candidate |\<in>| visited then closure_loop ch ok visited pending
      else closure_loop ch ok (finsert candidate visited)
             (pending @ filter ok (sorted_list_of_fset (index_get ch candidate))))"
  by pat_completeness auto

function support_loop ::
  "('a::linorder, 'a fset) fmap \<Rightarrow> ('a \<Rightarrow> bool) \<Rightarrow> 'a fset \<Rightarrow> 'a list \<Rightarrow> 'a + 'a fset" where
  "support_loop pa ok visited [] = Ok visited"
| "support_loop pa ok visited (candidate # pending) =
     (if \<not> ok candidate then Err candidate
      else if candidate |\<in>| visited then support_loop pa ok visited pending
      else support_loop pa ok (finsert candidate visited)
             (pending @ sorted_list_of_fset (index_get pa candidate)))"
  by pat_completeness auto

lemma unvisited_shrinks:
  assumes "c |\<notin>| visited" and "c |\<in>| fmdom ch"
  shows "fcard (fmdom ch |-| finsert c visited) < fcard (fmdom ch |-| visited)"
proof -
  have "fmdom ch |-| finsert c visited |\<subset>| fmdom ch |-| visited"
    using assms by auto
  then show ?thesis by (rule pfsubset_fcard_mono)
qed

text \<open>Expanding a candidate either visits a new key of the index, or adds nothing to the queue.\<close>

lemma expansion_decreases:
  assumes "c |\<notin>| visited"
  shows "((fcard (fmdom ch |-| finsert c visited),
           length (pending @ filter ok (sorted_list_of_fset (index_get ch c)))),
          (fcard (fmdom ch |-| visited), length (c # pending))) \<in> less_than <*lex*> less_than"
proof (cases "c |\<in>| fmdom ch")
  case True
  then show ?thesis using unvisited_shrinks [OF assms True] by simp
next
  case False
  then have "index_get ch c = {||}" and "fmdom ch |-| finsert c visited = fmdom ch |-| visited"
    by (auto simp: index_get_outside)
  then show ?thesis by (simp add: sorted_list_of_fset.rep_eq)
qed

termination search_loop
  by (relation "inv_image (less_than <*lex*> less_than)
        (\<lambda>(ch, ok, target, visited, pending). (fcard (fmdom ch |-| visited), length pending))")
    (use expansion_decreases in auto)

termination closure_loop
  by (relation "inv_image (less_than <*lex*> less_than)
        (\<lambda>(ch, ok, visited, pending). (fcard (fmdom ch |-| visited), length pending))")
    (use expansion_decreases in auto)

termination support_loop
  by (relation "inv_image (less_than <*lex*> less_than)
        (\<lambda>(pa, ok, visited, pending). (fcard (fmdom pa |-| visited), length pending))")
    (use expansion_decreases [where ok = "\<lambda>_. True"] in auto)

section \<open>Reachability\<close>

definition edges :: "('a, 'a fset) fmap \<Rightarrow> ('a \<Rightarrow> bool) \<Rightarrow> ('a \<times> 'a) set" where
  "edges ch ok = {(a, b). b |\<in>| index_get ch a \<and> ok b}"

lemma edges_iff [simp]: "(a, b) \<in> edges ch ok \<longleftrightarrow> b |\<in>| index_get ch a \<and> ok b"
  by (simp add: edges_def)

text \<open>A path that leaves a set through a closed frontier leaves it at a frontier element.\<close>

lemma rtrancl_leaves:
  assumes "(x, d) \<in> r\<^sup>*" and "x \<in> V" and "d \<notin> V" and "r `` V \<subseteq> V \<union> F"
  shows "\<exists>s \<in> F - V. (s, d) \<in> r\<^sup>*"
  using assms
proof (induction rule: converse_rtrancl_induct)
  case base
  then show ?case by simp
next
  case (step y z)
  then have "z \<in> V \<union> F" by auto
  with step show ?case by (cases "z \<in> V") auto
qed

theorem search_loop_reaches:
  assumes "target |\<notin>| visited"
    and "edges ch ok `` fset visited \<subseteq> fset visited \<union> set pending"
  shows "search_loop ch ok target visited pending \<longleftrightarrow>
           (\<exists>s \<in> set pending. (s, target) \<in> (edges ch ok)\<^sup>*)"
  using assms
proof (induction ch ok target visited pending rule: search_loop.induct)
  case (1 ch ok target visited)
  show ?case by simp
next
  case (2 ch ok target visited c pending)
  let ?r = "edges ch ok"
  consider (hit) "c = target" | (old) "c \<noteq> target" "c |\<in>| visited"
    | (new) "c \<noteq> target" "c |\<notin>| visited" by blast
  then show ?case
  proof cases
    case hit
    then show ?thesis by auto
  next
    case old
    have closed: "?r `` fset visited \<subseteq> fset visited \<union> set pending"
      using "2.prems"(2) old by auto
    have "(c, target) \<in> ?r\<^sup>* \<Longrightarrow> \<exists>s \<in> set pending. (s, target) \<in> ?r\<^sup>*"
      using rtrancl_leaves [OF _ _ _ closed, of c target] old "2.prems"(1) by auto
    then show ?thesis
      using "2.IH"(1) [OF old(1) old(2) "2.prems"(1) closed] old by auto
  next
    case new
    let ?next = "filter ok (sorted_list_of_fset (index_get ch c))"
    have closed: "?r `` fset (finsert c visited) \<subseteq> fset (finsert c visited) \<union> set (pending @ ?next)"
      using "2.prems"(2) by auto
    have "target |\<notin>| finsert c visited"
      using new "2.prems"(1) by auto
    then have IH: "search_loop ch ok target (finsert c visited) (pending @ ?next) \<longleftrightarrow>
        (\<exists>s \<in> set (pending @ ?next). (s, target) \<in> ?r\<^sup>*)"
      using "2.IH"(2) [OF new] closed by blast
    have "(c, target) \<in> ?r\<^sup>* \<longleftrightarrow> (\<exists>s \<in> set ?next. (s, target) \<in> ?r\<^sup>*)"
    proof
      assume "(c, target) \<in> ?r\<^sup>*"
      then show "\<exists>s \<in> set ?next. (s, target) \<in> ?r\<^sup>*"
        using new(1) by (cases rule: converse_rtranclE) auto
    next
      assume "\<exists>s \<in> set ?next. (s, target) \<in> ?r\<^sup>*"
      then obtain s where "(c, s) \<in> ?r" and "(s, target) \<in> ?r\<^sup>*" by auto
      then show "(c, target) \<in> ?r\<^sup>*" by (rule converse_rtrancl_into_rtrancl)
    qed
    with IH new show ?thesis by auto
  qed
qed

lemma trancl_via_children:
  "(a, d) \<in> (edges ch ok)\<^sup>+ \<longleftrightarrow>
     (\<exists>s \<in> set (filter ok (sorted_list_of_fset (index_get ch a))). (s, d) \<in> (edges ch ok)\<^sup>*)"
proof
  assume "(a, d) \<in> (edges ch ok)\<^sup>+"
  then obtain s where "(a, s) \<in> edges ch ok" and "(s, d) \<in> (edges ch ok)\<^sup>*"
    by (blast dest: tranclD)
  then show "\<exists>s \<in> set (filter ok (sorted_list_of_fset (index_get ch a))). (s, d) \<in> (edges ch ok)\<^sup>*"
    by auto
next
  assume "\<exists>s \<in> set (filter ok (sorted_list_of_fset (index_get ch a))). (s, d) \<in> (edges ch ok)\<^sup>*"
  then obtain s where "(a, s) \<in> edges ch ok" and "(s, d) \<in> (edges ch ok)\<^sup>*" by auto
  then show "(a, d) \<in> (edges ch ok)\<^sup>+" by (rule rtrancl_into_trancl2)
qed

corollary search_from_children:
  "search_loop ch ok target {||} (filter ok (sorted_list_of_fset (index_get ch a)))
     \<longleftrightarrow> (a, target) \<in> (edges ch ok)\<^sup>+"
  by (simp add: search_loop_reaches trancl_via_children del: set_filter)

text \<open>The collecting loop returns the visited set together with everything reachable from the queue.\<close>

theorem closure_loop_reachable:
  assumes "edges ch ok `` fset visited \<subseteq> fset visited \<union> set pending"
  shows "fset (closure_loop ch ok visited pending) =
           fset visited \<union> (edges ch ok)\<^sup>* `` set pending"
  using assms
proof (induction ch ok visited pending rule: closure_loop.induct)
  case (1 ch ok visited)
  show ?case by simp
next
  case (2 ch ok visited c pending)
  let ?r = "edges ch ok"
  show ?case
  proof (cases "c |\<in>| visited")
    case True
    have closed: "?r `` fset visited \<subseteq> fset visited \<union> set pending"
      using "2.prems" True by auto
    have "?r\<^sup>* `` {c} \<subseteq> fset visited \<union> ?r\<^sup>* `` set pending"
    proof
      fix d assume "d \<in> ?r\<^sup>* `` {c}"
      then show "d \<in> fset visited \<union> ?r\<^sup>* `` set pending"
        using rtrancl_leaves [OF _ _ _ closed, of c d] True by auto
    qed
    then show ?thesis using "2.IH"(1) [OF True closed] True by auto
  next
    case False
    let ?next = "filter ok (sorted_list_of_fset (index_get ch c))"
    have closed: "?r `` fset (finsert c visited) \<subseteq> fset (finsert c visited) \<union> set (pending @ ?next)"
      using "2.prems" by auto
    have "?r\<^sup>* `` {c} = insert c (?r\<^sup>* `` set ?next)"
    proof -
      have "?r\<^sup>* `` {c} = insert c (?r\<^sup>+ `` {c})"
        by (auto simp: rtrancl_eq_or_trancl)
      also have "?r\<^sup>+ `` {c} = ?r\<^sup>* `` set ?next"
        unfolding Image_def trancl_via_children by blast
      finally show ?thesis .
    qed
    then show ?thesis using "2.IH"(2) [OF False closed] False by auto
  qed
qed

corollary closure_from:
  "fset (closure_loop ch ok {||} pending) = (edges ch ok)\<^sup>* `` set pending"
  by (simp add: closure_loop_reachable)

text \<open>
  The checking loop visits what the unfiltered collecting loop visits, and stops at the first
  unusable vertex it takes from the queue.
\<close>

lemma support_loop_Ok:
  "support_loop pa ok visited pending = Ok S \<Longrightarrow>
     S = closure_loop pa (\<lambda>_. True) visited pending \<and> (\<forall>c. c |\<in>| S \<longrightarrow> c |\<in>| visited \<or> ok c)"
  by (induction pa ok visited pending arbitrary: S rule: support_loop.induct)
    (auto split: if_splits)

lemma support_loop_Err:
  "support_loop pa ok visited pending = Err i \<Longrightarrow>
     (\<And>c p. ok c \<Longrightarrow> p |\<in>| index_get pa c \<Longrightarrow> ok p) \<Longrightarrow> \<not> ok i \<and> i \<in> set pending"
  by (induction pa ok visited pending rule: support_loop.induct) (auto split: if_splits)

corollary support_from_Ok:
  assumes "support_loop pa ok {||} pending = Ok S"
  shows "fset S = (edges pa (\<lambda>_. True))\<^sup>* `` set pending" and "\<And>c. c |\<in>| S \<Longrightarrow> ok c"
  using support_loop_Ok [OF assms] by (auto simp: closure_from)

end
