(* ===== verification/Kahn.thy ===== *)
theory Kahn
  imports HQ_Prelude
begin

text \<open>
  The deterministic Kahn traversal shared by \<open>CausalGraph::dependency_order\<close> and
  \<open>canonical_presentation_order\<close>.

  Both loops keep an indegree map over the eligible identities and an ordered ready set, pop
  the least ready entry, and decrement the indegree of each eligible child. They differ only
  in what the ready set holds: bare identities in the first, pairs of a presentation key and
  an identity in the second. \<open>kahn_loop\<close> takes the two directions of that encoding as
  \<open>entry\<close> and \<open>vertex\<close>.

  The loops can panic in two ways, and the model returns \<open>None\<close> at each: the decrement
  \<open>*degree -= 1\<close> is on an unsigned counter, which underflows at zero; and building a ready entry
  may index a map with an absent key, so \<open>entry\<close> is partial. The locale \<open>kahn_graph\<close> states what
  the traversal needs from its graph and its ready encoding (in particular an entry for every
  eligible identity), and shows that the loop never panics, that it emits each
  eligible identity at most once and after its eligible parents, that every emitted entry is the
  least one ready at that point, and that nothing is left over exactly when the induced graph is
  acyclic.
\<close>

section \<open>The loop\<close>

definition pop_first :: "'e::linorder fset \<Rightarrow> ('e \<times> 'e fset) option" where
  "pop_first s = (if s = {||} then None else Some (fMin s, s |-| {|fMin s|}))"

fun relax_children ::
  "('a \<Rightarrow> 'e option) \<Rightarrow> 'a list \<Rightarrow> ('a, nat) fmap \<Rightarrow> 'e fset \<Rightarrow> (('a, nat) fmap \<times> 'e fset) option" where
  "relax_children entry [] degree ready = Some (degree, ready)"
| "relax_children entry (child # rest) degree ready =
     (case fmlookup degree child of
        None \<Rightarrow> relax_children entry rest degree ready
      | Some d \<Rightarrow>
          if d = 0 then None
          else if d - 1 = 0 then
            (case entry child of
               None \<Rightarrow> None
             | Some e \<Rightarrow> relax_children entry rest (fmupd child (d - 1) degree) (finsert e ready))
          else relax_children entry rest (fmupd child (d - 1) degree) ready)"

definition degree_sum :: "('a, nat) fmap \<Rightarrow> nat" where
  "degree_sum degree = (\<Sum>k \<in> fmdom' degree. the (fmlookup degree k))"

lemma degree_sum_decrement:
  assumes "fmlookup degree c = Some d" and "0 < d"
  shows "Suc (degree_sum (fmupd c (d - 1) degree)) = degree_sum degree"
proof -
  have c: "c \<in> fmdom' degree" using assms(1) by (rule fmdom'I)
  have "degree_sum degree = d + (\<Sum>k \<in> fmdom' degree - {c}. the (fmlookup degree k))"
    using c assms(1) by (simp add: degree_sum_def sum.remove)
  moreover have "degree_sum (fmupd c (d - 1) degree)
      = (d - 1) + (\<Sum>k \<in> fmdom' degree - {c}. the (fmlookup (fmupd c (d - 1) degree) k))"
    by (simp add: degree_sum_def sum.insert_remove)
  moreover have "(\<Sum>k \<in> fmdom' degree - {c}. the (fmlookup (fmupd c (d - 1) degree) k))
      = (\<Sum>k \<in> fmdom' degree - {c}. the (fmlookup degree k))"
    by (rule sum.cong) auto
  ultimately show ?thesis using assms(2) by simp
qed

lemma relax_children_measure:
  "relax_children entry cs degree ready = Some (degree', ready') \<Longrightarrow>
     fcard ready' + degree_sum degree' \<le> fcard ready + degree_sum degree"
proof (induction entry cs degree ready rule: relax_children.induct)
  case (1 entry degree ready)
  then show ?case by simp
next
  case (2 entry child rest degree ready)
  show ?case
  proof (cases "fmlookup degree child")
    case None
    with 2 show ?thesis by simp
  next
    case (Some d)
    with "2.prems" have d: "0 < d" by (simp split: if_splits)
    obtain r where r: "relax_children entry rest (fmupd child (d - 1) degree) r = Some (degree', ready')"
        "fcard r \<le> Suc (fcard ready)"
      and "fcard ready' + degree_sum degree' \<le> fcard r + degree_sum (fmupd child (d - 1) degree)"
    proof (cases "d - 1 = 0")
      case True
      then obtain e where "entry child = Some e"
        using "2.prems" Some d by (auto split: option.splits)
      with True "2.IH"(2) [OF Some] "2.prems" Some d that [of "finsert e ready"] show ?thesis
        by (simp add: fcard_finsert_if)
    next
      case False
      with "2.IH"(3) [OF Some] "2.prems" Some d that [of ready] show ?thesis by simp
    qed
    then show ?thesis using degree_sum_decrement [OF Some d] by linarith
  qed
qed

function kahn_loop ::
  "('a \<Rightarrow> 'e::linorder option) \<Rightarrow> ('e \<Rightarrow> 'a::linorder) \<Rightarrow> ('a, 'a fset) fmap \<Rightarrow> 'a fset \<Rightarrow>
     ('a, nat) fmap \<Rightarrow> 'e fset \<Rightarrow> 'a list \<Rightarrow> 'a list option" where
  "kahn_loop entry vertex children eligible degree ready ordered =
     (case pop_first ready of
        None \<Rightarrow> Some ordered
      | Some (e, ready') \<Rightarrow>
          (case relax_children entry
                  (sorted_list_of_fset (index_get children (vertex e) |\<inter>| eligible)) degree ready' of
             None \<Rightarrow> None
           | Some (degree', ready'') \<Rightarrow>
               kahn_loop entry vertex children eligible degree' ready'' (ordered @ [vertex e])))"
  by pat_completeness auto

lemma pop_first_SomeD:
  assumes "pop_first ready = Some (e, rest)"
  shows "e |\<in>| ready" and "x |\<in>| ready \<Longrightarrow> e \<le> x" and "rest = ready |-| {|e|}"
proof -
  have "ready \<noteq> {||}" and "e = fMin ready" and "rest = ready |-| {|fMin ready|}"
    using assms by (metis option.distinct(1) option.inject pop_first_def prod.inject)+
  then show "e |\<in>| ready" and "x |\<in>| ready \<Longrightarrow> e \<le> x" and "rest = ready |-| {|e|}"
    by simp_all
qed

lemma pop_first_card: "pop_first ready = Some (e, ready') \<Longrightarrow> Suc (fcard ready') = fcard ready"
  using fcard_Suc_fminus1 pop_first_SomeD(1,3) by metis

termination kahn_loop
proof (relation "measure (\<lambda>(entry, vertex, children, eligible, degree, ready, ordered).
    fcard ready + degree_sum degree)", goal_cases)
  case 1
  show ?case by simp
next
  case (2 entry vertex children eligible degree ready ordered p e ready' q degree' ready'')
  then show ?case
    using pop_first_card [of ready e ready']
      relax_children_measure [of entry _ degree ready' degree' ready''] by fastforce
qed

declare kahn_loop.simps [simp del]

text \<open>The initial indegrees count eligible parents; an identity without any is ready at once.\<close>

definition kahn_degrees :: "('a::linorder, 'a fset) fmap \<Rightarrow> 'a fset \<Rightarrow> ('a, nat) fmap" where
  "kahn_degrees parents eligible =
     fmap_of_list (map (\<lambda>v. (v, fcard (index_get parents v |\<inter>| eligible)))
       (sorted_list_of_fset eligible))"

definition kahn_ready :: "('a::linorder \<Rightarrow> 'e option) \<Rightarrow> ('a, nat) fmap \<Rightarrow> 'e fset option" where
  "kahn_ready entry degree =
     map_option fset_of_list
       (those (map entry (sorted_list_of_fset (ffilter (\<lambda>v. fmlookup degree v = Some 0) (fmdom degree)))))"

definition kahn ::
  "('a \<Rightarrow> 'e::linorder option) \<Rightarrow> ('e \<Rightarrow> 'a::linorder) \<Rightarrow> ('a, 'a fset) fmap \<Rightarrow> ('a, 'a fset) fmap \<Rightarrow>
     'a fset \<Rightarrow> 'a list option" where
  "kahn entry vertex parents children eligible =
     (let degree = kahn_degrees parents eligible
      in Option.bind (kahn_ready entry degree)
           (\<lambda>ready. kahn_loop entry vertex children eligible degree ready []))"

section \<open>The order the traversal is meant to produce\<close>

text \<open>
  \<open>ready_after par S done\<close>: the members of \<open>S\<close> not yet emitted whose parents inside \<open>S\<close> all
  are. A canonical order emits, at every position, the ready member with the least entry, and
  stops when nothing is ready.
\<close>

definition ready_after :: "('a \<Rightarrow> 'a set) \<Rightarrow> 'a set \<Rightarrow> 'a set \<Rightarrow> 'a set" where
  "ready_after par S done = {v \<in> S. v \<notin> done \<and> par v \<inter> S \<subseteq> done}"

definition greedy_prefix :: "('a \<Rightarrow> 'e::linorder) \<Rightarrow> ('a \<Rightarrow> 'a set) \<Rightarrow> 'a set \<Rightarrow> 'a list \<Rightarrow> bool" where
  "greedy_prefix entry par S xs \<longleftrightarrow>
     (\<forall>i < length xs. xs ! i \<in> ready_after par S (set (take i xs)) \<and>
        (\<forall>u \<in> ready_after par S (set (take i xs)). entry (xs ! i) \<le> entry u))"

definition canonical_order :: "('a \<Rightarrow> 'e::linorder) \<Rightarrow> ('a \<Rightarrow> 'a set) \<Rightarrow> 'a set \<Rightarrow> 'a list \<Rightarrow> bool" where
  "canonical_order entry par S xs \<longleftrightarrow>
     greedy_prefix entry par S xs \<and> ready_after par S (set xs) = {}"

definition induced :: "('a \<Rightarrow> 'a set) \<Rightarrow> 'a set \<Rightarrow> ('a \<times> 'a) set" where
  "induced par S = {(p, c). p \<in> S \<and> c \<in> S \<and> p \<in> par c}"

lemma canonical_order_Some: "canonical_order Some par S xs \<longleftrightarrow> canonical_order (\<lambda>v. v) par S xs"
  by (simp add: canonical_order_def greedy_prefix_def)

lemma greedy_prefix_Nil [simp]: "greedy_prefix entry par S []"
  by (simp add: greedy_prefix_def)

lemma greedy_prefix_snoc:
  "greedy_prefix entry par S (xs @ [v]) \<longleftrightarrow>
     greedy_prefix entry par S xs \<and> v \<in> ready_after par S (set xs) \<and>
     (\<forall>u \<in> ready_after par S (set xs). entry v \<le> entry u)"
  unfolding greedy_prefix_def
  by (auto simp: nth_append less_Suc_eq)

lemma greedy_prefix_distinct: "greedy_prefix entry par S xs \<Longrightarrow> distinct xs"
  by (induction xs rule: rev_induct) (auto simp: greedy_prefix_snoc ready_after_def)

lemma greedy_prefix_subset: "greedy_prefix entry par S xs \<Longrightarrow> set xs \<subseteq> S"
  by (induction xs rule: rev_induct) (auto simp: greedy_prefix_snoc ready_after_def)

lemma greedy_prefix_closed:
  "greedy_prefix entry par S xs \<Longrightarrow> v \<in> set xs \<Longrightarrow> par v \<inter> S \<subseteq> set xs"
  by (induction xs rule: rev_induct) (auto simp: greedy_prefix_snoc ready_after_def)

text \<open>Parents come first: an eligible parent of the element at position \<open>i\<close> stands before \<open>i\<close>.\<close>

lemma greedy_prefix_topological:
  "greedy_prefix entry par S xs \<Longrightarrow> i < length xs \<Longrightarrow> p \<in> par (xs ! i) \<Longrightarrow> p \<in> S \<Longrightarrow>
     p \<in> set (take i xs)"
  unfolding greedy_prefix_def ready_after_def by blast

definition precedes :: "'a list \<Rightarrow> 'a \<Rightarrow> 'a \<Rightarrow> bool" where
  "precedes xs p c \<longleftrightarrow> (\<exists>j k. j < k \<and> k < length xs \<and> xs ! j = p \<and> xs ! k = c)"

lemma greedy_prefix_precedes:
  assumes "greedy_prefix entry par S xs" and "p \<in> par c" and "p \<in> S" and "c \<in> set xs"
  shows "precedes xs p c"
proof -
  obtain k where k: "k < length xs" "xs ! k = c" using assms(4) by (auto simp: in_set_conv_nth)
  then have "p \<in> set (take k xs)" using greedy_prefix_topological [OF assms(1)] assms(2,3) by blast
  then show ?thesis using k by (force simp: in_set_conv_nth precedes_def)
qed

theorem canonical_order_unique:
  assumes xs: "canonical_order entry par S xs" and ys: "canonical_order entry par S ys"
    and inj: "inj_on entry S"
  shows "xs = ys"
proof -
  have "take i xs = take i ys" for i
  proof (induction i)
    case 0
    show ?case by simp
  next
    case (Suc i)
    have step: "i < length bs \<and> as ! i = bs ! i"
      if as: "canonical_order entry par S as" and bs: "canonical_order entry par S bs"
        and eq: "take i as = take i bs" and i: "i < length as" for as bs
    proof -
      have a: "as ! i \<in> ready_after par S (set (take i bs))"
        using as i eq unfolding canonical_order_def greedy_prefix_def by metis
      have ib: "i < length bs"
      proof (rule ccontr)
        assume "\<not> i < length bs"
        then have "ready_after par S (set (take i bs)) = {}"
          using bs by (simp add: canonical_order_def)
        with a show False by simp
      qed
      have b: "bs ! i \<in> ready_after par S (set (take i as))"
        using bs ib eq unfolding canonical_order_def greedy_prefix_def by metis
      have "entry (as ! i) \<le> entry (bs ! i)"
        using as i b unfolding canonical_order_def greedy_prefix_def by blast
      moreover have "entry (bs ! i) \<le> entry (as ! i)"
        using bs ib a unfolding canonical_order_def greedy_prefix_def by blast
      moreover have "as ! i \<in> S" "bs ! i \<in> S" using a b by (simp_all add: ready_after_def)
      ultimately show ?thesis using ib inj by (auto dest: inj_onD)
    qed
    consider "i < length xs" | "i < length ys" | "length xs \<le> i" "length ys \<le> i" by linarith
    then show ?case
    proof cases
      case 1
      with step [OF xs ys Suc.IH] Suc.IH show ?thesis by (simp add: take_Suc_conv_app_nth)
    next
      case 2
      with step [OF ys xs Suc.IH [symmetric]] Suc.IH show ?thesis
        by (simp add: take_Suc_conv_app_nth)
    next
      case 3
      with Suc.IH show ?thesis by simp
    qed
  qed
  from this [of "max (length xs) (length ys)"] show ?thesis by simp
qed

text \<open>Nothing is left over exactly when the induced graph has no cycle.\<close>

lemma canonical_order_acyclic:
  assumes "canonical_order entry par S xs" and "S \<subseteq> set xs"
  shows "acyclic (induced par S)"
proof -
  have g: "greedy_prefix entry par S xs" using assms(1) by (simp add: canonical_order_def)
  define pos where "pos v = (LEAST i. i < length xs \<and> xs ! i = v)" for v
  have pos: "pos v < length xs \<and> xs ! pos v = v" if "v \<in> S" for v
  proof -
    from that assms(2) have "\<exists>i. i < length xs \<and> xs ! i = v"
      by (metis in_set_conv_nth subsetD)
    then show ?thesis unfolding pos_def by (rule LeastI_ex)
  qed
  have less: "pos p < pos c" if "(p, c) \<in> induced par S" for p c
  proof -
    from that have p: "p \<in> S" "p \<in> par c" and c: "c \<in> S" by (auto simp: induced_def)
    have "p \<in> set (take (pos c) xs)"
      using greedy_prefix_topological [OF g, of "pos c" p] pos [OF c] p by simp
    then obtain i where i: "i < pos c" "i < length xs" "xs ! i = p"
      by (auto simp: in_set_conv_nth)
    then have "pos p \<le> i" unfolding pos_def by (intro Least_le) simp
    with i(1) show ?thesis by simp
  qed
  have "induced par S \<subseteq> measure pos" using less by auto
  then have "wf (induced par S)" by (rule wf_subset [OF wf_measure])
  then show ?thesis by (rule wf_acyclic)
qed

lemma canonical_order_complete:
  assumes co: "canonical_order entry par S xs" and fin: "finite S"
    and acyc: "acyclic (induced par S)"
  shows "S \<subseteq> set xs"
proof (rule ccontr)
  assume "\<not> S \<subseteq> set xs"
  then obtain v where v: "v \<in> S - set xs" by blast
  have "finite (induced par S)"
    by (rule finite_subset [of _ "S \<times> S"]) (auto simp: induced_def fin)
  then have "wf (induced par S)" using acyc by (rule finite_acyclic_wf)
  then obtain m where m: "m \<in> S - set xs"
    and least: "\<And>y. (y, m) \<in> induced par S \<Longrightarrow> y \<notin> S - set xs"
    using v by (rule wfE_min) blast
  have "m \<in> ready_after par S (set xs)"
    using m least by (auto simp: ready_after_def induced_def)
  then show False using co by (simp add: canonical_order_def)
qed

section \<open>The traversal meets the order\<close>

lemma relax_children_result:
  assumes "distinct cs" and "\<And>c. c \<in> set cs \<Longrightarrow> (\<exists>d. fmlookup degree c = Some (Suc d)) \<and> entry c \<noteq> None"
  shows "\<exists>degree' ready'. relax_children entry cs degree ready = Some (degree', ready') \<and>
     (\<forall>k. fmlookup degree' k =
        (if k \<in> set cs then map_option (\<lambda>d. d - 1) (fmlookup degree k) else fmlookup degree k)) \<and>
     Some ` fset ready' = Some ` fset ready \<union> entry ` {c \<in> set cs. fmlookup degree c = Some 1}"
  using assms
proof (induction cs arbitrary: degree ready)
  case Nil
  then show ?case by simp
next
  case (Cons c cs)
  obtain d e where d: "fmlookup degree c = Some (Suc d)" and e: "entry c = Some e"
    using Cons.prems(2) [of c] by auto
  let ?degree = "fmupd c d degree"
  let ?ready = "if d = 0 then finsert e ready else ready"
  have "(\<exists>d'. fmlookup ?degree c' = Some (Suc d')) \<and> entry c' \<noteq> None" if "c' \<in> set cs" for c'
    using that Cons.prems by auto
  moreover have "distinct cs" using Cons.prems(1) by simp
  ultimately obtain degree' ready' where
    run: "relax_children entry cs ?degree ?ready = Some (degree', ready')" and
    deg: "\<And>k. fmlookup degree' k =
      (if k \<in> set cs then map_option (\<lambda>d. d - 1) (fmlookup ?degree k) else fmlookup ?degree k)" and
    rdy: "Some ` fset ready' = Some ` fset ?ready \<union> entry ` {x \<in> set cs. fmlookup ?degree x = Some 1}"
    using Cons.IH [of ?degree ?ready] by blast
  have "relax_children entry (c # cs) degree ready = Some (degree', ready')"
    using run d e by (cases d) simp_all
  moreover have "fmlookup degree' k = (if k \<in> set (c # cs)
      then map_option (\<lambda>d. d - 1) (fmlookup degree k) else fmlookup degree k)" for k
    using deg [of k] d Cons.prems(1) by auto
  moreover have "Some ` fset ready' = Some ` fset ready \<union> entry ` {x \<in> set (c # cs). fmlookup degree x = Some 1}"
  proof -
    have "{x \<in> set cs. fmlookup ?degree x = Some 1} = {x \<in> set cs. fmlookup degree x = Some 1}"
      using Cons.prems(1) by auto
    moreover have "{x \<in> set (c # cs). fmlookup degree x = Some 1} =
        (if d = 0 then {c} else {}) \<union> {x \<in> set cs. fmlookup degree x = Some 1}"
      using d Cons.prems(1) by auto
    ultimately show ?thesis using rdy e by (cases "d = 0") auto
  qed
  ultimately show ?case by blast
qed

text \<open>
  What the traversal relies on: every eligible identity has an entry, which names it, and the two
  adjacency indexes mirror each other.
\<close>

locale kahn_graph =
  fixes entry :: "'a::linorder \<Rightarrow> 'e::linorder option"
    and vertex :: "'e \<Rightarrow> 'a"
    and parents :: "('a, 'a fset) fmap"
    and children :: "('a, 'a fset) fmap"
    and eligible :: "'a fset"
  assumes vertex_entry: "v |\<in>| eligible \<Longrightarrow> map_option vertex (entry v) = Some v"
    and mirror: "c |\<in>| index_get children p \<longleftrightarrow> p |\<in>| index_get parents c"
begin

abbreviation par :: "'a \<Rightarrow> 'a set" where
  "par v \<equiv> fset (index_get parents v)"

abbreviation ready_now :: "'a list \<Rightarrow> 'a set" where
  "ready_now ordered \<equiv> ready_after par (fset eligible) (set ordered)"

abbreviation waiting :: "'a list \<Rightarrow> 'a \<Rightarrow> 'a set" where
  "waiting ordered v \<equiv> par v \<inter> fset eligible - set ordered"

lemma inj_entry: "inj_on entry (fset eligible)"
  by (metis inj_onI option.inject vertex_entry)

lemma entry_defined: "v |\<in>| eligible \<Longrightarrow> entry v \<noteq> None"
  using vertex_entry by fastforce

text \<open>The loop state is a function of the emitted prefix.\<close>

definition state_ok :: "('a, nat) fmap \<Rightarrow> 'e fset \<Rightarrow> 'a list \<Rightarrow> bool" where
  "state_ok degree ready ordered \<longleftrightarrow>
     greedy_prefix entry par (fset eligible) ordered \<and>
     (\<forall>v. fmlookup degree v = (if v |\<in>| eligible then Some (card (waiting ordered v)) else None)) \<and>
     Some ` fset ready = entry ` ready_now ordered"

lemma kahn_init:
  "\<exists>ready. kahn_ready entry (kahn_degrees parents eligible) = Some ready \<and>
     state_ok (kahn_degrees parents eligible) ready []"
proof -
  have deg: "fmlookup (kahn_degrees parents eligible) v =
      (if v |\<in>| eligible then Some (card (waiting [] v)) else None)" for v
    by (simp add: kahn_degrees_def fmap_of_list.rep_eq map_of_map_restrict o_def restrict_map_def
        fcard.rep_eq)
  let ?zero = "sorted_list_of_fset (ffilter (\<lambda>v. fmlookup (kahn_degrees parents eligible) v = Some 0)
      (fmdom (kahn_degrees parents eligible)))"
  have zero: "set ?zero = ready_now []"
    using deg by (auto simp: ready_after_def fmlookup_dom_iff split: if_splits)
  have "\<exists>es. those (map entry ?zero) = Some es \<and> map Some es = map entry ?zero"
    by (rule those_map_defined) (use zero entry_defined in \<open>auto simp: ready_after_def\<close>)
  then obtain es where es: "those (map entry ?zero) = Some es" "map Some es = map entry ?zero" by blast
  have "Some ` fset (fset_of_list es) = entry ` ready_now []"
    using arg_cong [OF es(2), of set] unfolding set_map zero by (simp add: fset_of_list.rep_eq)
  with deg es(1) show ?thesis by (simp add: state_ok_def kahn_ready_def)
qed

text \<open>One iteration emits the least ready identity and updates the state to the longer prefix.\<close>

lemma kahn_step:
  assumes ok: "state_ok degree ready ordered" and pop: "pop_first ready = Some (e, rest)"
  shows "\<exists>degree' ready'. relax_children entry
           (sorted_list_of_fset (index_get children (vertex e) |\<inter>| eligible)) degree rest
             = Some (degree', ready') \<and>
           state_ok degree' ready' (ordered @ [vertex e])"
proof -
  from ok have greedy: "greedy_prefix entry par (fset eligible) ordered"
    and deg: "\<And>v. fmlookup degree v =
      (if v |\<in>| eligible then Some (card (waiting ordered v)) else None)"
    and rdy: "Some ` fset ready = entry ` ready_now ordered"
    by (auto simp: state_ok_def)
  note e = pop_first_SomeD(1) [OF pop] and least = pop_first_SomeD(2) [OF pop]
    and rest = pop_first_SomeD(3) [OF pop]
  define v where "v = vertex e"
  have "Some e \<in> entry ` ready_now ordered" using e by (simp add: rdy [symmetric])
  then obtain w where w: "w \<in> ready_now ordered" "entry w = Some e" by auto
  then have "vertex e = w" using vertex_entry [of w] by (simp add: ready_after_def)
  with w have v: "v \<in> ready_now ordered" and ev: "Some e = entry v" by (simp_all add: v_def)
  let ?cs = "sorted_list_of_fset (index_get children v |\<inter>| eligible)"
  have child: "c \<in> set ?cs \<longleftrightarrow> c |\<in>| eligible \<and> v \<in> par c" for c
    by (auto simp: mirror)
  have waits: "waiting (ordered @ [v]) c = waiting ordered c - {v}" for c by auto
  have vS: "v \<in> fset eligible - set ordered" using v by (auto simp: ready_after_def)
  have drop: "card (waiting (ordered @ [v]) c) =
      (if c \<in> set ?cs then card (waiting ordered c) - 1 else card (waiting ordered c))"
    if "c |\<in>| eligible" for c
    unfolding waits using that vS child [of c] by (auto simp: card_Diff_singleton_if)
  have pos: "\<exists>d. fmlookup degree c = Some (Suc d)" if "c \<in> set ?cs" for c
  proof -
    from that have "v \<in> waiting ordered c" using child vS by blast
    then have "card (waiting ordered c) \<noteq> 0" by (simp add: card_eq_0_iff) blast
    with that child deg show ?thesis by (auto simp: not0_implies_Suc)
  qed
  obtain degree' ready' where
    run: "relax_children entry ?cs degree rest = Some (degree', ready')" and
    deg': "\<And>k. fmlookup degree' k =
      (if k \<in> set ?cs then map_option (\<lambda>d. d - 1) (fmlookup degree k) else fmlookup degree k)" and
    rdy': "Some ` fset ready' = Some ` fset rest \<union> entry ` {c \<in> set ?cs. fmlookup degree c = Some 1}"
    using relax_children_result [of ?cs degree entry rest] pos entry_defined child by auto
  have "entry v \<le> entry u" if "u \<in> ready_now ordered" for u
  proof -
    from that have "entry u \<in> Some ` fset ready" by (simp add: rdy)
    then show ?thesis using least by (auto simp: ev [symmetric])
  qed
  then have "greedy_prefix entry par (fset eligible) (ordered @ [v])"
    unfolding greedy_prefix_snoc using greedy v by blast
  moreover have "fmlookup degree' c =
      (if c |\<in>| eligible then Some (card (waiting (ordered @ [v]) c)) else None)" for c
    using deg' [of c] deg [of c] drop [of c] child [of c] by auto
  moreover have "Some ` fset ready' = entry ` ready_now (ordered @ [v])"
  proof -
    have "{c \<in> set ?cs. fmlookup degree c = Some 1} = {c \<in> set ?cs. waiting ordered c = {v}}"
    proof (rule Collect_cong, rule conj_cong)
      fix c assume "c \<in> set ?cs"
      then have "v \<in> waiting ordered c" and "c |\<in>| eligible" using child vS by blast+
      then have "card (waiting ordered c) = 1 \<longleftrightarrow> waiting ordered c = {v}"
        by (metis card_1_singletonE is_singletonI is_singleton_altdef singletonD)
      then show "fmlookup degree c = Some 1 \<longleftrightarrow> waiting ordered c = {v}"
        using deg [of c] \<open>c |\<in>| eligible\<close> by simp
    qed simp
    moreover have "ready_now (ordered @ [v]) =
        (ready_now ordered - {v}) \<union> {c \<in> set ?cs. waiting ordered c = {v}}"
      using v vS child greedy_prefix_closed [OF greedy] by (auto simp: ready_after_def)
    moreover have "Some ` fset rest = entry ` (ready_now ordered - {v})"
    proof -
      have "inj_on entry (ready_now ordered)"
        by (rule inj_on_subset [OF inj_entry]) (auto simp: ready_after_def)
      then have "entry ` (ready_now ordered - {v}) = Some ` fset ready - {Some e}"
        using v by (simp add: inj_on_image_set_diff ev rdy)
      also have "\<dots> = Some ` fset rest" by (auto simp: rest)
      finally show ?thesis ..
    qed
    ultimately show ?thesis using rdy' by (simp add: image_Un)
  qed
  ultimately show ?thesis using run by (auto simp: state_ok_def v_def)
qed

lemma kahn_loop_canonical:
  assumes "state_ok degree ready ordered"
  shows "\<exists>xs. kahn_loop entry vertex children eligible degree ready ordered = Some xs \<and>
           canonical_order entry par (fset eligible) xs"
  using assms
proof (induction "card (fset eligible - set ordered)" arbitrary: degree ready ordered
    rule: less_induct)
  case less
  show ?case
  proof (cases "pop_first ready")
    case None
    then have "ready = {||}" by (simp add: pop_first_def split: if_splits)
    with less.prems have "canonical_order entry par (fset eligible) ordered"
      by (simp add: state_ok_def canonical_order_def)
    with None show ?thesis by (subst kahn_loop.simps) simp
  next
    case (Some p)
    obtain e rest where p: "p = (e, rest)" by fastforce
    obtain degree' ready' where
      run: "relax_children entry (sorted_list_of_fset (index_get children (vertex e) |\<inter>| eligible))
              degree rest = Some (degree', ready')" and
      ok': "state_ok degree' ready' (ordered @ [vertex e])"
      using kahn_step less.prems Some p by blast
    have "vertex e \<in> fset eligible - set ordered"
      using ok' by (auto simp: state_ok_def greedy_prefix_snoc ready_after_def)
    then have "card (fset eligible - set (ordered @ [vertex e])) < card (fset eligible - set ordered)"
      by (intro psubset_card_mono) auto
    from less.hyps [OF this ok'] run Some p show ?thesis by (subst kahn_loop.simps) simp
  qed
qed

theorem kahn_canonical:
  "\<exists>xs. kahn entry vertex parents children eligible = Some xs \<and>
     canonical_order entry par (fset eligible) xs"
  using kahn_init kahn_loop_canonical by (auto simp: kahn_def Let_def)

corollary kahn_distinct:
  "kahn entry vertex parents children eligible = Some xs \<Longrightarrow> distinct xs \<and> set xs \<subseteq> fset eligible"
  using kahn_canonical greedy_prefix_distinct greedy_prefix_subset
  by (fastforce simp: canonical_order_def)

corollary kahn_complete_iff:
  assumes "kahn entry vertex parents children eligible = Some xs"
  shows "length xs = fcard eligible \<longleftrightarrow> acyclic (induced par (fset eligible))"
proof -
  from assms have co: "canonical_order entry par (fset eligible) xs"
    using kahn_canonical by auto
  have "distinct xs" and sub: "set xs \<subseteq> fset eligible"
    using kahn_distinct [OF assms] by auto
  then have "length xs = fcard eligible \<longleftrightarrow> fset eligible \<subseteq> set xs"
    by (metis card_subset_eq distinct_card fcard.rep_eq finite_fset subset_antisym subset_refl)
  then show ?thesis
    using canonical_order_acyclic [OF co] canonical_order_complete [OF co] by auto
qed

end

end
