(* ===== verification/Causal_Graph.thy ===== *)
theory Causal_Graph
  imports Fact_Set Worklist Kahn
begin

text \<open>
  \<open>CausalGraph\<close> of \<open>hq-reducer/src/graph.rs\<close>: the parent and reverse-dependency indexes over
  the present and missing vertices of a fact set, structural reachability, cycle membership,
  the reverse-dependant closure and the deterministic dependency order.

  The indexes are built by the source's loops; \<open>graph_parents_iff\<close> and \<open>graph_children_iff\<close>
  say what they hold, and they are the two facts every later proof uses. The locale
  \<open>causal_index\<close> is the contract of such an index pair.
\<close>

section \<open>Construction\<close>

record CausalGraph =
  known :: "FactId fset"
  vertices :: "FactId fset"
  parents_index :: "(FactId, FactId fset) fmap"
  children_index :: "(FactId, FactId fset) fmap"
  cycle_members :: "FactId fset"

definition graph_parents :: "CausalGraph \<Rightarrow> FactId \<Rightarrow> FactId fset" where
  "graph_parents g i = index_get (parents_index g) i"

definition graph_children :: "CausalGraph \<Rightarrow> FactId \<Rightarrow> FactId fset" where
  "graph_children g i = index_get (children_index g) i"

definition reaches_non_reflexive :: "CausalGraph \<Rightarrow> FactId \<Rightarrow> FactId \<Rightarrow> bool" where
  "reaches_non_reflexive g ancestor descendant =
     search_loop (children_index g) (\<lambda>_. True) descendant {||}
       (sorted_list_of_fset (graph_children g ancestor))"

definition detect_cycle_members :: "CausalGraph \<Rightarrow> FactId fset" where
  "detect_cycle_members g = ffilter (\<lambda>i. reaches_non_reflexive g i i) (known g)"

definition link_parent ::
  "FactId \<Rightarrow> FactId \<Rightarrow> FactId fset \<times> (FactId, FactId fset) fmap \<times> (FactId, FactId fset) fmap \<Rightarrow>
     FactId fset \<times> (FactId, FactId fset) fmap \<times> (FactId, FactId fset) fmap" where
  "link_parent child parent st =
     (case st of (vs, parents, children) \<Rightarrow>
        (finsert parent vs,
         entry_insert child parent (entry_or_default parent parents),
         entry_insert parent child children))"

definition link_fact ::
  "SemanticFact \<Rightarrow> FactId fset \<times> (FactId, FactId fset) fmap \<times> (FactId, FactId fset) fmap \<Rightarrow>
     FactId fset \<times> (FactId, FactId fset) fmap \<times> (FactId, FactId fset) fmap" where
  "link_fact f st = fold (link_parent (fact_id f)) (sorted_list_of_fset (fact_parents f)) st"

definition graph_of :: "FactSet \<Rightarrow> CausalGraph" where
  "graph_of facts =
     (let present = fset_of_list (fact_set_ids facts);
          empty = fmap_of_list (map (\<lambda>i. (i, {||})) (sorted_list_of_fset present));
          (vs, parents, children) = fold link_fact (fact_set_facts facts) (present, empty, empty);
          parents' = fold entry_or_default (sorted_list_of_fset vs) parents;
          children' = fold entry_or_default (sorted_list_of_fset vs) children;
          g = \<lparr>known = present, vertices = vs, parents_index = parents',
               children_index = children', cycle_members = {||}\<rparr>
      in g\<lparr>cycle_members := detect_cycle_members g\<rparr>)"

definition structurally_reaches :: "CausalGraph \<Rightarrow> FactId \<Rightarrow> FactId \<Rightarrow> bool" where
  "structurally_reaches g ancestor descendant =
     (if ancestor |\<notin>| vertices g \<or> descendant |\<notin>| vertices g then False
      else if ancestor = descendant then True
      else reaches_non_reflexive g ancestor descendant)"

definition reverse_dependant_closure :: "CausalGraph \<Rightarrow> FactId list \<Rightarrow> FactId fset" where
  "reverse_dependant_closure g roots =
     closure_loop (children_index g) (\<lambda>child. child |\<in>| known g) {||} roots"

definition dependency_order :: "CausalGraph \<Rightarrow> FactId list option" where
  "dependency_order g =
     (let eligible = known g |-| cycle_members g
      in kahn Some (\<lambda>v. v) (parents_index g) (children_index g) eligible)"

section \<open>What the indexes hold\<close>

text \<open>The nested loops visit the list of declared edges, child first.\<close>

definition declared_edges :: "FactSet \<Rightarrow> (FactId \<times> FactId) list" where
  "declared_edges s =
     concat (map (\<lambda>f. map (Pair (fact_id f)) (sorted_list_of_fset (fact_parents f))) (fact_set_facts s))"

lemma set_declared_edges:
  "(c, p) \<in> set (declared_edges s) \<longleftrightarrow>
     (\<exists>f \<in> set (fact_set_facts s). fact_id f = c \<and> p |\<in>| fact_parents f)"
  by (auto simp: declared_edges_def)

lemma fold_link_fact: "fold link_fact fs st =
    fold (\<lambda>(c, p). link_parent c p)
      (concat (map (\<lambda>f. map (Pair (fact_id f)) (sorted_list_of_fset (fact_parents f))) fs)) st"
proof (induction fs arbitrary: st)
  case Nil
  show ?case by simp
next
  case (Cons f fs)
  have "fold (\<lambda>(c, p). link_parent c p) (map (Pair (fact_id f)) ps) st' =
      fold (link_parent (fact_id f)) ps st'" for ps st'
    by (induction ps arbitrary: st') simp_all
  with Cons.IH show ?case by (simp add: link_fact_def)
qed

lemma fold_link_parent:
  assumes "fold (\<lambda>(c, p). link_parent c p) es (vs, ps, cs) = (vs', ps', cs')"
  shows "fset vs' = fset vs \<union> snd ` set es"
    and "p |\<in>| index_get ps' c \<longleftrightarrow> p |\<in>| index_get ps c \<or> (c, p) \<in> set es"
    and "c |\<in>| index_get cs' p \<longleftrightarrow> c |\<in>| index_get cs p \<or> (c, p) \<in> set es"
  using assms
proof (induction es arbitrary: vs ps cs)
  case Nil
  { case 1 then show ?case by simp }
  { case 2 then show ?case by simp }
  { case 3 then show ?case by simp }
next
  case (Cons e es)
  obtain a b where e: "e = (a, b)" by fastforce
  { case 1
    then show ?case
      using Cons.IH(1) [of "finsert b vs" "entry_insert a b (entry_or_default b ps)" "entry_insert b a cs"]
      by (auto simp: e link_parent_def) }
  { case 2
    then show ?case
      using Cons.IH(2) [of "finsert b vs" "entry_insert a b (entry_or_default b ps)" "entry_insert b a cs"]
      by (auto simp: e link_parent_def split: if_splits) }
  { case 3
    then show ?case
      using Cons.IH(3) [of "finsert b vs" "entry_insert a b (entry_or_default b ps)" "entry_insert b a cs"]
      by (auto simp: e link_parent_def split: if_splits) }
qed

lemma index_get_fold_entry_or_default:
  "index_get (fold entry_or_default ks m) x = index_get m x"
  by (induction ks arbitrary: m) simp_all

lemma graph_of_fields:
  shows graph_known: "fset (known (graph_of s)) = {i. fact_set_contains s i}"
    and graph_vertices: "fset (vertices (graph_of s)) = {i. fact_set_contains s i} \<union> snd ` set (declared_edges s)"
    and graph_parents_declared: "p |\<in>| graph_parents (graph_of s) c \<longleftrightarrow> (c, p) \<in> set (declared_edges s)"
    and graph_children_declared: "c |\<in>| graph_children (graph_of s) p \<longleftrightarrow> (c, p) \<in> set (declared_edges s)"
    and graph_cycles: "cycle_members (graph_of s) = detect_cycle_members (graph_of s)"
proof -
  define present where "present = fset_of_list (fact_set_ids s)"
  define empty :: "(FactId, FactId fset) fmap"
    where "empty = fmap_of_list (map (\<lambda>i. (i, {||})) (sorted_list_of_fset present))"
  obtain vs ps cs where loop: "fold link_fact (fact_set_facts s) (present, empty, empty) = (vs, ps, cs)"
    by (metis prod.exhaust)
  have g: "graph_of s = (let g = \<lparr>known = present, vertices = vs,
      parents_index = fold entry_or_default (sorted_list_of_fset vs) ps,
      children_index = fold entry_or_default (sorted_list_of_fset vs) cs, cycle_members = {||}\<rparr>
      in g\<lparr>cycle_members := detect_cycle_members g\<rparr>)"
    using loop by (simp add: graph_of_def Let_def present_def [symmetric] empty_def [symmetric])
  have pres: "fset present = {i. fact_set_contains s i}"
    by (simp add: present_def fset_of_list.rep_eq set_fact_set_ids)
  have e: "index_get empty x = {||}" for x by (simp add: empty_def index_get_constant)
  have built: "fold (\<lambda>(c, p). link_parent c p) (declared_edges s) (present, empty, empty) = (vs, ps, cs)"
    using loop by (simp add: fold_link_fact declared_edges_def)
  show "fset (known (graph_of s)) = {i. fact_set_contains s i}"
    by (simp add: g Let_def pres)
  show "fset (vertices (graph_of s)) = {i. fact_set_contains s i} \<union> snd ` set (declared_edges s)"
    by (simp add: g Let_def fold_link_parent(1) [OF built] pres)
  show "p |\<in>| graph_parents (graph_of s) c \<longleftrightarrow> (c, p) \<in> set (declared_edges s)"
    by (simp add: g Let_def graph_parents_def index_get_fold_entry_or_default fold_link_parent(2) [OF built] e)
  show "c |\<in>| graph_children (graph_of s) p \<longleftrightarrow> (c, p) \<in> set (declared_edges s)"
    by (simp add: g Let_def graph_children_def index_get_fold_entry_or_default fold_link_parent(3) [OF built] e)
  show "cycle_members (graph_of s) = detect_cycle_members (graph_of s)"
    by (simp add: g Let_def detect_cycle_members_def reaches_non_reflexive_def graph_children_def)
qed

section \<open>The contract of a causal index\<close>

text \<open>
  What the reducer relies on: the two indexes mirror each other, only present facts have parents,
  every endpoint is a vertex, and the recorded cycle members are the detected ones.
\<close>

locale causal_index =
  fixes g :: CausalGraph
  assumes mirror: "c |\<in>| graph_children g p \<longleftrightarrow> p |\<in>| graph_parents g c"
    and child_known: "p |\<in>| graph_parents g c \<Longrightarrow> c |\<in>| known g"
    and known_vertex: "i |\<in>| known g \<Longrightarrow> i |\<in>| vertices g"
    and parent_vertex: "p |\<in>| graph_parents g c \<Longrightarrow> p |\<in>| vertices g"
    and cycles_detected: "cycle_members g = detect_cycle_members g"
begin

abbreviation causal_edge :: "(FactId \<times> FactId) set" where
  "causal_edge \<equiv> {(p, c). p |\<in>| graph_parents g c}"

lemma edges_causal: "edges (children_index g) (\<lambda>_. True) = causal_edge"
  using mirror by (auto simp: edges_def graph_children_def)

lemma reaches_iff: "reaches_non_reflexive g a d \<longleftrightarrow> (a, d) \<in> causal_edge\<^sup>+"
  using search_from_children [of "children_index g" "\<lambda>_. True" d a]
  by (simp add: reaches_non_reflexive_def graph_children_def edges_causal)

lemma trancl_known: "(a, d) \<in> causal_edge\<^sup>+ \<Longrightarrow> d |\<in>| known g"
  by (auto elim: tranclE dest: child_known)

lemma cycle_members_iff: "i |\<in>| cycle_members g \<longleftrightarrow> (i, i) \<in> causal_edge\<^sup>+"
  using trancl_known by (auto simp: cycles_detected detect_cycle_members_def reaches_iff)

lemma structurally_reaches_iff:
  "structurally_reaches g a d \<longleftrightarrow> a |\<in>| vertices g \<and> (a, d) \<in> causal_edge\<^sup>*"
  using trancl_known known_vertex
  by (auto simp: structurally_reaches_def reaches_iff rtrancl_eq_or_trancl)

lemma reverse_dependants_iff:
  "d |\<in>| reverse_dependant_closure g roots \<longleftrightarrow> (\<exists>r \<in> set roots. (r, d) \<in> causal_edge\<^sup>*)"
proof -
  have "edges (children_index g) (\<lambda>c. c |\<in>| known g) = causal_edge"
    using mirror child_known by (auto simp: edges_def graph_children_def)
  then show ?thesis by (simp add: reverse_dependant_closure_def closure_from Image_iff)
qed

lemma induced_acyclic: "acyclic (induced (\<lambda>i. fset (graph_parents g i)) (fset (known g |-| cycle_members g)))"
proof (rule acyclicI, rule allI, rule notI)
  let ?r = "induced (\<lambda>i. fset (graph_parents g i)) (fset (known g |-| cycle_members g))"
  fix i assume loop: "(i, i) \<in> ?r\<^sup>+"
  have "?r \<subseteq> causal_edge" by (auto simp: induced_def)
  then have "i |\<in>| cycle_members g" using loop trancl_mono cycle_members_iff by blast
  moreover have "i |\<notin>| cycle_members g" using loop by (auto elim: tranclE simp: induced_def)
  ultimately show False by simp
qed

end

sublocale causal_index \<subseteq> order: kahn_graph Some "\<lambda>v. v" "parents_index g" "children_index g" "known g |-| cycle_members g"
proof unfold_locales
  show "map_option (\<lambda>v. v) (Some v) = Some v" for v :: FactId by simp
  show "c |\<in>| index_get (children_index g) p \<longleftrightarrow> p |\<in>| index_get (parents_index g) c" for c p
    using mirror [of c p] by (simp add: graph_children_def graph_parents_def)
qed

context causal_index
begin

text \<open>
  The dependency order never underflows a counter, lists every known acyclic fact once, and is
  the greedy order: each position holds the least fact whose eligible parents all stand before.
\<close>

lemma dependency_order_canonical:
  "\<exists>xs. dependency_order g = Some xs \<and> distinct xs \<and> set xs = fset (known g |-| cycle_members g) \<and>
     canonical_order (\<lambda>v. v) (\<lambda>v. fset (graph_parents g v)) (fset (known g |-| cycle_members g)) xs"
proof -
  obtain xs where xs: "dependency_order g = Some xs" and
      co: "canonical_order (\<lambda>v. v) (\<lambda>v. fset (graph_parents g v)) (fset (known g |-| cycle_members g)) xs"
    using order.kahn_canonical
    by (auto simp: dependency_order_def Let_def graph_parents_def canonical_order_Some)
  have "greedy_prefix (\<lambda>v. v) (\<lambda>v. fset (graph_parents g v)) (fset (known g |-| cycle_members g)) xs"
    using co unfolding canonical_order_def by blast
  then have "distinct xs" and "set xs \<subseteq> fset (known g |-| cycle_members g)"
    using greedy_prefix_distinct greedy_prefix_subset by blast+
  then show ?thesis
    using xs co canonical_order_complete [OF co finite_fset induced_acyclic] by blast
qed

end

lemma declared_edges_iff:
  assumes "fact_set_wf s"
  shows "(c, p) \<in> set (declared_edges s) \<longleftrightarrow>
    (\<exists>f. fact_set_get s c = Some f \<and> p |\<in>| fact_parents f)"
proof -
  have "fact_set_get s c = Some f \<longleftrightarrow> f \<in> set (fact_set_facts s) \<and> fact_id f = c" for f
    using fact_set_facts_iff [OF assms, of f] fact_set_get_id [OF assms, of c f] by auto
  then show ?thesis by (auto simp: set_declared_edges)
qed

lemma graph_parents_iff:
  "fact_set_wf s \<Longrightarrow> p |\<in>| graph_parents (graph_of s) c \<longleftrightarrow>
     (\<exists>f. fact_set_get s c = Some f \<and> p |\<in>| fact_parents f)"
  by (simp add: graph_parents_declared declared_edges_iff)

lemma graph_of_causal_index: "fact_set_wf s \<Longrightarrow> causal_index (graph_of s)"
proof unfold_locales
  fix c p
  show "(c |\<in>| graph_children (graph_of s) p) = (p |\<in>| graph_parents (graph_of s) c)"
    by (simp add: graph_of_fields)
next
  fix c p assume "fact_set_wf s" and "p |\<in>| graph_parents (graph_of s) c"
  then have edge: "(c, p) \<in> set (declared_edges s)" and "\<exists>f. fact_set_get s c = Some f"
    by (simp_all add: graph_of_fields declared_edges_iff) blast
  then show "c |\<in>| known (graph_of s)"
    using fact_set_get_contains by (auto simp: graph_known)
  show "p |\<in>| vertices (graph_of s)"
    unfolding graph_vertices using imageI [OF edge, of snd] by simp
next
  fix i assume "i |\<in>| known (graph_of s)"
  then show "i |\<in>| vertices (graph_of s)" by (simp add: graph_of_fields)
next
  show "cycle_members (graph_of s) = detect_cycle_members (graph_of s)" by (rule graph_cycles)
qed

interpretation arrived_graph: causal_index "graph_of (from_facts fs)" for fs
  by (rule graph_of_causal_index) simp


section \<open>Properties\<close>

text \<open>
  The edge relation the indexes stand for: from a declared parent to the uniquely stored fact
  that declares it.
\<close>

definition causal_edges :: "FactSet \<Rightarrow> (FactId \<times> FactId) set" where
  "causal_edges s = {(p, c). \<exists>f. fact_set_get s c = Some f \<and> p |\<in>| fact_parents f}"

lemma causal_edges_graph:
  assumes "fact_set_wf s"
  shows "{(p, c). p |\<in>| graph_parents (graph_of s) c} = causal_edges s"
  using graph_parents_iff [OF assms] by (simp add: causal_edges_def)

lemmas graph_reach = causal_index.reaches_iff [OF graph_of_causal_index]
  causal_index.cycle_members_iff [OF graph_of_causal_index]
  causal_index.structurally_reaches_iff [OF graph_of_causal_index]
  causal_index.reverse_dependants_iff [OF graph_of_causal_index]

text \<open>
  C37. The breadth-first search decides structural reachability: on the graph of any received
  facts it answers true exactly when the two vertices exist and a chain of declared parent
  links leads from the descendant back to the ancestor (the empty chain included).
\<close>

theorem structurally_reaches_exact:
  "structurally_reaches (graph_of (from_facts fs)) a d \<longleftrightarrow>
     a |\<in>| vertices (graph_of (from_facts fs)) \<and> (a, d) \<in> (causal_edges (from_facts fs))\<^sup>*"
  by (simp add: graph_reach causal_edges_graph)

text \<open>
  C38. The cycle members are exactly the facts on a directed cycle of declared parent links, and
  every one of them is a present fact.
\<close>

theorem cycle_members_exact:
  "fset (cycle_members (graph_of (from_facts fs))) =
     {i. fact_set_contains (from_facts fs) i \<and> (i, i) \<in> (causal_edges (from_facts fs))\<^sup>+}"
proof -
  have "i |\<in>| cycle_members (graph_of (from_facts fs)) \<Longrightarrow> fact_set_contains (from_facts fs) i" for i
    using graph_known [of "from_facts fs"]
    by (auto simp: graph_cycles detect_cycle_members_def)
  then show ?thesis by (auto simp: graph_reach causal_edges_graph)
qed

text \<open>
  The reverse-dependant closure of a list of roots is the roots and every fact that depends
  on one of them through declared parent links; the loop terminates on cyclic graphs too.
\<close>

lemma reverse_dependant_closure_exact:
  "fset (reverse_dependant_closure (graph_of (from_facts fs)) roots) =
     (causal_edges (from_facts fs))\<^sup>* `` set roots"
  by (auto simp: graph_reach causal_edges_graph Image_iff)

text \<open>
  C33. The dependency order of received facts is computed without a counter underflow, lists
  every known fact outside the cycles once and nothing else, puts each eligible parent before
  its children, and is the unique such order that always takes the least ready identity.
\<close>

theorem dependency_order_correct:
  "\<exists>xs. dependency_order (graph_of (from_facts fs)) = Some xs \<and> distinct xs \<and>
     set xs = fact_id ` set fs - fset (cycle_members (graph_of (from_facts fs))) \<and>
     causal_edges (from_facts fs) \<inter> set xs \<times> set xs \<subseteq> {(p, c). precedes xs p c} \<and>
     {ys. canonical_order (\<lambda>v. v) (\<lambda>v. {p. (p, v) \<in> causal_edges (from_facts fs)}) (set xs) ys} = {xs}"
proof -
  let ?g = "graph_of (from_facts fs)"
  let ?par = "\<lambda>v. {p. (p, v) \<in> causal_edges (from_facts fs)}"
  obtain xs where xs: "dependency_order ?g = Some xs" "distinct xs"
      and elems: "set xs = fset (known ?g |-| cycle_members ?g)"
      and canon: "canonical_order (\<lambda>v. v) (\<lambda>v. fset (graph_parents ?g v)) (set xs) xs"
    using causal_index.dependency_order_canonical [OF graph_of_causal_index, of "from_facts fs"]
    by auto
  have "(\<lambda>v. fset (graph_parents ?g v)) = ?par"
    using causal_edges_graph [of "from_facts fs"] by (auto simp: causal_edges_def graph_parents_iff)
  with canon have co: "canonical_order (\<lambda>v. v) ?par (set xs) xs" by simp
  then have "greedy_prefix (\<lambda>v. v) ?par (set xs) xs" by (simp add: canonical_order_def)
  then have topo: "precedes xs p c" if "(p, c) \<in> causal_edges (from_facts fs)" "p \<in> set xs" "c \<in> set xs" for p c
    using greedy_prefix_precedes that by fastforce
  have "fset (known ?g) = fact_id ` set fs"
    by (auto simp: graph_known contains_from_facts)
  with elems have "set xs = fact_id ` set fs - fset (cycle_members ?g)" by simp
  moreover have "{ys. canonical_order (\<lambda>v. v) ?par (set xs) ys} = {xs}"
    using co canonical_order_unique [OF _ co inj_on_id2] by blast
  moreover have "causal_edges (from_facts fs) \<inter> set xs \<times> set xs \<subseteq> {(p, c). precedes xs p c}"
    using topo by blast
  ultimately show ?thesis using xs by blast
qed

end
