(* ===== verification/Presentation.thy ===== *)
theory Presentation
  imports Causal_Graph
begin

text \<open>
  The canonical presentation order of \<open>hq-reducer/src/presentation.rs\<close>: the ready key with its
  derived lexicographic order, and the Kahn traversal of a selection of facts that always takes
  the least ready key and rejects unknown, repeated and cyclic selections.

  The ready set of the source holds pairs of a key and an identity. Building such a pair indexes
  the selection map, \<open>selected[fact_id]\<close>, which panics on an absent key: \<open>ready_entry\<close> is \<open>None\<close>
  there. The traversal's outer \<open>None\<close> stands for that panic or for the one of an unsigned counter
  that would go below zero. \<open>Option_ord\<close> orders \<open>Some\<close> values as their contents.
\<close>

section \<open>The ready key\<close>

datatype PresentationFamily = MessageFamily | ActivityFamily

datatype PresentationItemId =
    ItemMessage MessageId
  | ItemCommand CommandId
  | ItemDispatch DispatchId
  | ItemActivity ShortText
  | ItemFact FactId

datatype PresentationPublicId =
    PublicMessage MessageId
  | PublicCommand CommandId
  | PublicDispatch DispatchId

datatype PresentationKey =
  PresentationKey (pk_authored_at: Timestamp) (pk_presentation_occurrence: Timestamp)
    (pk_family: PresentationFamily) (pk_source_installation: InstallationId)
    (pk_source_mailbox: "MailboxId option") (pk_provider: "ProviderId option")
    (pk_session: "ProviderSessionId option") (pk_operation: "OperationId option")
    (pk_item_or_request: "PresentationItemId option") (pk_runtime: "ShortText option")
    (pk_source_sequence: "nat option") (pk_stable_public_id: "PresentationPublicId option")

text \<open>The derived orders compare the variant's position, then the fields from left to right.\<close>

primrec family_rank :: "PresentationFamily \<Rightarrow> nat" where
  "family_rank MessageFamily = 0"
| "family_rank ActivityFamily = 1"

primrec item_rank :: "PresentationItemId \<Rightarrow> nat \<times> 256 word \<times> string" where
  "item_rank (ItemMessage i) = (0, i, [])"
| "item_rank (ItemCommand i) = (1, i, [])"
| "item_rank (ItemDispatch i) = (2, i, [])"
| "item_rank (ItemActivity t) = (3, 0, t)"
| "item_rank (ItemFact i) = (4, i, [])"

primrec public_rank :: "PresentationPublicId \<Rightarrow> nat \<times> 256 word" where
  "public_rank (PublicMessage i) = (0, i)"
| "public_rank (PublicCommand i) = (1, i)"
| "public_rank (PublicDispatch i) = (2, i)"

lemma family_rank_inj: "family_rank a = family_rank b \<Longrightarrow> a = b"
  by (cases a; cases b) simp_all

lemma item_rank_inj: "item_rank a = item_rank b \<Longrightarrow> a = b"
  by (cases a; cases b) simp_all

lemma public_rank_inj: "public_rank a = public_rank b \<Longrightarrow> a = b"
  by (cases a; cases b) simp_all

instantiation PresentationFamily :: linorder
begin
definition less_eq_PresentationFamily :: "PresentationFamily \<Rightarrow> PresentationFamily \<Rightarrow> bool" where
  "a \<le> b \<longleftrightarrow> family_rank a \<le> family_rank b"
definition less_PresentationFamily :: "PresentationFamily \<Rightarrow> PresentationFamily \<Rightarrow> bool" where
  "a < b \<longleftrightarrow> family_rank a < family_rank b"
instance
  by standard (auto simp: less_eq_PresentationFamily_def less_PresentationFamily_def intro: family_rank_inj)
end

instantiation PresentationItemId :: linorder
begin
definition less_eq_PresentationItemId :: "PresentationItemId \<Rightarrow> PresentationItemId \<Rightarrow> bool" where
  "a \<le> b \<longleftrightarrow> item_rank a \<le> item_rank b"
definition less_PresentationItemId :: "PresentationItemId \<Rightarrow> PresentationItemId \<Rightarrow> bool" where
  "a < b \<longleftrightarrow> item_rank a < item_rank b"
instance
  by standard (auto simp: less_eq_PresentationItemId_def less_PresentationItemId_def
      less_le_not_le linear intro: item_rank_inj order.trans)
end

instantiation PresentationPublicId :: linorder
begin
definition less_eq_PresentationPublicId :: "PresentationPublicId \<Rightarrow> PresentationPublicId \<Rightarrow> bool" where
  "a \<le> b \<longleftrightarrow> public_rank a \<le> public_rank b"
definition less_PresentationPublicId :: "PresentationPublicId \<Rightarrow> PresentationPublicId \<Rightarrow> bool" where
  "a < b \<longleftrightarrow> public_rank a < public_rank b"
instance
  by standard (auto simp: less_eq_PresentationPublicId_def less_PresentationPublicId_def
      less_le_not_le linear intro: public_rank_inj order.trans)
end

definition key_rank where
  "key_rank k = (pk_authored_at k, pk_presentation_occurrence k, pk_family k,
     pk_source_installation k, pk_source_mailbox k, pk_provider k, pk_session k, pk_operation k,
     pk_item_or_request k, pk_runtime k, pk_source_sequence k, pk_stable_public_id k)"

lemma key_rank_inj: "key_rank a = key_rank b \<Longrightarrow> a = b"
  by (cases a; cases b) (simp add: key_rank_def)

instantiation PresentationKey :: linorder
begin
definition less_eq_PresentationKey :: "PresentationKey \<Rightarrow> PresentationKey \<Rightarrow> bool" where
  "a \<le> b \<longleftrightarrow> key_rank a \<le> key_rank b"
definition less_PresentationKey :: "PresentationKey \<Rightarrow> PresentationKey \<Rightarrow> bool" where
  "a < b \<longleftrightarrow> key_rank a < key_rank b"
instance
proof
  fix a b c :: PresentationKey
  show "a < b \<longleftrightarrow> a \<le> b \<and> \<not> b \<le> a"
    unfolding less_eq_PresentationKey_def less_PresentationKey_def by (rule less_le_not_le)
  show "a \<le> a" unfolding less_eq_PresentationKey_def by (rule order.refl)
  show "a \<le> b \<Longrightarrow> b \<le> c \<Longrightarrow> a \<le> c"
    unfolding less_eq_PresentationKey_def by (rule order.trans)
  show "a \<le> b \<Longrightarrow> b \<le> a \<Longrightarrow> a = b"
    unfolding less_eq_PresentationKey_def using key_rank_inj order.antisym by blast
  show "a \<le> b \<or> b \<le> a" unfolding less_eq_PresentationKey_def by (rule linear)
qed
end

definition minimal_key :: "Timestamp \<Rightarrow> PresentationFamily \<Rightarrow> PresentationKey" where
  "minimal_key at family =
     PresentationKey at at family 0 None None None None None None None None"

section \<open>The traversal\<close>

record PresentationEntry =
  pe_fact_id :: FactId
  pe_key :: PresentationKey

datatype PresentationError = DuplicateEntry FactId | UnknownFact FactId | CausalCycle

fun select_entries ::
  "CausalGraph \<Rightarrow> PresentationEntry list \<Rightarrow> (FactId, PresentationKey) fmap \<Rightarrow>
     PresentationError + (FactId, PresentationKey) fmap" where
  "select_entries graph [] selected = Ok selected"
| "select_entries graph (entry # rest) selected =
     (if pe_fact_id entry |\<notin>| vertices graph then Err (UnknownFact (pe_fact_id entry))
      else if fmlookup selected (pe_fact_id entry) \<noteq> None then Err (DuplicateEntry (pe_fact_id entry))
      else select_entries graph rest (fmupd (pe_fact_id entry) (pe_key entry) selected))"

definition ready_entry ::
  "(FactId, PresentationKey) fmap \<Rightarrow> FactId \<Rightarrow> (PresentationKey \<times> FactId) option" where
  "ready_entry selected i = map_option (\<lambda>key. (key, i)) (fmlookup selected i)"

definition canonical_presentation_order ::
  "CausalGraph \<Rightarrow> PresentationEntry list \<Rightarrow> (PresentationError + FactId list) option" where
  "canonical_presentation_order graph es =
     (case select_entries graph es fmempty of
        Err e \<Rightarrow> Some (Err e)
      | Ok selected \<Rightarrow>
          map_option
            (\<lambda>ordered. if length ordered = fcard (fmdom selected) then Ok ordered else Err CausalCycle)
            (kahn (ready_entry selected) snd (parents_index graph) (children_index graph)
              (fmdom selected)))"

section \<open>What the traversal decides\<close>

text \<open>The selection map of an accepted list, and the first entry that makes a list unacceptable.\<close>

definition entry_map :: "PresentationEntry list \<Rightarrow> (FactId, PresentationKey) fmap" where
  "entry_map es = fmap_of_list (map (\<lambda>e. (pe_fact_id e, pe_key e)) es)"

definition acceptable :: "CausalGraph \<Rightarrow> PresentationEntry list \<Rightarrow> bool" where
  "acceptable g es \<longleftrightarrow> distinct (map pe_fact_id es) \<and> pe_fact_id ` set es \<subseteq> fset (vertices g)"

definition first_rejection :: "CausalGraph \<Rightarrow> PresentationEntry list \<Rightarrow> PresentationError \<Rightarrow> bool" where
  "first_rejection g es err \<longleftrightarrow>
     (\<exists>before e after. es = before @ e # after \<and> acceptable g before \<and>
        err = (if pe_fact_id e |\<notin>| vertices g then UnknownFact (pe_fact_id e)
               else DuplicateEntry (pe_fact_id e)) \<and>
        \<not> acceptable g (before @ [e]))"

lemma fmdom_entry_map: "fset (fmdom (entry_map es)) = pe_fact_id ` set es"
  by (force simp: entry_map_def fmdom_fmap_of_list fset_of_list.rep_eq)

lemma fmlookup_entry_map:
  "distinct (map pe_fact_id es) \<Longrightarrow> e \<in> set es \<Longrightarrow>
     fmlookup (entry_map es) (pe_fact_id e) = Some (pe_key e)"
  by (auto simp: entry_map_def fmap_of_list.rep_eq comp_def intro!: map_of_is_SomeI)

lemma select_entries_cases:
  "acceptable g before \<Longrightarrow>
     (case select_entries g es (entry_map before) of
        Ok selected \<Rightarrow> acceptable g (before @ es) \<and> selected = entry_map (before @ es)
      | Err err \<Rightarrow> first_rejection g (before @ es) err)"
proof (induction es arbitrary: before)
  case Nil
  then show ?case by simp
next
  case (Cons e es)
  have fresh: "fmlookup (entry_map before) (pe_fact_id e) = None \<longleftrightarrow> pe_fact_id e \<notin> pe_fact_id ` set before"
    using fmdom_entry_map [of before] by (metis fmdom_notD fmdom_notI)
  show ?case
  proof (cases "acceptable g (before @ [e])")
    case True
    then have known: "pe_fact_id e |\<in>| vertices g" and new: "pe_fact_id e \<notin> pe_fact_id ` set before"
      by (auto simp: acceptable_def)
    have "fmupd (pe_fact_id e) (pe_key e) (entry_map before) = entry_map (before @ [e])"
      using new by (intro fmap_ext) (force simp: entry_map_def fmap_of_list.rep_eq map_add_def
          split: option.splits dest: map_of_SomeD)
    with Cons.IH [OF True] known new fresh show ?thesis by (simp split: sum.splits)
  next
    case False
    then have "first_rejection g (before @ e # es)
        (if pe_fact_id e |\<notin>| vertices g then UnknownFact (pe_fact_id e) else DuplicateEntry (pe_fact_id e))"
      unfolding first_rejection_def using Cons.prems by blast
    moreover have "pe_fact_id e |\<notin>| vertices g \<or> pe_fact_id e \<in> pe_fact_id ` set before"
      using False Cons.prems by (auto simp: acceptable_def)
    ultimately show ?thesis using fresh by auto
  qed
qed

lemma ready_kahn_graph:
  assumes "causal_index g"
  shows "kahn_graph (ready_entry selected) snd (parents_index g) (children_index g) (fmdom selected)"
proof -
  from causal_index.mirror [OF assms] have "c |\<in>| graph_children g p \<longleftrightarrow> p |\<in>| graph_parents g c" for c p
    by blast
  then show ?thesis
    by unfold_locales
      (auto simp: ready_entry_def graph_children_def graph_parents_def fmlookup_dom_iff)
qed

interpretation arrived_ready: kahn_graph "ready_entry selected" snd
    "parents_index (graph_of (from_facts fs))" "children_index (graph_of (from_facts fs))" "fmdom selected"
  for fs selected
  by (rule ready_kahn_graph) (simp add: graph_of_causal_index)

text \<open>The traversal in terms of the three outcomes of a selection.\<close>

lemma canonical_presentation_order_cases:
  assumes "causal_index g"
  obtains (rejected) err where "first_rejection g es err"
      "canonical_presentation_order g es = Some (Err err)"
  | (accepted) xs where "acceptable g es"
      "canonical_order (ready_entry (entry_map es)) (\<lambda>v. fset (graph_parents g v)) (pe_fact_id ` set es) xs"
      "canonical_presentation_order g es =
         Some (if acyclic (induced (\<lambda>v. fset (graph_parents g v)) (pe_fact_id ` set es)) then Ok xs
               else Err CausalCycle)"
proof (cases "select_entries g es fmempty")
  case (Inl err)
  then show ?thesis
    using rejected select_entries_cases [of g "[]" es]
    by (simp add: acceptable_def entry_map_def canonical_presentation_order_def)
next
  case (Inr selected)
  then have acc: "acceptable g es" and sel: "selected = entry_map es"
    using select_entries_cases [of g "[]" es] by (simp_all add: acceptable_def entry_map_def)
  let ?k = "kahn (ready_entry selected) snd (parents_index g) (children_index g) (fmdom selected)"
  note kg = ready_kahn_graph [OF assms, of selected]
  have dom: "fset (fmdom selected) = pe_fact_id ` set es" by (simp add: sel fmdom_entry_map)
  obtain xs where xs: "?k = Some xs" and
      co: "canonical_order (ready_entry (entry_map es)) (\<lambda>v. fset (graph_parents g v)) (pe_fact_id ` set es) xs"
    using kahn_graph.kahn_canonical [OF kg]
    by (auto simp: fmdom_entry_map graph_parents_def sel)
  moreover have "length xs = fcard (fmdom selected) \<longleftrightarrow>
      acyclic (induced (\<lambda>v. fset (graph_parents g v)) (pe_fact_id ` set es))"
    using kahn_graph.kahn_complete_iff [OF kg xs] by (simp add: dom graph_parents_def)
  ultimately show ?thesis
    using accepted acc Inr by (simp add: canonical_presentation_order_def)
qed

lemma acceptable_not_rejected: "acceptable g es \<Longrightarrow> \<not> first_rejection g es err"
  by (auto simp: acceptable_def first_rejection_def)

lemma first_rejection_unique:
  assumes "first_rejection g es err" and "first_rejection g es err'"
  shows "err = err'"
proof -
  obtain b e a b' e' a' where dec: "es = b @ e # a" "es = b' @ e' # a'"
    and acc: "acceptable g b" "\<not> acceptable g (b @ [e])" "acceptable g b'" "\<not> acceptable g (b' @ [e'])"
    and err: "err = (if pe_fact_id e |\<notin>| vertices g then UnknownFact (pe_fact_id e) else DuplicateEntry (pe_fact_id e))"
      "err' = (if pe_fact_id e' |\<notin>| vertices g then UnknownFact (pe_fact_id e') else DuplicateEntry (pe_fact_id e'))"
    using assms unfolding first_rejection_def by blast
  have shorter: "\<not> acceptable g y" if "y = x @ [z] @ w" "\<not> acceptable g (x @ [z])" for x y z w
    using that by (auto simp: acceptable_def)
  have "b @ e # a = b' @ e' # a'" using dec by simp
  then have "b = b' \<and> e = e'"
    using acc shorter [of b' b e] shorter [of b b' e']
    by (auto simp: append_eq_append_conv2 Cons_eq_append_conv append_eq_Cons_conv)
  then show ?thesis using err by simp
qed

lemma entry_map_cong:
  assumes "distinct (map pe_fact_id es)" and "distinct (map pe_fact_id es')" and "set es = set es'"
  shows "entry_map es = entry_map es'"
proof (rule fmap_ext)
  let ?kv = "map (\<lambda>e. (pe_fact_id e, pe_key e))"
  have "map_of (?kv es) = map_of (?kv es')"
    using map_of_inject_set [of "?kv es" "?kv es'"] assms by (simp add: comp_def)
  then show "fmlookup (entry_map es) i = fmlookup (entry_map es') i" for i
    by (simp add: entry_map_def fmap_of_list.rep_eq)
qed

lemma canonical_presentation_order_empty: "canonical_presentation_order g [] = Some (Ok [])"
proof -
  have "kahn (ready_entry fmempty) snd (parents_index g) (children_index g) {||} = Some []"
  proof -
    have none: "ffilter P {||} = {||}" for P :: "FactId \<Rightarrow> bool" by auto
    show ?thesis
      unfolding kahn_def kahn_degrees_def kahn_ready_def Let_def
      by (simp add: none, subst kahn_loop.simps) (simp add: pop_first_def)
  qed
  then show ?thesis by (simp add: canonical_presentation_order_def)
qed

section \<open>Properties\<close>

text \<open>The declared edges between selected facts.\<close>

definition selected_edges :: "FactSet \<Rightarrow> PresentationEntry list \<Rightarrow> (FactId \<times> FactId) set" where
  "selected_edges s es = causal_edges s \<inter> pe_fact_id ` set es \<times> pe_fact_id ` set es"

lemma induced_selected:
  "induced (\<lambda>v. {p. (p, v) \<in> causal_edges s}) (pe_fact_id ` set es) = selected_edges s es"
  unfolding induced_def selected_edges_def by blast

lemma graph_parents_edges:
  assumes "fact_set_wf s"
  shows "(\<lambda>v. fset (graph_parents (graph_of s) v)) = (\<lambda>v. {p. (p, v) \<in> causal_edges s})"
  using causal_edges_graph [OF assms] by blast

lemma ready_entry_inj: "inj_on (ready_entry (entry_map es)) (pe_fact_id ` set es)"
  unfolding fmdom_entry_map [symmetric] by (auto simp: inj_on_def ready_entry_def)

text \<open>
  C34. The presentation traversal succeeds exactly on a selection of distinct graph vertices
  without a causal cycle among them, and then returns the canonical order: a permutation of
  the selection in which each position holds the fact with the least key (ties by identity)
  among those whose selected parents have all been placed. It neither underflows a counter nor
  looks up the key of a fact that was not selected.
\<close>

theorem canonical_presentation_order_Ok_iff:
  "canonical_presentation_order (graph_of (from_facts fs)) es = Some (Ok xs) \<longleftrightarrow>
     distinct (map pe_fact_id es) \<and>
     pe_fact_id ` set es \<subseteq> fset (vertices (graph_of (from_facts fs))) \<and>
     acyclic (selected_edges (from_facts fs) es) \<and>
     canonical_order (ready_entry (entry_map es)) (\<lambda>v. {p. (p, v) \<in> causal_edges (from_facts fs)})
       (pe_fact_id ` set es) xs"
proof (cases rule: canonical_presentation_order_cases [OF graph_of_causal_index [OF fact_set_wf_from_facts], of fs es])
  case (1 err)
  then show ?thesis using acceptable_not_rejected by (auto simp: acceptable_def)
next
  case (2 ys)
  then show ?thesis
    using canonical_order_unique [OF _ _ ready_entry_inj]
    by (auto simp: acceptable_def induced_selected graph_parents_edges)
qed

text \<open>
  C39. The presentation traversal fails with \<open>UnknownFact\<close> or \<open>DuplicateEntry\<close> for the first entry
  that is not a vertex or repeats an earlier identity, and with \<open>CausalCycle\<close> exactly when all
  entries are distinct vertices but their declared edges contain a cycle.
\<close>

theorem canonical_presentation_order_Err_iff:
  "canonical_presentation_order (graph_of (from_facts fs)) es = Some (Err err) \<longleftrightarrow>
     first_rejection (graph_of (from_facts fs)) es err \<or>
     err = CausalCycle \<and> acceptable (graph_of (from_facts fs)) es \<and>
       \<not> acyclic (selected_edges (from_facts fs) es)"
proof (cases rule: canonical_presentation_order_cases [OF graph_of_causal_index [OF fact_set_wf_from_facts], of fs es])
  case (1 e)
  then show ?thesis using first_rejection_unique acceptable_not_rejected by auto
next
  case (2 ys)
  then show ?thesis
    using acceptable_not_rejected by (auto simp: induced_selected graph_parents_edges)
qed

text \<open>
  The order does not depend on how the selection is listed: permuting the entries of an
  accepted selection gives the same sequence of facts.
\<close>

lemma canonical_presentation_order_permutation:
  assumes ok: "canonical_presentation_order (graph_of (from_facts fs)) es = Some (Ok xs)"
    and perm: "mset es = mset es'"
  shows "canonical_presentation_order (graph_of (from_facts fs)) es' = Some (Ok xs)"
proof -
  let ?g = "graph_of (from_facts fs)"
  note ix = graph_of_causal_index [OF fact_set_wf_from_facts, of fs]
  have sets: "set es = set es'" using perm by (rule mset_eq_setD)
  have acc: "acceptable ?g es" using ok by (cases rule: canonical_presentation_order_cases [OF ix, of es]) auto
  then have acc': "acceptable ?g es'" using perm sets unfolding acceptable_def
    by (metis distinct_map mset_eq_imp_distinct_iff)
  have keys: "entry_map es' = entry_map es"
    using acc acc' entry_map_cong [OF _ _ sets [symmetric]] by (simp add: acceptable_def)
  let ?par = "\<lambda>v. fset (graph_parents ?g v)" and ?S = "pe_fact_id ` set es"
  obtain ys where ys: "canonical_order (ready_entry (entry_map es)) ?par ?S ys"
      "canonical_presentation_order ?g es = Some (if acyclic (induced ?par ?S) then Ok ys else Err CausalCycle)"
    using canonical_presentation_order_cases [OF ix, of es] acceptable_not_rejected [OF acc] by metis
  obtain zs where zs: "canonical_order (ready_entry (entry_map es)) ?par ?S zs"
      "canonical_presentation_order ?g es' = Some (if acyclic (induced ?par ?S) then Ok zs else Err CausalCycle)"
    using canonical_presentation_order_cases [OF ix, of es'] acceptable_not_rejected [OF acc']
    unfolding keys sets by metis
  have "ys = zs" using canonical_order_unique [OF ys(1) zs(1) ready_entry_inj] .
  then show ?thesis using ok ys(2) zs(2) by (simp split: if_splits)
qed

end
