(* ===== verification/Decisions.thy ===== *)
theory Decisions
  imports Presentation
begin

text \<open>
  Decisions and their fixed point: \<open>hq-reducer/src/decision.rs\<close> and, of \<open>reducer.rs\<close>, the
  reduction context, \<open>structural_decision\<close>, \<open>unresolved_decision\<close>, \<open>domain_decision\<close>,
  \<open>stabilize_decisions\<close> and \<open>usably_reaches\<close>.

  A domain policy (the trait \<open>DomainReducer\<close>) is a record of its functions. The stabilising loop
  runs at most \<open>2 * n + 2\<close> rounds for \<open>n\<close> decisions, computed with the saturating operations
  of a 64-bit \<open>usize\<close>; running out of rounds is the error \<open>NonConvergentDomainDecisions\<close>.
\<close>

section \<open>Decisions\<close>

datatype DecisionStatus = Projected | Unresolved | Unauthorized | Conflicted | Invalid | Unsupported

datatype 'r DecisionReason = IdentityCollision | CausalCycleReason | DomainReason 'r

datatype 'r DomainDecision =
    DomainProjected
  | DomainUnauthorized 'r "AuthorityRole fset"
  | DomainConflicted 'r "FactId fset"
  | DomainInvalid 'r
  | DomainUnsupported 'r

record 'r FactDecision =
  fd_status :: DecisionStatus
  fd_reason :: "'r DecisionReason option"
  fd_missing_dependencies :: "FactId fset"
  fd_unusable_dependencies :: "(FactId, DecisionStatus) fmap"
  fd_failed_authorities :: "AuthorityRole fset"
  fd_conflict_participants :: "FactId fset"
  fd_reverse_dependants :: "FactId fset"

type_synonym 'r Decisions = "(FactId, 'r FactDecision) fmap"

record 'r ReductionContext =
  ctx_facts :: FactSet
  ctx_graph :: CausalGraph
  ctx_decisions :: "'r Decisions"

definition usable :: "'r Decisions \<Rightarrow> FactId \<Rightarrow> bool" where
  "usable decisions i \<longleftrightarrow>
     (case fmlookup decisions i of Some d \<Rightarrow> fd_status d = Projected | None \<Rightarrow> False)"

definition is_projected :: "'r ReductionContext \<Rightarrow> FactId \<Rightarrow> bool" where
  "is_projected ctx i \<longleftrightarrow> usable (ctx_decisions ctx) i"

definition usably_reaches :: "CausalGraph \<Rightarrow> 'r Decisions \<Rightarrow> FactId \<Rightarrow> FactId \<Rightarrow> bool" where
  "usably_reaches graph decisions ancestor descendant =
     (if \<not> usable decisions ancestor \<or> \<not> usable decisions descendant then False
      else if ancestor = descendant then True
      else search_loop (children_index graph) (usable decisions) descendant {||}
             (filter (usable decisions) (sorted_list_of_fset (graph_children graph ancestor))))"

definition context_usably_reaches :: "'r ReductionContext \<Rightarrow> FactId \<Rightarrow> FactId \<Rightarrow> bool" where
  "context_usably_reaches ctx = usably_reaches (ctx_graph ctx) (ctx_decisions ctx)"

section \<open>Domain policies\<close>

record ('k, 'v) ProjectionContribution =
  pc_key :: 'k
  pc_value :: 'v
  pc_direct_support :: "FactId fset"

datatype 'r ConflictReason = CollisionConflict | DomainConflict 'r

datatype 'r ConflictObservation =
  ConflictObservation (co_reason: "'r ConflictReason") (co_participants: "FactId fset")

record ('a, 'k, 'v, 'r) DomainReducer =
  classify :: "SemanticFact \<Rightarrow> 'r ReductionContext \<Rightarrow> 'r DomainDecision"
  aggregate_keys :: "SemanticFact \<Rightarrow> 'r ReductionContext \<Rightarrow> 'a list"
  domain_projections :: "'r ReductionContext \<Rightarrow> ('k, 'v) ProjectionContribution list"
  domain_conflicts :: "'r ReductionContext \<Rightarrow> 'r ConflictObservation list"
  presentation_entries :: "'r ReductionContext \<Rightarrow> PresentationEntry list"

datatype ReduceError =
    NonConvergentDomainDecisions
  | ProjectionValueConflict
  | EmptyProjectionSupport
  | InvalidProjectionSupport FactId
  | InvalidPresentationFact FactId
  | PresentationFailure PresentationError

section \<open>Decision rules\<close>

definition unresolved_decision ::
  "FactId fset \<Rightarrow> (FactId, DecisionStatus) fmap \<Rightarrow> FactId fset \<Rightarrow> 'r FactDecision" where
  "unresolved_decision missing unusables dependants =
     \<lparr>fd_status = Unresolved, fd_reason = None, fd_missing_dependencies = missing,
      fd_unusable_dependencies = unusables, fd_failed_authorities = {||},
      fd_conflict_participants = {||}, fd_reverse_dependants = dependants\<rparr>"

definition structural_decision :: "FactSet \<Rightarrow> CausalGraph \<Rightarrow> FactId \<Rightarrow> 'r FactDecision" where
  "structural_decision facts graph i =
     (let dependants = graph_children graph i in
      if is_collision facts i then
        \<lparr>fd_status = Conflicted, fd_reason = Some IdentityCollision, fd_missing_dependencies = {||},
         fd_unusable_dependencies = fmempty, fd_failed_authorities = {||},
         fd_conflict_participants = {|i|}, fd_reverse_dependants = dependants\<rparr>
      else if i |\<in>| cycle_members graph then
        \<lparr>fd_status = Invalid, fd_reason = Some CausalCycleReason, fd_missing_dependencies = {||},
         fd_unusable_dependencies = fmempty, fd_failed_authorities = {||},
         fd_conflict_participants = {||}, fd_reverse_dependants = dependants\<rparr>
      else
        (let missing = ffilter (\<lambda>p. \<not> fact_set_contains facts p) (graph_parents graph i) in
         if missing = {||} then
           \<lparr>fd_status = Projected, fd_reason = None, fd_missing_dependencies = {||},
            fd_unusable_dependencies = fmempty, fd_failed_authorities = {||},
            fd_conflict_participants = {||}, fd_reverse_dependants = dependants\<rparr>
         else unresolved_decision missing fmempty dependants))"

fun domain_outcome ::
  "'r DomainDecision \<Rightarrow> DecisionStatus \<times> 'r DecisionReason option \<times> AuthorityRole fset \<times> FactId fset" where
  "domain_outcome DomainProjected = (Projected, None, {||}, {||})"
| "domain_outcome (DomainUnauthorized r failed) = (Unauthorized, Some (DomainReason r), failed, {||})"
| "domain_outcome (DomainConflicted r participants) = (Conflicted, Some (DomainReason r), {||}, participants)"
| "domain_outcome (DomainInvalid r) = (Invalid, Some (DomainReason r), {||}, {||})"
| "domain_outcome (DomainUnsupported r) = (Unsupported, Some (DomainReason r), {||}, {||})"

definition domain_decision :: "'r DomainDecision \<Rightarrow> FactId fset \<Rightarrow> 'r FactDecision" where
  "domain_decision decision dependants =
     (case domain_outcome decision of (outcome, why, failed, participants) \<Rightarrow>
        \<lparr>fd_status = outcome, fd_reason = why, fd_missing_dependencies = {||},
         fd_unusable_dependencies = fmempty, fd_failed_authorities = failed,
         fd_conflict_participants = participants, fd_reverse_dependants = dependants\<rparr>)"

definition unusable_parents :: "CausalGraph \<Rightarrow> 'r Decisions \<Rightarrow> FactId \<Rightarrow> (FactId, DecisionStatus) fmap" where
  "unusable_parents graph decisions i =
     fmap_of_list (List.map_filter
       (\<lambda>p. case fmlookup decisions p of
              Some d \<Rightarrow> if fd_status d \<noteq> Projected then Some (p, fd_status d) else None
            | None \<Rightarrow> None)
       (sorted_list_of_fset (graph_parents graph i)))"

section \<open>Stabilisation\<close>

definition decide ::
  "FactSet \<Rightarrow> CausalGraph \<Rightarrow> ('a, 'k, 'v, 'r) DomainReducer \<Rightarrow> 'r Decisions \<Rightarrow> FactId \<Rightarrow>
     ReduceError + 'r FactDecision" where
  "decide facts graph domain decisions i =
     (let structural = structural_decision facts graph i in
      if fd_status structural = Projected then
        (let unusables = unusable_parents graph decisions i in
         if unusables = fmempty then
           and_then (ok_or NonConvergentDomainDecisions (fact_set_get facts i))
             (\<lambda>f. Ok (domain_decision
                (classify domain f \<lparr>ctx_facts = facts, ctx_graph = graph, ctx_decisions = decisions\<rparr>)
                (graph_children graph i)))
         else Ok (unresolved_decision {||} unusables (graph_children graph i)))
      else Ok structural)"

fun decide_all ::
  "FactSet \<Rightarrow> CausalGraph \<Rightarrow> ('a, 'k, 'v, 'r) DomainReducer \<Rightarrow> 'r Decisions \<Rightarrow> FactId list \<Rightarrow>
     'r Decisions \<Rightarrow> ReduceError + 'r Decisions" where
  "decide_all facts graph domain decisions [] next = Ok next"
| "decide_all facts graph domain decisions (i # rest) next =
     and_then (decide facts graph domain decisions i)
       (\<lambda>d. decide_all facts graph domain decisions rest (fmupd i d next))"

fun stabilize_rounds ::
  "FactSet \<Rightarrow> CausalGraph \<Rightarrow> ('a, 'k, 'v, 'r) DomainReducer \<Rightarrow> nat \<Rightarrow> 'r Decisions \<Rightarrow>
     ReduceError + 'r Decisions" where
  "stabilize_rounds facts graph domain 0 decisions = Err NonConvergentDomainDecisions"
| "stabilize_rounds facts graph domain (Suc rounds) decisions =
     and_then (decide_all facts graph domain decisions (fact_set_ids facts) fmempty)
       (\<lambda>next. if next = decisions then Ok next
               else stabilize_rounds facts graph domain rounds next)"

definition saturating_usize :: "int \<Rightarrow> int" where
  "saturating_usize n = min n (2 ^ 64 - 1)"

definition maximum_rounds :: "nat \<Rightarrow> nat" where
  "maximum_rounds n = nat (saturating_usize (saturating_usize (int n * 2) + 2))"

definition initial_decisions :: "FactSet \<Rightarrow> CausalGraph \<Rightarrow> 'r Decisions" where
  "initial_decisions facts graph =
     fmap_of_list (map (\<lambda>i. (i, structural_decision facts graph i)) (fact_set_ids facts))"

definition stabilize_decisions ::
  "FactSet \<Rightarrow> CausalGraph \<Rightarrow> ('a, 'k, 'v, 'r) DomainReducer \<Rightarrow> ReduceError + 'r Decisions" where
  "stabilize_decisions facts graph domain =
     (let decisions = initial_decisions facts graph
      in stabilize_rounds facts graph domain (maximum_rounds (fcard (fmdom decisions))) decisions)"

section \<open>One round\<close>

text \<open>
  The decision of a present identity, and the map one round computes. The \<open>ok_or\<close> of the source
  cannot fail here: a structurally projected identity is no collision.
\<close>

definition verdict ::
  "FactSet \<Rightarrow> CausalGraph \<Rightarrow> ('a, 'k, 'v, 'r) DomainReducer \<Rightarrow> 'r Decisions \<Rightarrow> FactId \<Rightarrow> 'r FactDecision" where
  "verdict facts graph domain ds i =
     (let structural = structural_decision facts graph i; unusables = unusable_parents graph ds i in
      if fd_status structural \<noteq> Projected then structural
      else if unusables \<noteq> fmempty then unresolved_decision {||} unusables (graph_children graph i)
      else domain_decision
        (classify domain (the (fact_set_get facts i))
          \<lparr>ctx_facts = facts, ctx_graph = graph, ctx_decisions = ds\<rparr>)
        (graph_children graph i))"

definition round_of ::
  "FactSet \<Rightarrow> CausalGraph \<Rightarrow> ('a, 'k, 'v, 'r) DomainReducer \<Rightarrow> 'r Decisions \<Rightarrow> 'r Decisions" where
  "round_of facts graph domain ds =
     fmap_of_list (map (\<lambda>i. (i, verdict facts graph domain ds i)) (fact_set_ids facts))"

lemma structural_Projected_iff:
  "fd_status (structural_decision facts graph i) = Projected \<longleftrightarrow>
     \<not> is_collision facts i \<and> i |\<notin>| cycle_members graph \<and>
     (\<forall>p. p |\<in>| graph_parents graph i \<longrightarrow> fact_set_contains facts p)"
  by (auto simp: structural_decision_def unresolved_decision_def Let_def split: if_splits)

lemma domain_decision_Projected_iff [simp]:
  "fd_status (domain_decision d deps) = Projected \<longleftrightarrow> d = DomainProjected"
  by (cases d) (simp_all add: domain_decision_def)

lemma unresolved_status [simp]: "fd_status (unresolved_decision m u r) = Unresolved"
  by (simp add: unresolved_decision_def)

lemma fmlookup_unusable_parents:
  "fmlookup (unusable_parents graph ds i) p =
     (if p |\<in>| graph_parents graph i
      then (case fmlookup ds p of
              Some d \<Rightarrow> if fd_status d \<noteq> Projected then Some (fd_status d) else None
            | None \<Rightarrow> None)
      else None)"
proof -
  let ?f = "\<lambda>p. case fmlookup ds p of
      Some d \<Rightarrow> if fd_status d \<noteq> Projected then Some (p, fd_status d) else None | None \<Rightarrow> None"
  have "map_of (List.map_filter ?f xs) p =
      (if p \<in> set xs then map_option snd (?f p) else None)" for xs
    by (induction xs) (auto simp: map_filter_simps split: option.splits)
  then show ?thesis
    by (simp add: unusable_parents_def fmap_of_list.rep_eq split: option.splits)
qed

lemma unusable_parents_empty_iff:
  "unusable_parents graph ds i = fmempty \<longleftrightarrow>
     (\<forall>p. p |\<in>| graph_parents graph i \<longrightarrow> fmlookup ds p \<noteq> None \<longrightarrow> usable ds p)"
proof -
  have "unusable_parents graph ds i = fmempty \<longleftrightarrow> (\<forall>p. fmlookup (unusable_parents graph ds i) p = None)"
    by (metis fmap_ext fmempty_lookup)
  then show ?thesis by (auto simp: fmlookup_unusable_parents usable_def split: option.splits)
qed

lemma fmdom_unusable_parents:
  "fmdom' (unusable_parents graph ds i) =
     {p. p |\<in>| graph_parents graph i \<and> fmlookup ds p \<noteq> None \<and> \<not> usable ds p}"
  by (auto simp: fmlookup_dom'_iff fmlookup_unusable_parents usable_def split: option.splits if_splits)

lemma decide_known:
  assumes "fact_set_contains facts i"
  shows "decide facts graph domain ds i = Ok (verdict facts graph domain ds i)"
proof (cases "is_collision facts i")
  case True
  then show ?thesis by (simp add: decide_def verdict_def Let_def structural_Projected_iff)
next
  case False
  then obtain f where "fact_set_get facts i = Some f"
    using known_identity_cases assms by blast
  then show ?thesis by (simp add: decide_def verdict_def Let_def)
qed

lemma decide_all_known:
  "list_all (fact_set_contains facts) ids \<Longrightarrow>
     \<exists>r. decide_all facts graph domain ds ids next = Ok r \<and>
       (\<forall>i. fmlookup r i = (if i \<in> set ids then Some (verdict facts graph domain ds i) else fmlookup next i))"
proof (induction ids arbitrary: "next")
  case Nil
  show ?case by simp
next
  case (Cons a ids)
  then obtain r where
    "decide_all facts graph domain ds ids (fmupd a (verdict facts graph domain ds a) next) = Ok r"
    "\<And>i. fmlookup r i = (if i \<in> set ids then Some (verdict facts graph domain ds i)
        else fmlookup (fmupd a (verdict facts graph domain ds a) next) i)"
    by (metis list.pred_inject(2))
  then show ?case using Cons.prems by (intro exI [of _ r]) (simp add: decide_known)
qed

lemma fmlookup_round:
  "fmlookup (round_of facts graph domain ds) i =
     (if fact_set_contains facts i then Some (verdict facts graph domain ds i) else None)"
  using set_fact_set_ids [of facts]
  by (auto simp: round_of_def fmap_of_list.rep_eq map_of_map_restrict restrict_map_def)

lemma decide_all_round:
  "decide_all facts graph domain ds (fact_set_ids facts) fmempty = Ok (round_of facts graph domain ds)"
proof -
  have "list_all (fact_set_contains facts) (fact_set_ids facts)"
    by (simp add: list_all_iff set_fact_set_ids)
  from decide_all_known [OF this, of graph domain ds fmempty] obtain r
    where r: "decide_all facts graph domain ds (fact_set_ids facts) fmempty = Ok r"
      and look: "\<And>i. fmlookup r i =
        (if i \<in> set (fact_set_ids facts) then Some (verdict facts graph domain ds i) else None)"
    by auto
  have "r = round_of facts graph domain ds"
    by (rule fmap_ext) (simp add: look fmlookup_round set_fact_set_ids)
  with r show ?thesis by simp
qed

section \<open>The rounds\<close>

lemma stabilize_rounds_fixed:
  "stabilize_rounds facts graph domain n ds = Ok r \<Longrightarrow> round_of facts graph domain r = r"
  by (induction n arbitrary: ds) (auto simp: decide_all_round split: if_splits)

lemma stabilize_rounds_converges:
  assumes "k < n"
    and "round_of facts graph domain ((round_of facts graph domain ^^ k) ds) = (round_of facts graph domain ^^ k) ds"
  shows "stabilize_rounds facts graph domain n ds = Ok ((round_of facts graph domain ^^ k) ds)"
  using assms
proof (induction n arbitrary: k ds)
  case 0
  then show ?case by simp
next
  case (Suc n)
  let ?r = "round_of facts graph domain"
  show ?case
  proof (cases "?r ds = ds")
    case True
    then have "(?r ^^ k) ds = ds" by (induction k) simp_all
    then show ?thesis using True by (simp add: decide_all_round)
  next
    case False
    then obtain k' where k: "k = Suc k'" using Suc.prems(2) by (cases k) auto
    then have swap: "(?r ^^ k) ds = (?r ^^ k') (?r ds)" by (simp add: funpow_swap1)
    have "stabilize_rounds facts graph domain n (?r ds) = Ok ((?r ^^ k') (?r ds))"
      using Suc.IH [of k' "?r ds"] Suc.prems k swap by simp
    then show ?thesis using False swap by (simp add: decide_all_round)
  qed
qed

lemma stabilize_decisions_fixed:
  "stabilize_decisions facts graph domain = Ok ds \<Longrightarrow> round_of facts graph domain ds = ds"
  by (auto simp: stabilize_decisions_def Let_def intro: stabilize_rounds_fixed)

lemma stabilize_decisions_Err:
  assumes "stabilize_decisions facts graph domain = Err e"
  shows "e = NonConvergentDomainDecisions"
proof -
  have "stabilize_rounds facts graph domain n ds = Err e \<Longrightarrow> e = NonConvergentDomainDecisions" for n ds
    by (induction n arbitrary: ds) (auto simp: decide_all_round split: if_splits)
  then show ?thesis using assms by (auto simp: stabilize_decisions_def Let_def)
qed

end
