(* ===== verification/Stabilisation.thy ===== *)
theory Stabilisation
  imports Decisions
begin

text \<open>
  What a stable set of decisions means. A stable decision map is a fixed point of the round
  function; it projects a fact exactly when the fact is unique, lies on no cycle, has only
  projected parents and is projected by the domain policy.

  Two contracts carry the later proofs. \<open>usable_order\<close> says that reachability through projected
  facts is a partial order; it holds after every round, because a round never projects a member
  of a cycle. \<open>ancestor_local\<close> is the contract under which the loop is sure to converge within its
  rounds: the policy reads the current decisions of proper ancestors only.
\<close>

section \<open>Fixed points\<close>

lemma round_usable_iff:
  assumes wf: "fact_set_wf s"
  shows "usable (round_of s (graph_of s) domain ds) i \<longleftrightarrow>
    (\<exists>f. fact_set_get s i = Some f \<and> i |\<notin>| cycle_members (graph_of s) \<and>
       (\<forall>p. p |\<in>| fact_parents f \<longrightarrow> fact_set_contains s p \<and> (fmlookup ds p \<noteq> None \<longrightarrow> usable ds p)) \<and>
       classify domain f \<lparr>ctx_facts = s, ctx_graph = graph_of s, ctx_decisions = ds\<rparr> = DomainProjected)"
proof (cases "fact_set_contains s i")
  case False
  then show ?thesis
    using fact_set_get_contains [of s i] by (auto simp: usable_def fmlookup_round)
next
  case True
  then show ?thesis
  proof (cases rule: known_identity_cases)
    case collision
    then show ?thesis
      using True by (simp add: usable_def fmlookup_round verdict_def structural_Projected_iff Let_def)
  next
    case (unique f)
    have "p |\<in>| graph_parents (graph_of s) i \<longleftrightarrow> p |\<in>| fact_parents f" for p
      using unique(1) by (simp add: graph_parents_iff [OF wf])
    then show ?thesis
      using True unique
      by (auto simp: usable_def [of "round_of s (graph_of s) domain ds"] fmlookup_round verdict_def
          structural_Projected_iff unusable_parents_empty_iff Let_def)
  qed
qed

lemma stable_usable_iff:
  assumes wf: "fact_set_wf s" and fixed: "round_of s (graph_of s) domain ds = ds"
  shows "usable ds i \<longleftrightarrow>
    (\<exists>f. fact_set_get s i = Some f \<and> i |\<notin>| cycle_members (graph_of s) \<and>
       (\<forall>p. p |\<in>| fact_parents f \<longrightarrow> usable ds p) \<and>
       classify domain f \<lparr>ctx_facts = s, ctx_graph = graph_of s, ctx_decisions = ds\<rparr> = DomainProjected)"
proof -
  have look: "fmlookup ds p \<noteq> None \<longleftrightarrow> fact_set_contains s p" for p
    using fmlookup_round [of s "graph_of s" domain ds p] fixed by simp
  have "usable ds p \<Longrightarrow> fact_set_contains s p" for p
    using look [of p] by (auto simp: usable_def split: option.splits)
  then show ?thesis
    using round_usable_iff [OF wf, of domain ds i] look unfolding fixed by blast
qed

lemma usable_acyclic:
  assumes "fact_set_wf s"
  shows "usable (round_of s (graph_of s) domain ds) i \<Longrightarrow> i |\<notin>| cycle_members (graph_of s)"
  using round_usable_iff [OF assms, of domain ds i] by blast

section \<open>Usable reachability\<close>

text \<open>Causal edges between identities that satisfy a guard, and the search they bound.\<close>

definition guarded_edges :: "CausalGraph \<Rightarrow> (FactId \<Rightarrow> bool) \<Rightarrow> (FactId \<times> FactId) set" where
  "guarded_edges g ok = {(p, c). p |\<in>| graph_parents g c \<and> ok p \<and> ok c}"

abbreviation usable_edges :: "CausalGraph \<Rightarrow> 'r Decisions \<Rightarrow> (FactId \<times> FactId) set" where
  "usable_edges g ds \<equiv> guarded_edges g (usable ds)"

lemma guarded_search_iff:
  assumes "causal_index g"
  shows "(if \<not> ok a \<or> \<not> ok d then False
          else if a = d then True
          else search_loop (children_index g) ok d {||} (filter ok (sorted_list_of_fset (graph_children g a))))
     \<longleftrightarrow> ok a \<and> (a, d) \<in> (guarded_edges g ok)\<^sup>*"
proof (cases "ok a")
  case True
  let ?e = "edges (children_index g) ok"
  have e: "(p, c) \<in> ?e \<longleftrightarrow> p |\<in>| graph_parents g c \<and> ok c" for p c
    using causal_index.mirror [OF assms, of c p] by (simp add: graph_children_def)
  have "(a, x) \<in> ?e\<^sup>* \<Longrightarrow> ok x \<and> (a, x) \<in> (guarded_edges g ok)\<^sup>*" for x
  proof (induction rule: rtrancl_induct)
    case base
    show ?case using True by simp
  next
    case (step y z)
    then have "(y, z) \<in> guarded_edges g ok" using e by (simp add: guarded_edges_def)
    with step show ?case by (auto intro: rtrancl_into_rtrancl)
  qed
  moreover have "guarded_edges g ok \<subseteq> ?e" unfolding guarded_edges_def using e by blast
  then have "(a, x) \<in> (guarded_edges g ok)\<^sup>* \<Longrightarrow> (a, x) \<in> ?e\<^sup>*" for x
    using rtrancl_mono by blast
  ultimately have path: "(a, d) \<in> ?e\<^sup>* \<longleftrightarrow> ok d \<and> (a, d) \<in> (guarded_edges g ok)\<^sup>*" by blast
  have "ok d" if "(a, d) \<in> (guarded_edges g ok)\<^sup>*"
    using that True by (cases rule: rtranclE) (auto simp: guarded_edges_def)
  then show ?thesis
    using True path search_from_children [of "children_index g" ok d a]
    by (auto simp: graph_children_def rtrancl_eq_or_trancl)
qed simp

lemma usably_reaches_iff:
  assumes "causal_index g"
  shows "usably_reaches g ds a d \<longleftrightarrow> usable ds a \<and> (a, d) \<in> (usable_edges g ds)\<^sup>*"
  unfolding usably_reaches_def by (rule guarded_search_iff [OF assms])

lemma guarded_edges_mono: "(\<And>i. ok i \<Longrightarrow> ok' i) \<Longrightarrow> guarded_edges g ok \<subseteq> guarded_edges g ok'"
  by (auto simp: guarded_edges_def)

text \<open>Where the guarded identities are closed under parents, every path to one of them is guarded.\<close>

lemma guarded_path_closed:
  assumes closed: "\<And>p c. ok c \<Longrightarrow> p |\<in>| graph_parents g c \<Longrightarrow> ok p"
    and "(a, d) \<in> {(p, c). p |\<in>| graph_parents g c}\<^sup>*" and "ok d"
  shows "ok a \<and> (a, d) \<in> (guarded_edges g ok)\<^sup>*"
  using assms(2,3)
proof (induction rule: converse_rtrancl_induct)
  case (step y z)
  then have "ok z" "y |\<in>| graph_parents g z" by auto
  with closed step show ?case by (auto simp: guarded_edges_def intro: converse_rtrancl_into_rtrancl)
qed simp

lemma guarded_path_structural: "(a, d) \<in> (guarded_edges g ok)\<^sup>* \<Longrightarrow> (a, d) \<in> {(p, c). p |\<in>| graph_parents g c}\<^sup>*"
  by (rule rev_subsetD [OF _ rtrancl_mono]) (auto simp: guarded_edges_def)

text \<open>The contract the frontiers rely on.\<close>

locale usable_order =
  fixes ok :: "FactId \<Rightarrow> bool" and reach :: "FactId \<Rightarrow> FactId \<Rightarrow> bool"
  assumes reach_ok: "reach a b \<Longrightarrow> ok a \<and> ok b"
    and reach_refl: "ok a \<Longrightarrow> reach a a"
    and reach_trans: "reach a b \<Longrightarrow> reach b c \<Longrightarrow> reach a c"
    and reach_antisym: "reach a b \<Longrightarrow> reach b a \<Longrightarrow> a = b"
begin

definition maxima :: "FactId set \<Rightarrow> FactId set" where
  "maxima M = {c \<in> M. \<not> (\<exists>other \<in> M. other \<noteq> c \<and> reach c other)}"

lemma maxima_above:
  assumes "finite M" and "m \<in> M" and "ok m"
  shows "\<exists>c \<in> maxima M. reach m c"
  using assms(2,3)
proof (induction "card {x \<in> M. reach m x}" arbitrary: m rule: less_induct)
  case less
  show ?case
  proof (cases "m \<in> maxima M")
    case True
    then show ?thesis using less.prems reach_refl by blast
  next
    case False
    then obtain x where x: "x \<in> M" "x \<noteq> m" "reach m x" using less.prems by (auto simp: maxima_def)
    have "{y \<in> M. reach x y} \<subset> {y \<in> M. reach m y}"
      using x less.prems reach_trans reach_refl reach_antisym by blast
    then have "card {y \<in> M. reach x y} < card {y \<in> M. reach m y}"
      using assms(1) by (intro psubset_card_mono) auto
    then show ?thesis using less.hyps x reach_ok reach_trans by blast
  qed
qed

lemma maxima_antichain: "a \<in> maxima M \<Longrightarrow> b \<in> maxima M \<Longrightarrow> reach a b \<Longrightarrow> a = b"
  by (auto simp: maxima_def)

end

interpretation round_order: usable_order "usable (round_of (from_facts fs) (graph_of (from_facts fs)) domain ds)"
    "usably_reaches (graph_of (from_facts fs)) (round_of (from_facts fs) (graph_of (from_facts fs)) domain ds)"
  for fs domain ds
proof unfold_locales
  let ?g = "graph_of (from_facts fs)" and ?ds = "round_of (from_facts fs) (graph_of (from_facts fs)) domain ds"
  note ix = graph_of_causal_index [OF fact_set_wf_from_facts, of fs]
  note reach = usably_reaches_iff [OF ix, of ?ds]
  fix a b c
  show "usably_reaches ?g ?ds a b \<Longrightarrow> usable ?ds a \<and> usable ?ds b"
    by (auto simp: usably_reaches_def split: if_splits)
  show "usable ?ds a \<Longrightarrow> usably_reaches ?g ?ds a a" by (simp add: reach)
  show "usably_reaches ?g ?ds a b \<Longrightarrow> usably_reaches ?g ?ds b c \<Longrightarrow> usably_reaches ?g ?ds a c"
    by (auto simp: reach)
  show "a = b" if "usably_reaches ?g ?ds a b" and "usably_reaches ?g ?ds b a"
  proof (rule ccontr)
    assume "a \<noteq> b"
    then have "(a, a) \<in> (usable_edges ?g ?ds)\<^sup>+"
      using that by (auto simp: reach rtrancl_eq_or_trancl)
    then have "(a, a) \<in> {(p, c). p |\<in>| graph_parents ?g c}\<^sup>+"
      by (rule trancl_mono) (auto simp: guarded_edges_def)
    then have "a |\<in>| cycle_members ?g" by (simp add: causal_index.cycle_members_iff [OF ix])
    moreover have "usable ?ds a" using that(1) by (simp add: reach)
    ultimately show False using usable_acyclic [OF fact_set_wf_from_facts] by blast
  qed
qed

section \<open>Convergence of ancestor-local policies\<close>

lemma fmlookup_initial:
  "fmlookup (initial_decisions s g) i = (if fact_set_contains s i then Some (structural_decision s g i) else None)"
  using set_fact_set_ids [of s]
  by (auto simp: initial_decisions_def fmap_of_list.rep_eq map_of_map_restrict restrict_map_def)

lemma maximum_rounds_exceeds: "n < 2 ^ 64 - 1 \<Longrightarrow> n < maximum_rounds n"
  unfolding maximum_rounds_def saturating_usize_def min_def by (auto simp: zless_nat_conj)

text \<open>The present proper ancestors of a fact bound the rounds its decision can still change.\<close>

definition present_ancestors :: "FactSet \<Rightarrow> FactId \<Rightarrow> FactId set" where
  "present_ancestors s i = {a. fact_set_contains s a \<and> (a, i) \<in> (causal_edges s)\<^sup>+}"

definition settle_depth :: "FactSet \<Rightarrow> FactId \<Rightarrow> nat" where
  "settle_depth s i = (if (i, i) \<in> (causal_edges s)\<^sup>+ then 0 else card (present_ancestors s i))"

lemma finite_present: "finite {i. fact_set_contains s i}"
  using finite_set [of "fact_set_ids s"] by (simp add: set_fact_set_ids)

lemma settle_depth_less:
  assumes "(i, i) \<notin> (causal_edges s)\<^sup>+" and "(a, i) \<in> (causal_edges s)\<^sup>+" and "fact_set_contains s a"
  shows "settle_depth s a < settle_depth s i"
proof -
  have fin: "finite (present_ancestors s i)"
    using finite_present [of s] by (rule rev_finite_subset) (auto simp: present_ancestors_def)
  have a: "a \<in> present_ancestors s i" using assms by (simp add: present_ancestors_def)
  show ?thesis
  proof (cases "(a, a) \<in> (causal_edges s)\<^sup>+")
    case True
    then show ?thesis using a fin assms(1) by (auto simp: settle_depth_def card_gt_0_iff)
  next
    case False
    then have "present_ancestors s a \<subset> present_ancestors s i"
      using a assms(2) by (auto simp: present_ancestors_def)
    then show ?thesis using fin assms(1) False by (simp add: settle_depth_def psubset_card_mono)
  qed
qed

lemma settle_depth_bound:
  assumes "fact_set_contains s i"
  shows "settle_depth s i < card {i. fact_set_contains s i}"
proof (cases "(i, i) \<in> (causal_edges s)\<^sup>+")
  case True
  then show ?thesis using assms finite_present [of s] by (auto simp: settle_depth_def card_gt_0_iff)
next
  case False
  then have "present_ancestors s i \<subset> {i. fact_set_contains s i}"
    using assms by (auto simp: present_ancestors_def)
  then show ?thesis using False finite_present [of s] by (simp add: settle_depth_def psubset_card_mono)
qed

locale ancestor_local =
  fixes domain :: "('a, 'k, 'v, 'r) DomainReducer"
  assumes reads_ancestors:
    "fact_set_wf s \<Longrightarrow> fact_set_get s (fact_id f) = Some f \<Longrightarrow>
     (\<And>a. (a, fact_id f) \<in> (causal_edges s)\<^sup>+ \<Longrightarrow> fmlookup ds a = fmlookup ds' a) \<Longrightarrow>
     classify domain f \<lparr>ctx_facts = s, ctx_graph = graph_of s, ctx_decisions = ds\<rparr> =
     classify domain f \<lparr>ctx_facts = s, ctx_graph = graph_of s, ctx_decisions = ds'\<rparr>"
begin

lemma verdict_local:
  assumes wf: "fact_set_wf s" and known: "fact_set_contains s i"
    and same: "\<And>a. (a, i) \<in> (causal_edges s)\<^sup>+ \<Longrightarrow> fmlookup ds a = fmlookup ds' a"
  shows "verdict s (graph_of s) domain ds i = verdict s (graph_of s) domain ds' i"
proof -
  have "p |\<in>| graph_parents (graph_of s) i \<Longrightarrow> fmlookup ds p = fmlookup ds' p" for p
    using causal_edges_graph [OF wf] by (intro same r_into_trancl) blast
  then have un: "unusable_parents (graph_of s) ds i = unusable_parents (graph_of s) ds' i"
    by (intro fmap_ext) (simp add: fmlookup_unusable_parents)
  show ?thesis using known
  proof (cases rule: known_identity_cases)
    case collision
    then show ?thesis by (simp add: verdict_def structural_Projected_iff Let_def)
  next
    case (unique f)
    then have "fact_id f = i" using fact_set_get_id [OF wf] by blast
    with unique same have "classify domain f \<lparr>ctx_facts = s, ctx_graph = graph_of s, ctx_decisions = ds\<rparr> =
        classify domain f \<lparr>ctx_facts = s, ctx_graph = graph_of s, ctx_decisions = ds'\<rparr>"
      by (intro reads_ancestors [OF wf]) auto
    then show ?thesis using un unique by (simp add: verdict_def Let_def)
  qed
qed

lemma settled:
  assumes wf: "fact_set_wf s" and init: "\<And>a. \<not> fact_set_contains s a \<Longrightarrow> fmlookup d a = None"
    and "fact_set_contains s i" and "settle_depth s i < m"
  shows "fmlookup ((round_of s (graph_of s) domain ^^ Suc m) d) i = fmlookup ((round_of s (graph_of s) domain ^^ m) d) i"
  using assms(3,4)
proof (induction "settle_depth s i" arbitrary: i m rule: less_induct)
  case less
  let ?r = "round_of s (graph_of s) domain"
  obtain k where m: "m = Suc k" using less.prems(2) by (cases m) auto
  have none: "fmlookup ((?r ^^ j) d) a = None" if "\<not> fact_set_contains s a" for a j
    using that init by (cases j) (simp_all add: fmlookup_round)
  have "verdict s (graph_of s) domain ((?r ^^ Suc k) d) i = verdict s (graph_of s) domain ((?r ^^ k) d) i"
  proof (cases "(i, i) \<in> (causal_edges s)\<^sup>+")
    case True
    then have "i |\<in>| cycle_members (graph_of s)"
      using causal_edges_graph [OF wf] causal_index.cycle_members_iff [OF graph_of_causal_index [OF wf]] by simp
    then show ?thesis by (simp add: verdict_def structural_Projected_iff Let_def)
  next
    case False
    have "fmlookup ((?r ^^ Suc k) d) a = fmlookup ((?r ^^ k) d) a" if a: "(a, i) \<in> (causal_edges s)\<^sup>+" for a
    proof (cases "fact_set_contains s a")
      case True
      then have "settle_depth s a < settle_depth s i" using settle_depth_less [OF False a] by simp
      then show ?thesis using less.hyps [OF _ True, of k] less.prems(2) m by simp
    next
      case False
      show ?thesis by (simp only: none [OF False])
    qed
    then show ?thesis by (rule verdict_local [OF wf less.prems(1)])
  qed
  then show ?case using less.prems(1) by (simp add: m fmlookup_round)
qed

lemma converges:
  assumes wf: "fact_set_wf s" and small: "card {i. fact_set_contains s i} < 2 ^ 64 - 1"
  shows "\<exists>ds. stabilize_decisions s (graph_of s) domain = Ok ds"
proof -
  let ?r = "round_of s (graph_of s) domain" and ?d = "initial_decisions s (graph_of s) :: 'r Decisions"
  let ?n = "card {i. fact_set_contains s i}"
  have "fset (fmdom ?d) = {i. fact_set_contains s i}"
    by (auto simp: fmlookup_initial fmlookup_dom_iff split: if_splits)
  then have n: "fcard (fmdom ?d) = ?n" by (simp add: fcard.rep_eq)
  have "?r ((?r ^^ ?n) ?d) = (?r ^^ ?n) ?d"
  proof (rule fmap_ext)
    fix i
    show "fmlookup (?r ((?r ^^ ?n) ?d)) i = fmlookup ((?r ^^ ?n) ?d) i"
    proof (cases "fact_set_contains s i")
      case True
      then show ?thesis
        using settled [OF wf _ True settle_depth_bound [OF True], of ?d] by (simp add: fmlookup_initial)
    next
      case False
      then show ?thesis by (cases ?n) (simp_all add: fmlookup_initial fmlookup_round)
    qed
  qed
  from stabilize_rounds_converges [OF maximum_rounds_exceeds [OF small] this] show ?thesis
    by (simp add: stabilize_decisions_def n Let_def)
qed

end

section \<open>Policies that read the projected set\<close>

text \<open>
  The decision map of a round enters a policy only as the set of projected facts. Where
  projecting more never hurts, the rounds shrink that set until it is stable.
\<close>

abbreviation round_context :: "FactSet \<Rightarrow> 'r Decisions \<Rightarrow> 'r ReductionContext" where
  "round_context s ds \<equiv> \<lparr>ctx_facts = s, ctx_graph = graph_of s, ctx_decisions = ds\<rparr>"

definition usable_within :: "'r Decisions \<Rightarrow> 's Decisions \<Rightarrow> bool" where
  "usable_within ds ds' \<longleftrightarrow> (\<forall>i. usable ds i \<longrightarrow> usable ds' i)"

lemma usable_initial:
  "usable (initial_decisions s g) i \<longleftrightarrow>
     fact_set_contains s i \<and> \<not> is_collision s i \<and> i |\<notin>| cycle_members g \<and>
     (\<forall>p. p |\<in>| graph_parents g i \<longrightarrow> fact_set_contains s p)"
  by (simp add: usable_def fmlookup_initial structural_Projected_iff)

lemma round_within_initial: "usable_within (round_of s g domain ds) (initial_decisions s g)"
  by (auto simp: usable_within_def usable_initial usable_def [of "round_of s g domain ds"] fmlookup_round
      verdict_def Let_def structural_Projected_iff split: if_splits)

lemma stabilize_rounds_iterate:
  "stabilize_rounds s g domain n ds = Ok r \<Longrightarrow> \<exists>k. r = (round_of s g domain ^^ k) ds"
proof (induction n arbitrary: ds)
  case (Suc n)
  then consider "r = ds" | k where "r = (round_of s g domain ^^ k) (round_of s g domain ds)"
    by (auto simp: decide_all_round split: if_splits)
  then show ?case
  proof cases
    case 1
    then show ?thesis by (intro exI [of _ 0]) simp
  next
    case (2 k)
    then show ?thesis by (intro exI [of _ "Suc k"]) (simp add: funpow_swap1)
  qed
qed simp

lemma stabilize_decisions_iterate:
  "stabilize_decisions s g domain = Ok r \<Longrightarrow> \<exists>k. r = (round_of s g domain ^^ k) (initial_decisions s g)"
  by (auto simp: stabilize_decisions_def Let_def dest: stabilize_rounds_iterate)

text \<open>
  A policy refines a base policy when whatever a stable map of the policy projects stays projected
  by the base policy, in every map that projects at least as much. Then the base policy ends up
  projecting everything the policy does. A policy is \<open>conservative\<close> when it refines itself: the
  result of the loop is then its largest stable map.
\<close>

locale refining_policy =
  fixes domain :: "('a, 'k, 'v, 'r) DomainReducer" and base :: "('b, 'l, 'w, 's) DomainReducer"
    and good :: "FactSet \<Rightarrow> bool"
  assumes keeps:
    "fact_set_wf s \<Longrightarrow> good s \<Longrightarrow> round_of s (graph_of s) domain S = S \<Longrightarrow> usable_within S ds \<Longrightarrow>
     fact_set_get s (fact_id f) = Some f \<Longrightarrow> usable S (fact_id f) \<Longrightarrow>
     classify base f (round_context s ds) = DomainProjected"
begin

lemma within_round:
  assumes wf: "fact_set_wf s" and good: "good s" and stable: "round_of s (graph_of s) domain S = S"
    and sub: "usable_within S ds"
  shows "usable_within S (round_of s (graph_of s) base ds)"
  unfolding usable_within_def
proof (intro allI impI)
  fix i assume i: "usable S i"
  then obtain f where f: "fact_set_get s i = Some f" "i |\<notin>| cycle_members (graph_of s)"
      "\<And>p. p |\<in>| fact_parents f \<Longrightarrow> usable S p"
    using stable_usable_iff [OF wf stable, of i] by blast
  have "fact_id f = i" using fact_set_get_id [OF wf] f(1) by blast
  then have "classify base f (round_context s ds) = DomainProjected"
    using keeps [OF wf good stable sub] f(1) i by simp
  moreover have "fact_set_contains s p" if "usable S p" for p
    using that stable_usable_iff [OF wf stable, of p] fact_set_get_contains by blast
  ultimately show "usable (round_of s (graph_of s) base ds) i"
    using f sub by (auto simp: round_usable_iff [OF wf] usable_within_def)
qed

lemma projects_within:
  assumes wf: "fact_set_wf s" and good: "good s" and stable: "round_of s (graph_of s) domain S = S"
    and result: "stabilize_decisions s (graph_of s) base = Ok ds"
  shows "usable_within S ds"
proof -
  let ?r = "round_of s (graph_of s) base" and ?d = "initial_decisions s (graph_of s) :: 's Decisions"
  obtain k where k: "ds = (?r ^^ k) ?d" using stabilize_decisions_iterate [OF result] by blast
  have "usable_within S ((?r ^^ k) ?d)"
  proof (induction k)
    case 0
    show ?case using round_within_initial [of s "graph_of s" domain S] stable by simp
  next
    case (Suc k)
    then show ?case using within_round [OF wf good stable] by simp
  qed
  then show ?thesis by (simp add: k)
qed

end

locale conservative_policy = refining_policy domain domain good
  for domain :: "('a, 'k, 'v, 'r) DomainReducer" and good :: "FactSet \<Rightarrow> bool"
begin

lemmas greatest = projects_within

end

section \<open>Convergence of monotone policies\<close>

definition decides_all :: "FactSet \<Rightarrow> 'r Decisions \<Rightarrow> bool" where
  "decides_all s ds \<longleftrightarrow> (\<forall>i. fmlookup ds i \<noteq> None \<longleftrightarrow> fact_set_contains s i)"

lemma decides_all_iterate: "decides_all s ((round_of s g domain ^^ k) (initial_decisions s g))"
  by (cases k) (simp_all add: decides_all_def fmlookup_initial fmlookup_round)

lemma shrinking_chain:
  fixes U :: "nat \<Rightarrow> 'b set"
  assumes "finite (U 0)" and "\<And>k. U (Suc k) \<subseteq> U k"
  obtains k where "k \<le> card (U 0)" and "U (Suc k) = U k"
proof (rule ccontr)
  assume "\<not> thesis"
  then have strict: "U (Suc k) \<subset> U k" if "k \<le> card (U 0)" for k
    using assms(2) [of k] that \<open>\<And>k. k \<le> card (U 0) \<Longrightarrow> U (Suc k) = U k \<Longrightarrow> thesis\<close> by blast
  have "finite (U k) \<and> (k \<le> Suc (card (U 0)) \<longrightarrow> card (U k) + k \<le> card (U 0))" for k
  proof (induction k)
    case (Suc k)
    then have "finite (U (Suc k))" using assms(2) [of k] finite_subset by blast
    moreover have "card (U (Suc k)) < card (U k)" if "k \<le> card (U 0)"
      using strict [OF that] Suc by (simp add: psubset_card_mono)
    ultimately show ?case using Suc by fastforce
  qed (use assms(1) in simp)
  from this [of "Suc (card (U 0))"] show False by simp
qed

locale monotone_policy =
  fixes domain :: "('a, 'k, 'v, 'r) DomainReducer" and good :: "FactSet \<Rightarrow> bool"
  assumes mono:
    "fact_set_wf s \<Longrightarrow> good s \<Longrightarrow> fact_set_get s (fact_id f) = Some f \<Longrightarrow> usable_within ds ds' \<Longrightarrow>
     (\<And>p. p |\<in>| fact_parents f \<Longrightarrow> usable ds p) \<Longrightarrow>
     classify domain f (round_context s ds) = DomainProjected \<Longrightarrow>
     classify domain f (round_context s ds') = DomainProjected"
    and reads_usable:
    "fact_set_wf s \<Longrightarrow> usable_within ds ds' \<Longrightarrow> usable_within ds' ds \<Longrightarrow>
     classify domain f (round_context s ds) = classify domain f (round_context s ds')"
begin

lemma round_mono:
  assumes wf: "fact_set_wf s" and good: "good s" and within: "usable_within ds ds'"
    and all: "decides_all s ds"
  shows "usable_within (round_of s (graph_of s) domain ds) (round_of s (graph_of s) domain ds')"
  unfolding usable_within_def
proof (intro allI impI)
  fix i assume "usable (round_of s (graph_of s) domain ds) i"
  then obtain f where f: "fact_set_get s i = Some f" "i |\<notin>| cycle_members (graph_of s)"
      "\<And>p. p |\<in>| fact_parents f \<Longrightarrow> fact_set_contains s p \<and> usable ds p"
      "classify domain f (round_context s ds) = DomainProjected"
    using all by (auto simp: round_usable_iff [OF wf] decides_all_def)
  then show "usable (round_of s (graph_of s) domain ds') i"
    using within mono [OF wf good _ within] fact_set_get_id [OF wf f(1)]
    by (auto simp: round_usable_iff [OF wf] usable_within_def)
qed

lemma verdict_status:
  assumes wf: "fact_set_wf s" and "usable_within ds ds'" and "usable_within ds' ds"
    and "decides_all s ds" and "decides_all s ds'"
  shows "fd_status (verdict s (graph_of s) domain ds i) = fd_status (verdict s (graph_of s) domain ds' i)"
proof -
  have "unusable_parents (graph_of s) ds i = fmempty \<longleftrightarrow> unusable_parents (graph_of s) ds' i = fmempty"
    using assms(2-) by (simp add: unusable_parents_empty_iff usable_within_def decides_all_def) blast
  then show ?thesis by (simp add: verdict_def Let_def reads_usable [OF wf assms(2,3)])
qed

lemma verdict_same:
  assumes wf: "fact_set_wf s" and "usable_within ds ds'" and "usable_within ds' ds"
    and status: "\<And>p. map_option fd_status (fmlookup ds p) = map_option fd_status (fmlookup ds' p)"
  shows "verdict s (graph_of s) domain ds i = verdict s (graph_of s) domain ds' i"
proof -
  have "fmlookup (unusable_parents (graph_of s) ds i) p = fmlookup (unusable_parents (graph_of s) ds' i) p" for p
    using status [of p] by (auto simp: fmlookup_unusable_parents split: option.splits)
  then have "unusable_parents (graph_of s) ds i = unusable_parents (graph_of s) ds' i" by (rule fmap_ext)
  then show ?thesis by (simp add: verdict_def Let_def reads_usable [OF wf assms(2,3)])
qed

lemma settles:
  assumes wf: "fact_set_wf s" and "usable_within ds (round_of s (graph_of s) domain ds)"
    and "usable_within (round_of s (graph_of s) domain ds) ds" and good: "good s" and all: "decides_all s ds"
  shows "round_of s (graph_of s) domain ((round_of s (graph_of s) domain ^^ 2) ds)
    = (round_of s (graph_of s) domain ^^ 2) ds"
proof -
  let ?r = "round_of s (graph_of s) domain"
  have alls: "decides_all s (?r x)" for x by (simp add: decides_all_def fmlookup_round)
  have within: "usable_within (?r ds) (?r (?r ds))" "usable_within (?r (?r ds)) (?r ds)"
    using round_mono [OF wf good] assms all alls by blast+
  have "map_option fd_status (fmlookup (?r ds) p) = map_option fd_status (fmlookup (?r (?r ds)) p)" for p
    using verdict_status [OF wf assms(2,3) all alls] by (simp add: fmlookup_round)
  from verdict_same [OF wf within this] have "?r (?r (?r ds)) = ?r (?r ds)"
    by (intro fmap_ext) (simp add: fmlookup_round)
  then show ?thesis by (simp add: numeral_2_eq_2)
qed

lemma converges:
  assumes wf: "fact_set_wf s" and good: "good s" and small: "2 * card {i. fact_set_contains s i} + 2 < 2 ^ 64"
  shows "\<exists>ds. stabilize_decisions s (graph_of s) domain = Ok ds"
proof -
  let ?r = "round_of s (graph_of s) domain" and ?d = "initial_decisions s (graph_of s) :: 'r Decisions"
  let ?n = "card {i. fact_set_contains s i}" and ?U = "\<lambda>k. {i. usable ((?r ^^ k) ?d) i}"
  have "fset (fmdom ?d) = {i. fact_set_contains s i}"
    by (auto simp: fmlookup_initial fmlookup_dom_iff split: if_splits)
  then have n: "fcard (fmdom ?d) = ?n" by (simp add: fcard.rep_eq)
  have within: "usable_within ((?r ^^ Suc k) ?d) ((?r ^^ k) ?d)" for k
  proof (induction k)
    case (Suc k)
    from round_mono [OF wf good Suc decides_all_iterate] show ?case by simp
  qed (simp add: round_within_initial)
  have U0: "?U 0 \<subseteq> {i. fact_set_contains s i}" by (auto simp: usable_initial)
  then have fin: "finite (?U 0)" using finite_present by (rule finite_subset)
  have "?U (Suc k) \<subseteq> ?U k" for k using within [of k] by (auto simp: usable_within_def)
  then obtain k where k: "k \<le> card (?U 0)" "?U (Suc k) = ?U k" by (rule shrinking_chain [of ?U, OF fin])
  have fixed: "?r ((?r ^^ (2 + k)) ?d) = (?r ^^ (2 + k)) ?d"
    unfolding funpow_add comp_def
    by (rule settles [OF wf _ _ good decides_all_iterate]) (use k(2) in \<open>auto simp: usable_within_def\<close>)
  show ?thesis
  proof (cases "?n = 0")
    case True
    then have "?r ?d = ?d"
      using finite_present [of s] by (intro fmap_ext) (auto simp: fmlookup_round fmlookup_initial)
    then show ?thesis
      using stabilize_rounds_converges [of 0 "maximum_rounds ?n" s "graph_of s" domain ?d] True
      by (simp add: stabilize_decisions_def n Let_def maximum_rounds_def saturating_usize_def)
  next
    case False
    have "maximum_rounds ?n = 2 * ?n + 2"
      using small by (simp add: maximum_rounds_def saturating_usize_def min_def)
    moreover have "k \<le> ?n" using k(1) card_mono [OF finite_present U0] by simp
    ultimately have "2 + k < maximum_rounds ?n" using False by linarith
    from stabilize_rounds_converges [OF this fixed] show ?thesis
      by (simp add: stabilize_decisions_def n Let_def)
  qed
qed

end

sublocale monotone_policy \<subseteq> conservative: conservative_policy domain good
proof
  fix s f
  fix S ds :: "'r Decisions"
  assume wf: "fact_set_wf s" and "good s" and stable: "round_of s (graph_of s) domain S = S"
    and "usable_within S ds" and get: "fact_set_get s (fact_id f) = Some f" and "usable S (fact_id f)"
  moreover from this have "classify domain f (round_context s S) = DomainProjected"
      and "\<And>p. p |\<in>| fact_parents f \<Longrightarrow> usable S p"
    using stable_usable_iff [OF wf stable, of "fact_id f"] by auto
  ultimately show "classify domain f (round_context s ds) = DomainProjected" using mono by blast
qed

end
