(* ===== verification/Reduction.thy ===== *)
theory Reduction
  imports Stabilisation
begin

text \<open>
  Complete-batch reduction: the rest of \<open>hq-reducer/src/reducer.rs\<close>. \<open>reduce_complete\<close> builds the
  fact set and its graph, stabilises the decisions of a domain policy and derives from them
  the aggregate members, their frontiers, the projections with their transitive support, the
  conflicts and the presentation order. An outer \<open>None\<close> would be an arithmetic panic;
  \<open>reduce_complete_total\<close> excludes it.

  The three empty enums of \<open>GraphOnlyReducer\<close> are the unit type: no value of them is ever built.
\<close>

section \<open>Derivations\<close>

definition derive_aggregate_members ::
  "('a, 'k, 'v, 'r) DomainReducer \<Rightarrow> 'r ReductionContext \<Rightarrow> ('a, FactId fset) fmap" where
  "derive_aggregate_members domain ctx =
     fold (\<lambda>f members. fold (\<lambda>key. entry_insert key (fact_id f)) (aggregate_keys domain f ctx) members)
       (fact_set_facts (ctx_facts ctx)) fmempty"

definition causal_maxima :: "'r ReductionContext \<Rightarrow> FactId fset \<Rightarrow> FactId fset" where
  "causal_maxima ctx candidates =
     ffilter (\<lambda>c. \<not> fBex candidates (\<lambda>other. other \<noteq> c \<and> context_usably_reaches ctx c other)) candidates"

definition derive_frontiers ::
  "('a, FactId fset) fmap \<Rightarrow> 'r ReductionContext \<Rightarrow> ('a, FactId fset) fmap" where
  "derive_frontiers aggregate_members ctx =
     (let members = fmmap (ffilter (is_projected ctx)) aggregate_members;
          occupied = fmfilter (\<lambda>key. fmlookup members key \<noteq> Some {||}) members
      in fmmap (causal_maxima ctx) occupied)"

fun collect_projections ::
  "('k, 'v) ProjectionContribution list \<Rightarrow> ('k, 'v) fmap \<Rightarrow> ('k, FactId fset) fmap \<Rightarrow>
     ReduceError + ('k, 'v) fmap \<times> ('k, FactId fset) fmap" where
  "collect_projections [] projections direct_support = Ok (projections, direct_support)"
| "collect_projections (c # rest) projections direct_support =
     (let extended = fmupd (pc_key c)
            (index_get direct_support (pc_key c) |\<union>| pc_direct_support c) direct_support
      in if pc_direct_support c = {||} then Err EmptyProjectionSupport
         else (case fmlookup projections (pc_key c) of
                 Some existing \<Rightarrow>
                   if existing \<noteq> pc_value c then Err ProjectionValueConflict
                   else collect_projections rest projections extended
               | None \<Rightarrow>
                   collect_projections rest (fmupd (pc_key c) (pc_value c) projections) extended))"

fun derive_support ::
  "'r ReductionContext \<Rightarrow> ('k \<times> FactId fset) list \<Rightarrow> ('k, FactId fset) fmap \<Rightarrow>
     ReduceError + ('k, FactId fset) fmap" where
  "derive_support ctx [] support = Ok support"
| "derive_support ctx ((key, direct) # rest) support =
     (case support_loop (parents_index (ctx_graph ctx)) (is_projected ctx) {||} (sorted_list_of_fset direct) of
        Err i \<Rightarrow> Err (InvalidProjectionSupport i)
      | Ok transitive \<Rightarrow> derive_support ctx rest (fmupd key transitive support))"

definition derive_projections ::
  "('a, 'k::linorder, 'v, 'r) DomainReducer \<Rightarrow> 'r ReductionContext \<Rightarrow>
     ReduceError + ('k, 'v) fmap \<times> ('k, FactId fset) fmap" where
  "derive_projections domain ctx =
     and_then (collect_projections (domain_projections domain ctx) fmempty fmempty)
       (\<lambda>(projections, direct_support).
          and_then (derive_support ctx (sorted_list_of_fmap direct_support) fmempty)
            (\<lambda>support. Ok (projections, support)))"

definition decision_conflict :: "'r FactDecision \<Rightarrow> 'r ConflictObservation option" where
  "decision_conflict d =
     (case (fd_reason d, fd_status d) of
        (Some (DomainReason r), Conflicted) \<Rightarrow>
          Some (ConflictObservation (DomainConflict r) (fd_conflict_participants d))
      | _ \<Rightarrow> None)"

definition derive_conflicts ::
  "('a, 'k, 'v, 'r) DomainReducer \<Rightarrow> 'r ReductionContext \<Rightarrow> 'r ConflictObservation fset" where
  "derive_conflicts domain ctx =
     (\<lambda>i. ConflictObservation CollisionConflict {|i|}) |`| fact_set_collisions (ctx_facts ctx)
     |\<union>| fset_of_list (List.map_filter (\<lambda>(i, d). decision_conflict d) (sorted_list_of_fmap (ctx_decisions ctx)))
     |\<union>| fset_of_list (domain_conflicts domain ctx)"

section \<open>Complete reduction\<close>

record ('a, 'k, 'v, 'r) ReductionReport =
  rr_facts :: FactSet
  rr_graph :: CausalGraph
  rr_decisions :: "'r Decisions"
  rr_dependency_order :: "FactId list"
  rr_aggregate_members :: "('a, FactId fset) fmap"
  rr_frontiers :: "('a, FactId fset) fmap"
  rr_projections :: "('k, 'v) fmap"
  rr_support :: "('k, FactId fset) fmap"
  rr_conflicts :: "'r ConflictObservation fset"
  rr_presentation_order :: "FactId list"

definition derive_presentation ::
  "('a, 'k, 'v, 'r) DomainReducer \<Rightarrow> 'r ReductionContext \<Rightarrow> (ReduceError + FactId list) option" where
  "derive_presentation domain ctx =
     (let es = presentation_entries domain ctx in
      case find (\<lambda>e. \<not> is_projected ctx (pe_fact_id e)) es of
        Some e \<Rightarrow> Some (Err (InvalidPresentationFact (pe_fact_id e)))
      | None \<Rightarrow>
          map_option (\<lambda>r. case r of Err e \<Rightarrow> Err (PresentationFailure e) | Ok order \<Rightarrow> Ok order)
            (canonical_presentation_order (ctx_graph ctx) es))"

definition reduce_complete ::
  "SemanticFact list \<Rightarrow> ('a, 'k::linorder, 'v, 'r) DomainReducer \<Rightarrow>
     (ReduceError + ('a, 'k, 'v, 'r) ReductionReport) option" where
  "reduce_complete fs domain =
     (let facts = from_facts fs; graph = graph_of facts in
      case dependency_order graph of None \<Rightarrow> None | Some order \<Rightarrow>
      case stabilize_decisions facts graph domain of Err e \<Rightarrow> Some (Err e) | Ok decisions \<Rightarrow>
      let ctx = \<lparr>ctx_facts = facts, ctx_graph = graph, ctx_decisions = decisions\<rparr>;
          members = derive_aggregate_members domain ctx;
          frontiers = derive_frontiers members ctx in
      case derive_projections domain ctx of Err e \<Rightarrow> Some (Err e) | Ok (projections, support) \<Rightarrow>
      let conflicts = derive_conflicts domain ctx in
      case derive_presentation domain ctx of None \<Rightarrow> None | Some (Err e) \<Rightarrow> Some (Err e)
      | Some (Ok presented) \<Rightarrow>
          Some (Ok \<lparr>rr_facts = facts, rr_graph = graph, rr_decisions = decisions,
            rr_dependency_order = order, rr_aggregate_members = members, rr_frontiers = frontiers,
            rr_projections = projections, rr_support = support, rr_conflicts = conflicts,
            rr_presentation_order = presented\<rparr>))"

definition graph_only_reducer :: "(unit, unit, unit, unit) DomainReducer" where
  "graph_only_reducer =
     \<lparr>classify = (\<lambda>_ _. DomainProjected), aggregate_keys = (\<lambda>_ _. []), domain_projections = (\<lambda>_. []),
      domain_conflicts = (\<lambda>_. []), presentation_entries = (\<lambda>_. [])\<rparr>"

section \<open>What a report holds\<close>

lemma derive_presentation_total:
  assumes "causal_index (ctx_graph ctx)"
  shows "derive_presentation domain ctx \<noteq> None"
proof -
  have "canonical_presentation_order (ctx_graph ctx) es \<noteq> None" for es
    by (cases rule: canonical_presentation_order_cases [OF assms, of es]) auto
  then show ?thesis by (simp add: derive_presentation_def Let_def split: option.split)
qed

lemma reduce_complete_total_aux: "reduce_complete fs domain \<noteq> None"
proof -
  note ix = graph_of_causal_index [OF fact_set_wf_from_facts, of fs]
  obtain order where "dependency_order (graph_of (from_facts fs)) = Some order"
    using causal_index.dependency_order_canonical [OF ix] by blast
  moreover have "derive_presentation domain
      \<lparr>ctx_facts = from_facts fs, ctx_graph = graph_of (from_facts fs), ctx_decisions = ds\<rparr> \<noteq> None" for ds
    by (rule derive_presentation_total) (simp add: ix)
  ultimately show ?thesis
    by (simp add: reduce_complete_def Let_def split: sum.split option.split) (metis option.distinct(1))
qed

lemma fmempty_dom'_iff: "m = fmempty \<longleftrightarrow> fmdom' m = {}"
  by (metis fmdom'_empty fmrestrict_set_dom fmrestrict_set_null)

lemma domain_decision_reverse: "fd_reverse_dependants (domain_decision d deps) = deps"
  by (simp add: domain_decision_def split: prod.split)

lemma verdict_unique:
  assumes "fact_set_get s i = Some f" and "\<not> is_collision s i"
  shows "verdict s g domain ds i =
    (let missing = ffilter (\<lambda>p. \<not> fact_set_contains s p) (graph_parents g i);
         deps = graph_children g i
     in if i |\<in>| cycle_members g then
          \<lparr>fd_status = Invalid, fd_reason = Some CausalCycleReason, fd_missing_dependencies = {||},
           fd_unusable_dependencies = fmempty, fd_failed_authorities = {||},
           fd_conflict_participants = {||}, fd_reverse_dependants = deps\<rparr>
        else if missing \<noteq> {||} then unresolved_decision missing fmempty deps
        else if unusable_parents g ds i \<noteq> fmempty then unresolved_decision {||} (unusable_parents g ds i) deps
        else domain_decision (classify domain f \<lparr>ctx_facts = s, ctx_graph = g, ctx_decisions = ds\<rparr>) deps)"
  using assms by (simp add: verdict_def structural_decision_def Let_def)

text \<open>The context in which the components of a report were derived.\<close>

definition report_context :: "('a, 'k, 'v, 'r) ReductionReport \<Rightarrow> 'r ReductionContext" where
  "report_context r = \<lparr>ctx_facts = rr_facts r, ctx_graph = rr_graph r, ctx_decisions = rr_decisions r\<rparr>"

lemma reduce_complete_OkD:
  assumes "reduce_complete fs domain = Some (Ok r)"
  shows "rr_facts r = from_facts fs" and "rr_graph r = graph_of (from_facts fs)"
    and "stabilize_decisions (from_facts fs) (graph_of (from_facts fs)) domain = Ok (rr_decisions r)"
    and "rr_aggregate_members r = derive_aggregate_members domain (report_context r)"
    and "rr_frontiers r = derive_frontiers (rr_aggregate_members r) (report_context r)"
    and "derive_projections domain (report_context r) = Ok (rr_projections r, rr_support r)"
    and "rr_conflicts r = derive_conflicts domain (report_context r)"
    and "derive_presentation domain (report_context r) = Some (Ok (rr_presentation_order r))"
  using assms
  by (auto simp: reduce_complete_def report_context_def Let_def split: sum.splits option.splits)

lemma report_stable:
  assumes "reduce_complete fs domain = Some (Ok r)"
  shows "round_of (from_facts fs) (graph_of (from_facts fs)) domain (rr_decisions r) = rr_decisions r"
  using reduce_complete_OkD(3) [OF assms] by (rule stabilize_decisions_fixed)

lemma report_usable_iff:
  assumes "reduce_complete fs domain = Some (Ok r)"
  shows "usable (rr_decisions r) i \<longleftrightarrow>
    (\<exists>f. fact_set_get (from_facts fs) i = Some f \<and> i |\<notin>| cycle_members (graph_of (from_facts fs)) \<and>
       (\<forall>p. p |\<in>| fact_parents f \<longrightarrow> usable (rr_decisions r) p) \<and>
       classify domain f (report_context r) = DomainProjected)"
  unfolding report_context_def reduce_complete_OkD(1,2) [OF assms]
  by (rule stable_usable_iff [OF fact_set_wf_from_facts report_stable [OF assms]])

lemma report_context_simps [simp]:
  "ctx_facts (report_context r) = rr_facts r" "ctx_graph (report_context r) = rr_graph r"
  "ctx_decisions (report_context r) = rr_decisions r" "is_projected (report_context r) = usable (rr_decisions r)"
  by (simp_all add: report_context_def is_projected_def fun_eq_iff)

subsection \<open>Frontiers\<close>

lemma aggregate_members_iff:
  "i |\<in>| index_get (derive_aggregate_members domain ctx) key \<longleftrightarrow>
     (\<exists>f \<in> set (fact_set_facts (ctx_facts ctx)). fact_id f = i \<and> key \<in> set (aggregate_keys domain f ctx))"
proof -
  have keys: "fold (\<lambda>key. entry_insert key j) ks m = fold (\<lambda>(k, v). entry_insert k v) (map (\<lambda>k. (k, j)) ks) m"
    for j ks and m :: "('a, FactId fset) fmap"
    by (induction ks arbitrary: m) simp_all
  have "i |\<in>| index_get (fold (\<lambda>f members. fold (\<lambda>key. entry_insert key (fact_id f)) (aggregate_keys domain f ctx) members) fs m) key
      \<longleftrightarrow> i |\<in>| index_get m key \<or> (\<exists>f \<in> set fs. fact_id f = i \<and> key \<in> set (aggregate_keys domain f ctx))" for fs m
    by (induction fs arbitrary: m) (auto simp: keys index_get_fold_entry_insert)
  then show ?thesis by (simp add: derive_aggregate_members_def)
qed

lemma fmlookup_derive_frontiers:
  "fmlookup (derive_frontiers members ctx) key =
     (case fmlookup members key of
        None \<Rightarrow> None
      | Some M \<Rightarrow> if ffilter (is_projected ctx) M = {||} then None
                  else Some (causal_maxima ctx (ffilter (is_projected ctx) M)))"
  by (simp add: derive_frontiers_def Let_def fmlookup_filter split: option.split)

lemma report_order:
  assumes "reduce_complete fs domain = Some (Ok r)"
  shows "usable_order (usable (rr_decisions r)) (usably_reaches (rr_graph r) (rr_decisions r))"
  using round_order.usable_order_axioms [of fs domain "rr_decisions r"] report_stable [OF assms]
    reduce_complete_OkD(2) [OF assms] by simp

lemma causal_maxima_eq:
  assumes "usable_order (usable (rr_decisions r)) (usably_reaches (rr_graph r) (rr_decisions r))"
  shows "fset (causal_maxima (report_context r) C) =
    usable_order.maxima (usably_reaches (rr_graph r) (rr_decisions r)) (fset C)"
  by (auto simp: causal_maxima_def usable_order.maxima_def [OF assms] context_usably_reaches_def)

subsection \<open>Projections and support\<close>

lemma fmupd_idem: "fmlookup m k = Some v \<Longrightarrow> fmupd k v m = m"
  by (rule fmap_ext) auto

lemma collect_projections_Cons_Ok:
  "collect_projections (c # rest) ps ds = Ok r \<longleftrightarrow>
     pc_direct_support c \<noteq> {||} \<and>
     (\<forall>v. fmlookup ps (pc_key c) = Some v \<longrightarrow> v = pc_value c) \<and>
     collect_projections rest (fmupd (pc_key c) (pc_value c) ps)
       (fmupd (pc_key c) (index_get ds (pc_key c) |\<union>| pc_direct_support c) ds) = Ok r"
  by (cases "fmlookup ps (pc_key c)") (simp_all add: Let_def fmupd_idem)

lemma collect_projections_keep:
  "fmlookup ps k = Some v \<Longrightarrow> collect_projections cs ps ds = Ok (ps', ds') \<Longrightarrow> fmlookup ps' k = Some v"
proof (induction cs arbitrary: ps ds)
  case Nil
  then show ?case by simp
next
  case (Cons c cs)
  then have "fmlookup (fmupd (pc_key c) (pc_value c) ps) k = Some v"
    unfolding collect_projections_Cons_Ok by (cases "k = pc_key c") auto
  with Cons show ?case unfolding collect_projections_Cons_Ok by blast
qed

lemma collect_projections_direct:
  "collect_projections cs ps ds = Ok (ps', ds') \<Longrightarrow>
     fset (index_get ds' k) = fset (index_get ds k) \<union>
       (\<Union>c \<in> {c \<in> set cs. pc_key c = k}. fset (pc_direct_support c))"
proof (induction cs arbitrary: ps ds)
  case Nil
  then show ?case by simp
next
  case (Cons c cs)
  let ?ext = "fmupd (pc_key c) (index_get ds (pc_key c) |\<union>| pc_direct_support c) ds"
  have "fset (index_get ds' k) = fset (index_get ?ext k) \<union> (\<Union>c \<in> {c \<in> set cs. pc_key c = k}. fset (pc_direct_support c))"
    using Cons.prems Cons.IH unfolding collect_projections_Cons_Ok by blast
  then show ?case by (auto simp: index_get_def)
qed

lemma collect_projections_Ok:
  assumes "collect_projections cs ps ds = Ok (ps', ds')"
  shows "fset (fmdom ps') = fset (fmdom ps) \<union> pc_key ` set cs"
    and "fset (fmdom ds') = fset (fmdom ds) \<union> pc_key ` set cs"
    and "\<And>c. c \<in> set cs \<Longrightarrow> pc_direct_support c \<noteq> {||}"
    and "\<And>c. c \<in> set cs \<Longrightarrow> fmlookup ps' (pc_key c) = Some (pc_value c)"
proof -
  note [simp del] = collect_projections.simps(2) and [simp] = collect_projections_Cons_Ok
  have "fset (fmdom ps') = fset (fmdom ps) \<union> pc_key ` set cs
      \<and> fset (fmdom ds') = fset (fmdom ds) \<union> pc_key ` set cs" using assms
    by (induction cs arbitrary: ps ds) auto
  then show "fset (fmdom ps') = fset (fmdom ps) \<union> pc_key ` set cs"
    and "fset (fmdom ds') = fset (fmdom ds) \<union> pc_key ` set cs" by simp_all
  show "c \<in> set cs \<Longrightarrow> pc_direct_support c \<noteq> {||}" for c
    using assms by (induction cs arbitrary: ps ds) auto
  show "c \<in> set cs \<Longrightarrow> fmlookup ps' (pc_key c) = Some (pc_value c)" for c
    using assms
  proof (induction cs arbitrary: ps ds)
    case (Cons a cs)
    then show ?case
      using collect_projections_keep [of "fmupd (pc_key a) (pc_value a) ps" "pc_key a" "pc_value a" cs] by auto
  qed simp
qed

lemma derive_support_Ok:
  "derive_support ctx kvs support = Ok support' \<Longrightarrow> distinct (map fst kvs) \<Longrightarrow>
     fmlookup support' k =
       (case map_of kvs k of
          None \<Rightarrow> fmlookup support k
        | Some direct \<Rightarrow>
            Some (closure_loop (parents_index (ctx_graph ctx)) (\<lambda>_. True) {||} (sorted_list_of_fset direct)))"
proof (induction ctx kvs support rule: derive_support.induct)
  case (2 ctx key direct rest support)
  then obtain t where t: "support_loop (parents_index (ctx_graph ctx)) (is_projected ctx) {||} (sorted_list_of_fset direct) = Ok t"
    by (auto split: sum.splits)
  then have "t = closure_loop (parents_index (ctx_graph ctx)) (\<lambda>_. True) {||} (sorted_list_of_fset direct)"
    using support_loop_Ok by blast
  moreover have "k = key \<Longrightarrow> map_of rest k = None" using "2.prems"(2) by (simp add: map_of_eq_None_iff)
  ultimately show ?case using "2.IH" [OF t] "2.prems" t by (auto split: option.splits)
qed simp

lemma derive_support_usable:
  "derive_support ctx kvs support = Ok support' \<Longrightarrow> (k, direct) \<in> set kvs \<Longrightarrow>
     c \<in> (edges (parents_index (ctx_graph ctx)) (\<lambda>_. True))\<^sup>* `` fset direct \<Longrightarrow> is_projected ctx c"
proof (induction ctx kvs support rule: derive_support.induct)
  case (2 ctx key direct' rest support)
  then obtain t where t: "support_loop (parents_index (ctx_graph ctx)) (is_projected ctx) {||} (sorted_list_of_fset direct') = Ok t"
    by (auto split: sum.splits)
  then show ?case using "2.IH" [OF t] "2.prems" t support_from_Ok [OF t] by auto
qed simp

lemma derive_support_Err:
  assumes closed: "\<And>c p. is_projected ctx c \<Longrightarrow> p |\<in>| graph_parents (ctx_graph ctx) c \<Longrightarrow> is_projected ctx p"
  shows "derive_support ctx kvs support = Err e \<Longrightarrow>
     \<exists>i k direct. e = InvalidProjectionSupport i \<and> (k, direct) \<in> set kvs \<and> \<not> is_projected ctx i \<and> i |\<in>| direct"
proof (induction kvs arbitrary: support)
  case (Cons kv kvs)
  obtain key direct' where kv: "kv = (key, direct')" by fastforce
  show ?case
  proof (cases "support_loop (parents_index (ctx_graph ctx)) (is_projected ctx) {||} (sorted_list_of_fset direct')")
    case (Inl i)
    then have "e = InvalidProjectionSupport i" using Cons.prems by (simp add: kv)
    then show ?thesis
      using support_loop_Err [OF Inl] closed
      by (intro exI [of _ i] exI [of _ key] exI [of _ direct']) (auto simp: kv graph_parents_def)
  next
    case (Inr t)
    then have "derive_support ctx kvs (fmupd key t support) = Err e" using Cons.prems by (simp add: kv)
    from Cons.IH [OF this] show ?thesis by (metis list.set_intros(2))
  qed
qed simp

lemma collect_projections_Err:
  "collect_projections cs ps ds = Err e \<Longrightarrow> e = EmptyProjectionSupport \<or> e = ProjectionValueConflict"
  by (induction cs ps ds rule: collect_projections.induct) (auto simp: Let_def split: if_splits option.splits)

text \<open>Ancestors as the parent index gives them.\<close>

abbreviation ancestry :: "'r ReductionContext \<Rightarrow> (FactId \<times> FactId) set" where
  "ancestry ctx \<equiv> edges (parents_index (ctx_graph ctx)) (\<lambda>_. True)"

abbreviation cited :: "('k, 'v) ProjectionContribution list \<Rightarrow> 'k \<Rightarrow> FactId set" where
  "cited cs k \<equiv> (\<Union>c \<in> {c \<in> set cs. pc_key c = k}. fset (pc_direct_support c))"

lemma distinct_sorted_fmap: "distinct (map fst (sorted_list_of_fmap m))"
  by (simp add: sorted_list_of_fmap_def comp_def)

lemma derive_projections_Ok:
  assumes "derive_projections domain ctx = Ok (projections, support)"
  shows "fset (fmdom projections) = pc_key ` set (domain_projections domain ctx)"
    and "fset (fmdom support) = pc_key ` set (domain_projections domain ctx)"
    and "fmlookup support k = Some S \<Longrightarrow> fset S = (ancestry ctx)\<^sup>* `` cited (domain_projections domain ctx) k"
    and "fmlookup support k = Some S \<Longrightarrow> i |\<in>| S \<Longrightarrow> is_projected ctx i"
    and "\<And>c. c \<in> set (domain_projections domain ctx) \<Longrightarrow> pc_direct_support c \<noteq> {||}"
    and "\<And>c. c \<in> set (domain_projections domain ctx) \<Longrightarrow> fmlookup projections (pc_key c) = Some (pc_value c)"
proof -
  obtain direct where c: "collect_projections (domain_projections domain ctx) fmempty fmempty = Ok (projections, direct)"
    and d: "derive_support ctx (sorted_list_of_fmap direct) fmempty = Ok support"
    using assms by (auto simp: derive_projections_def and_then_Ok_iff)
  note look = derive_support_Ok [OF d distinct_sorted_fmap, unfolded map_of_sorted_list]
  show "fset (fmdom projections) = pc_key ` set (domain_projections domain ctx)"
    using collect_projections_Ok(1) [OF c] by simp
  have "fset (fmdom support) = fset (fmdom direct)"
    using look by (auto simp: fmlookup_dom_iff split: option.splits)
  then show "fset (fmdom support) = pc_key ` set (domain_projections domain ctx)"
    using collect_projections_Ok(2) [OF c] by simp
  show eq: "fset S = (ancestry ctx)\<^sup>* `` cited (domain_projections domain ctx) k" if S: "fmlookup support k = Some S"
  proof -
    obtain D where D: "fmlookup direct k = Some D" using S look [of k] by (auto split: option.splits)
    then have "fset D = cited (domain_projections domain ctx) k"
      using collect_projections_direct [OF c, of k] by (simp add: index_get_def)
    moreover have "fset S = (ancestry ctx)\<^sup>* `` fset D"
      using S look [of k] D by (auto simp: closure_from)
    ultimately show ?thesis by simp
  qed
  show "is_projected ctx i" if S: "fmlookup support k = Some S" and i: "i |\<in>| S"
  proof -
    obtain D where D: "fmlookup direct k = Some D" using S look [of k] by (auto split: option.splits)
    then have "(k, D) \<in> set (sorted_list_of_fmap direct)" by (simp add: set_sorted_list_of_fmap)
    moreover have "i \<in> (ancestry ctx)\<^sup>* `` fset D"
      using S look [of k] D i by (auto simp: closure_from)
    ultimately show ?thesis by (rule derive_support_usable [OF d])
  qed
  show "pc_direct_support c \<noteq> {||}" if "c \<in> set (domain_projections domain ctx)" for c
    using collect_projections_Ok(3) [OF c that] .
  show "fmlookup projections (pc_key c) = Some (pc_value c)" if "c \<in> set (domain_projections domain ctx)" for c
    using collect_projections_Ok(4) [OF c that] .
qed

subsection \<open>Policies whose contributions are sound\<close>

text \<open>
  A policy never breaks the derivations when each of its projections cites projected facts only,
  at least one of them, and no two of its projections disagree on a key.
\<close>

definition sound_contributions ::
  "'r ReductionContext \<Rightarrow> ('k, 'v) ProjectionContribution list \<Rightarrow> bool" where
  "sound_contributions ctx cs \<longleftrightarrow>
     (\<forall>c \<in> set cs. pc_direct_support c \<noteq> {||} \<and> (\<forall>i. i |\<in>| pc_direct_support c \<longrightarrow> is_projected ctx i)) \<and>
     (\<forall>c \<in> set cs. \<forall>c' \<in> set cs. pc_key c = pc_key c' \<longrightarrow> pc_value c = pc_value c')"

lemma collect_projections_sound:
  assumes "\<And>c. c \<in> set cs \<Longrightarrow> pc_direct_support c \<noteq> {||}"
    and "\<And>c c'. c \<in> set cs \<Longrightarrow> c' \<in> set cs \<Longrightarrow> pc_key c = pc_key c' \<Longrightarrow> pc_value c = pc_value c'"
    and "\<And>c v. c \<in> set cs \<Longrightarrow> fmlookup ps (pc_key c) = Some v \<Longrightarrow> v = pc_value c"
  shows "\<exists>r. collect_projections cs ps ds = Ok r"
  using assms
proof (induction cs arbitrary: ps ds)
  case (Cons c cs)
  let ?ps = "fmupd (pc_key c) (pc_value c) ps"
  have "\<exists>r. collect_projections cs ?ps ds' = Ok r" for ds'
  proof (rule Cons.IH)
    show "d \<in> set cs \<Longrightarrow> pc_direct_support d \<noteq> {||}" for d using Cons.prems(1) by simp
    show "d \<in> set cs \<Longrightarrow> d' \<in> set cs \<Longrightarrow> pc_key d = pc_key d' \<Longrightarrow> pc_value d = pc_value d'" for d d'
      using Cons.prems(2) [of d d'] by simp
    show "v = pc_value d" if d: "d \<in> set cs" and look: "fmlookup ?ps (pc_key d) = Some v" for d v
    proof (cases "pc_key c = pc_key d")
      case True
      then have "v = pc_value c" using look by simp
      also have "pc_value c = pc_value d" by (rule Cons.prems(2)) (use d True in simp_all)
      finally show ?thesis .
    next
      case False
      then have "fmlookup ps (pc_key d) = Some v" using look by simp
      then show ?thesis by (rule Cons.prems(3) [rotated]) (simp add: d)
    qed
  qed
  moreover have "pc_direct_support c \<noteq> {||}" by (rule Cons.prems(1)) simp
  moreover have "\<forall>v. fmlookup ps (pc_key c) = Some v \<longrightarrow> v = pc_value c"
    by (intro allI impI) (rule Cons.prems(3), simp_all)
  ultimately show ?case unfolding collect_projections_Cons_Ok by blast
qed simp

lemma derive_projections_sound:
  assumes sound: "sound_contributions ctx (domain_projections domain ctx)"
    and closed: "\<And>c p. is_projected ctx c \<Longrightarrow> p |\<in>| graph_parents (ctx_graph ctx) c \<Longrightarrow> is_projected ctx p"
  shows "\<exists>r. derive_projections domain ctx = Ok r"
proof -
  let ?cs = "domain_projections domain ctx"
  have supported: "pc_direct_support c \<noteq> {||} \<and> (\<forall>i. i |\<in>| pc_direct_support c \<longrightarrow> is_projected ctx i)"
    if "c \<in> set ?cs" for c
    using sound that unfolding sound_contributions_def by blast
  have "\<exists>r. collect_projections ?cs fmempty fmempty = Ok r"
  proof (rule collect_projections_sound)
    show "c \<in> set ?cs \<Longrightarrow> pc_direct_support c \<noteq> {||}" for c using supported by blast
    show "c \<in> set ?cs \<Longrightarrow> c' \<in> set ?cs \<Longrightarrow> pc_key c = pc_key c' \<Longrightarrow> pc_value c = pc_value c'" for c c'
      using sound unfolding sound_contributions_def by blast
  qed simp
  then obtain ps direct where c: "collect_projections ?cs fmempty fmempty = Ok (ps, direct)" by auto
  have cited: "is_projected ctx i" if "fmlookup direct k = Some D" and "i |\<in>| D" for i k D
    using collect_projections_direct [OF c, of k] that supported by (auto simp: index_get_def)
  have "derive_support ctx (sorted_list_of_fmap direct) fmempty \<noteq> Err e" for e
  proof
    assume "derive_support ctx (sorted_list_of_fmap direct) fmempty = Err e"
    then have "\<exists>i k D. e = InvalidProjectionSupport i \<and> (k, D) \<in> set (sorted_list_of_fmap direct) \<and>
        \<not> is_projected ctx i \<and> i |\<in>| D"
      by (rule derive_support_Err [rotated]) (rule closed)
    then show False using cited by (auto simp: set_sorted_list_of_fmap)
  qed
  then obtain support where "derive_support ctx (sorted_list_of_fmap direct) fmempty = Ok support"
    by (cases "derive_support ctx (sorted_list_of_fmap direct) fmempty") auto
  then show ?thesis by (simp add: derive_projections_def c)
qed

lemma stable_parents_usable:
  assumes "fact_set_wf s" and "round_of s (graph_of s) domain ds = ds" and "usable ds c"
    and "p |\<in>| graph_parents (graph_of s) c"
  shows "usable ds p"
  using stable_usable_iff [OF assms(1,2), of c] assms(3,4) graph_parents_iff [OF assms(1)] by auto

text \<open>A selection of distinct projected facts always has its presentation order.\<close>

lemma usable_presentation:
  assumes stable: "round_of (from_facts fs) (graph_of (from_facts fs)) domain ds = ds"
    and dist: "distinct (map pe_fact_id es)" and usable: "\<And>e. e \<in> set es \<Longrightarrow> usable ds (pe_fact_id e)"
  obtains xs where "canonical_presentation_order (graph_of (from_facts fs)) es = Some (Ok xs)"
    and "distinct xs" and "set xs = pe_fact_id ` set es"
    and "canonical_order (ready_entry (entry_map es)) (\<lambda>v. fset (graph_parents (graph_of (from_facts fs)) v))
      (pe_fact_id ` set es) xs"
proof -
  let ?g = "graph_of (from_facts fs)"
  let ?edges = "induced (\<lambda>v. fset (graph_parents ?g v)) (pe_fact_id ` set es)"
  note ix = graph_of_causal_index [OF fact_set_wf_from_facts, of fs]
  have known: "pe_fact_id e |\<in>| vertices ?g" if "e \<in> set es" for e
    using stable_usable_iff [OF fact_set_wf_from_facts stable, of "pe_fact_id e"] usable [OF that]
      fact_set_get_contains graph_vertices [of "from_facts fs"] by auto
  have acyc: "acyclic ?edges"
  proof (rule acyclicI, rule allI, rule notI)
    fix i assume loop: "(i, i) \<in> ?edges\<^sup>+"
    then have "(i, i) \<in> {(p, c). p |\<in>| graph_parents ?g c}\<^sup>+"
      by (rule trancl_mono) (auto simp: induced_def)
    then have "i |\<in>| cycle_members ?g" by (simp add: causal_index.cycle_members_iff [OF ix])
    moreover obtain y where "(y, i) \<in> ?edges" using loop by (meson tranclE)
    then have "usable ds i" using usable by (auto simp: induced_def)
    then have "i |\<notin>| cycle_members ?g" using usable_acyclic [OF fact_set_wf_from_facts, of fs domain ds] stable by simp
    ultimately show False by simp
  qed
  show thesis
  proof (cases rule: canonical_presentation_order_cases [OF ix, of es])
    case (1 err)
    then show thesis using acceptable_not_rejected [of ?g es err] dist known by (auto simp: acceptable_def)
  next
    case (2 xs)
    have greedy: "greedy_prefix (ready_entry (entry_map es)) (\<lambda>v. fset (graph_parents ?g v)) (pe_fact_id ` set es) xs"
      using 2(2) by (simp add: canonical_order_def)
    have "pe_fact_id ` set es \<subseteq> set xs" by (rule canonical_order_complete [OF 2(2) _ acyc]) simp
    then have all: "set xs = pe_fact_id ` set es" using greedy_prefix_subset [OF greedy] by blast
    have "canonical_presentation_order ?g es = Some (Ok xs)" unfolding 2(3) using acyc by simp
    from that [OF this greedy_prefix_distinct [OF greedy] all 2(2)] show thesis .
  qed
qed

lemma derive_presentation_succeeds:
  assumes "round_of (from_facts fs) (graph_of (from_facts fs)) domain ds = ds"
    and "distinct (map pe_fact_id (presentation_entries domain (round_context (from_facts fs) ds)))"
    and "\<And>e. e \<in> set (presentation_entries domain (round_context (from_facts fs) ds)) \<Longrightarrow> usable ds (pe_fact_id e)"
  shows "\<exists>xs. derive_presentation domain (round_context (from_facts fs) ds) = Some (Ok xs)"
proof -
  let ?es = "presentation_entries domain (round_context (from_facts fs) ds)"
  have "find (\<lambda>e. \<not> is_projected (round_context (from_facts fs) ds) (pe_fact_id e)) ?es = None"
    using assms(3) by (auto simp: find_None_iff is_projected_def)
  moreover obtain xs where "canonical_presentation_order (graph_of (from_facts fs)) ?es = Some (Ok xs)"
    by (rule usable_presentation [OF assms])
  ultimately show ?thesis by (simp add: derive_presentation_def Let_def)
qed

lemma reduce_complete_succeeds:
  assumes stable: "stabilize_decisions (from_facts fs) (graph_of (from_facts fs)) domain = Ok ds"
    and sound: "sound_contributions (round_context (from_facts fs) ds)
      (domain_projections domain (round_context (from_facts fs) ds))"
    and entries: "distinct (map pe_fact_id (presentation_entries domain (round_context (from_facts fs) ds)))"
      "\<And>e. e \<in> set (presentation_entries domain (round_context (from_facts fs) ds)) \<Longrightarrow> usable ds (pe_fact_id e)"
  shows "\<exists>r. reduce_complete fs domain = Some (Ok r)"
proof -
  let ?s = "from_facts fs" and ?ctx = "round_context (from_facts fs) ds"
  note ix = graph_of_causal_index [OF fact_set_wf_from_facts, of fs]
  obtain order where "dependency_order (graph_of ?s) = Some order"
    using causal_index.dependency_order_canonical [OF ix] by blast
  moreover have "\<exists>r. derive_projections domain ?ctx = Ok r"
    by (rule derive_projections_sound [OF sound])
      (auto simp: is_projected_def
        intro: stable_parents_usable [OF fact_set_wf_from_facts stabilize_decisions_fixed [OF stable]])
  moreover have "\<exists>xs. derive_presentation domain ?ctx = Some (Ok xs)"
    using derive_presentation_succeeds [OF stabilize_decisions_fixed [OF stable] entries] .
  ultimately show ?thesis by (auto simp: reduce_complete_def Let_def stable)
qed

lemma stable_order:
  assumes "round_of (from_facts fs) (graph_of (from_facts fs)) domain ds = ds"
  shows "usable_order (usable ds) (usably_reaches (graph_of (from_facts fs)) ds)"
  using round_order.usable_order_axioms [of fs domain ds] by (simp add: assms)

lemma causal_maxima_subset: "causal_maxima ctx M |\<subseteq>| M"
  by (auto simp: causal_maxima_def)

lemma causal_maxima_nonempty:
  assumes stable: "round_of (from_facts fs) (graph_of (from_facts fs)) domain ds = ds"
    and "M \<noteq> {||}" and "\<And>i. i |\<in>| M \<Longrightarrow> usable ds i"
  shows "causal_maxima (round_context (from_facts fs) ds) M \<noteq> {||}"
proof -
  obtain m where "m |\<in>| M" using assms(2) by auto
  then obtain c where "c \<in> usable_order.maxima (usably_reaches (graph_of (from_facts fs)) ds) (fset M)"
    using usable_order.maxima_above [OF stable_order [OF stable], of "fset M" m] assms(3) by auto
  then have "c |\<in>| causal_maxima (round_context (from_facts fs) ds) M"
    by (auto simp: causal_maxima_def usable_order.maxima_def [OF stable_order [OF stable]] context_usably_reaches_def)
  then show ?thesis by auto
qed

lemma report_context_round:
  "reduce_complete fs domain = Some (Ok r) \<Longrightarrow> report_context r = round_context (from_facts fs) (rr_decisions r)"
  by (simp add: report_context_def reduce_complete_OkD(1,2))

end
