(* ===== verification/Complete_Reduction.thy ===== *)
theory Complete_Reduction
  imports Reduction
begin

text \<open>
  Properties of \<open>reduce_complete\<close> for an arbitrary domain policy, and of the graph-only policy:
  totality, independence of arrival order, the meaning of projected facts, diagnostics,
  frontiers, support and convergence.
\<close>

text \<open>A small policy and fact list for the witnesses: fact 4 cites the absent fact 9.\<close>

definition sample_policy :: "(unit, unit, unit, unit) DomainReducer" where
  "sample_policy =
     \<lparr>classify = (\<lambda>_ _. DomainProjected), aggregate_keys = (\<lambda>_ _. [()]),
      domain_projections = (\<lambda>_. [\<lparr>pc_key = (), pc_value = (), pc_direct_support = {|3|}\<rparr>]),
      domain_conflicts = (\<lambda>_. []),
      presentation_entries = (\<lambda>_. [\<lparr>pe_fact_id = 2, pe_key = minimal_key 1 MessageFamily\<rparr>])\<rparr>"

definition sample_facts :: "SemanticFact list" where
  "sample_facts = [sample_node 3 [1], sample_node 4 [9], sample_node 1 [], sample_node 2 [1]]"

lemma sample_run:
  obtains r where "reduce_complete sample_facts sample_policy = Some (Ok r)"
    "fmlookup (rr_frontiers r) () = Some {|2, 3|}" "fmlookup (rr_support r) () = Some {|1, 3|}"
proof -
  have "(case reduce_complete sample_facts sample_policy of
      Some (Inr r) \<Rightarrow> fmlookup (rr_frontiers r) () = Some {|2, 3|} \<and> fmlookup (rr_support r) () = Some {|1, 3|}
    | _ \<Rightarrow> False)"
    by code_simp
  then show ?thesis using that by (auto split: option.splits sum.splits)
qed

text \<open>
  Complete reduction never panics: for every list of facts and every policy it returns a
  report or one of the named errors.
\<close>

lemma reduce_complete_total: "\<exists>result. reduce_complete fs domain = Some result"
  using reduce_complete_total_aux [of fs domain] by auto

text \<open>
  C1. Reduction is a function of the set of received facts: the order in which they arrive and
  how often each is repeated change neither the report nor the error.
\<close>

theorem reduce_complete_arrival_order:
  assumes "set fs = set gs"
  shows "reduce_complete fs domain = reduce_complete gs domain"
proof -
  have "from_facts fs = from_facts gs"
    by (simp add: from_facts_def fact_arrival.fold_put_set_cong [OF assms])
  then show ?thesis by (simp add: reduce_complete_def)
qed

theorem reduce_complete_arrival_order_witness:
  "reduce_complete (rev sample_facts @ sample_facts) sample_policy = reduce_complete sample_facts sample_policy"
  by (rule reduce_complete_arrival_order) (auto simp: sample_facts_def)

text \<open>
  C2. In a report a fact is projected exactly when it is stored uniquely, lies on no causal
  cycle, all its declared parents are projected, and the policy projects it in the context of
  the final decisions.
\<close>

theorem report_projected_iff:
  assumes "reduce_complete fs domain = Some (Ok r)"
  shows "usable (rr_decisions r) i \<longleftrightarrow>
    (\<exists>f. fact_set_get (from_facts fs) i = Some f \<and> (i, i) \<notin> (causal_edges (from_facts fs))\<^sup>+ \<and>
       fset (fact_parents f) \<subseteq> {p. usable (rr_decisions r) p} \<and>
       classify domain f (report_context r) = DomainProjected)"
  using report_usable_iff [OF assms, of i]
    causal_index.cycle_members_iff [OF graph_of_causal_index [OF fact_set_wf_from_facts], of i fs]
  by (auto simp: causal_edges_graph)

theorem report_projected_iff_witness:
  "\<exists>r. reduce_complete sample_facts sample_policy = Some (Ok r) \<and>
     \<not> usable (rr_decisions r) 4 \<and> usable (rr_decisions r) 1"
proof -
  obtain r where r: "reduce_complete sample_facts sample_policy = Some (Ok r)" by (rule sample_run)
  have g: "fact_set_get (from_facts sample_facts) 4 = Some (sample_node 4 [9])"
    "fact_set_get (from_facts sample_facts) 1 = Some (sample_node 1 [])"
    "fact_set_get (from_facts sample_facts) 9 = None" by code_simp+
  have "(1, 1) \<notin> (causal_edges (from_facts sample_facts))\<^sup>+"
    using g(2) by (auto elim: tranclE simp: causal_edges_def)
  moreover have "classify sample_policy f ctx = DomainProjected" for f ctx by (simp add: sample_policy_def)
  ultimately show ?thesis
    using r g report_projected_iff [OF r, of 4] report_projected_iff [OF r, of 1] report_projected_iff [OF r, of 9]
    by auto
qed

text \<open>
  C35. Every known identity has a decision and no other does. A collision is conflicted with
  itself as participant; an unambiguous cycle member is invalid; a fact with absent parents is
  unresolved and lists exactly those; a fact whose parents are all present but not all projected
  is unresolved and lists exactly the unprojected parents with their status.
\<close>

theorem report_diagnostics:
  assumes "reduce_complete fs domain = Some (Ok r)"
  shows "case fmlookup (rr_decisions r) i of
      None \<Rightarrow> i \<notin> fact_id ` set fs
    | Some d \<Rightarrow> i \<in> fact_id ` set fs \<and> fd_reverse_dependants d = graph_children (rr_graph r) i \<and>
        (let missing = {p. p |\<in>| graph_parents (rr_graph r) i \<and> p \<notin> fact_id ` set fs};
             blocked = {p. p |\<in>| graph_parents (rr_graph r) i \<and> \<not> usable (rr_decisions r) p}
         in if is_collision (from_facts fs) i then
              fd_status d = Conflicted \<and> fd_reason d = Some IdentityCollision \<and> fd_conflict_participants d = {|i|}
            else if i |\<in>| cycle_members (rr_graph r) then
              fd_status d = Invalid \<and> fd_reason d = Some CausalCycleReason
            else if missing \<noteq> {} then
              fd_status d = Unresolved \<and> fset (fd_missing_dependencies d) = missing
            else if blocked \<noteq> {} then
              fd_status d = Unresolved \<and> fmdom' (fd_unusable_dependencies d) = blocked
            else \<exists>f. fact_set_get (from_facts fs) i = Some f \<and>
              d = domain_decision (classify domain f (report_context r)) (graph_children (rr_graph r) i))"
proof -
  let ?s = "from_facts fs" and ?g = "rr_graph r" and ?ds = "rr_decisions r"
  let ?missing = "{p. p |\<in>| graph_parents ?g i \<and> p \<notin> fact_id ` set fs}"
  let ?blocked = "{p. p |\<in>| graph_parents ?g i \<and> \<not> usable ?ds p}"
  have g: "?g = graph_of ?s" using reduce_complete_OkD(2) [OF assms] .
  have look: "fmlookup ?ds j =
      (if fact_set_contains ?s j then Some (verdict ?s ?g domain ?ds j) else None)" for j
    using fmlookup_round [of ?s ?g domain ?ds j] report_stable [OF assms] g by simp
  have ctx: "report_context r = \<lparr>ctx_facts = ?s, ctx_graph = ?g, ctx_decisions = ?ds\<rparr>"
    by (simp add: report_context_def reduce_complete_OkD(1) [OF assms])
  show ?thesis
  proof (cases "fact_set_contains ?s i")
    case False
    then show ?thesis using look [of i] by (simp add: contains_from_facts)
  next
    case True
    then show ?thesis
    proof (cases rule: known_identity_cases)
      case collision
      then show ?thesis using look [of i] True
        by (simp add: contains_from_facts verdict_def structural_decision_def Let_def)
    next
      case (unique f)
      have missing: "fset (ffilter (\<lambda>p. \<not> fact_set_contains ?s p) (graph_parents ?g i)) = ?missing"
        by (auto simp: contains_from_facts)
      have "fmlookup ?ds p \<noteq> None" if "?missing = {}" and "p |\<in>| graph_parents ?g i" for p
        using that look [of p] by (auto simp: contains_from_facts)
      then have blocked: "?missing = {} \<Longrightarrow> fmdom' (unusable_parents ?g ?ds i) = ?blocked"
        unfolding fmdom_unusable_parents by blast
      have "fmlookup ?ds i = Some (verdict ?s ?g domain ?ds i)" and "i \<in> fact_id ` set fs"
        using True look [of i] by (simp_all add: contains_from_facts)
      with unique verdict_unique [OF unique, of ?g domain ?ds] missing blocked show ?thesis
        by (simp add: Let_def ctx unresolved_decision_def domain_decision_reverse fmempty_dom'_iff bot_fset.rep_eq fset_inject [symmetric])
    qed
  qed
qed

theorem report_diagnostics_witness:
  "\<exists>r d. reduce_complete sample_facts sample_policy = Some (Ok r) \<and>
     fmlookup (rr_decisions r) 4 = Some d \<and> fd_status d = Unresolved \<and> fset (fd_missing_dependencies d) = {9}"
proof -
  obtain r where r: "reduce_complete sample_facts sample_policy = Some (Ok r)" by (rule sample_run)
  have ids: "fact_id ` set sample_facts = {3, 4, 1, 2}" by (simp add: sample_facts_def)
  have g: "graph_parents (graph_of (from_facts sample_facts)) 4 = {|9|}"
    "\<not> is_collision (from_facts sample_facts) 4"
    "4 |\<notin>| cycle_members (graph_of (from_facts sample_facts))" by code_simp+
  have "{p. p |\<in>| graph_parents (rr_graph r) 4 \<and> p \<notin> fact_id ` set sample_facts} = {9}"
    using reduce_complete_OkD(2) [OF r] by (auto simp: g ids)
  then show ?thesis
    using r g reduce_complete_OkD(2) [OF r] report_diagnostics [OF r, of 4]
    by (auto simp: ids Let_def split: option.splits)
qed

text \<open>
  C30. Frontiers are exact causal maxima. A frontier is recorded for an aggregate exactly when one
  of its members is projected; it consists of projected members, no two of which are related
  by usable reachability, and every projected member usably reaches a member of it.
\<close>

theorem report_frontiers:
  assumes "reduce_complete fs domain = Some (Ok r)"
  shows "case fmlookup (rr_frontiers r) key of
      None \<Rightarrow> {i. i |\<in>| index_get (rr_aggregate_members r) key \<and> usable (rr_decisions r) i} = {}
    | Some frontier \<Rightarrow>
        (let members = {i. i |\<in>| index_get (rr_aggregate_members r) key \<and> usable (rr_decisions r) i};
             reach = usably_reaches (rr_graph r) (rr_decisions r)
         in fset frontier \<noteq> {} \<and> fset frontier \<subseteq> members \<and>
            {(a, b). a |\<in>| frontier \<and> b |\<in>| frontier \<and> reach a b} \<subseteq> Id \<and>
            members \<subseteq> {m. \<exists>c. c |\<in>| frontier \<and> reach m c})"
proof -
  let ?ds = "rr_decisions r"
  note order = report_order [OF assms]
  let ?cs = "ffilter (usable ?ds) (index_get (rr_aggregate_members r) key)"
  have look: "fmlookup (rr_frontiers r) key =
      (if ?cs = {||} then None else Some (causal_maxima (report_context r) ?cs))"
    unfolding reduce_complete_OkD(5) [OF assms] fmlookup_derive_frontiers
    by (auto simp: index_get_def split: option.split)
  have sub: "fset (causal_maxima (report_context r) ?cs) \<subseteq> fset ?cs" by (auto simp: causal_maxima_def)
  have above: "\<exists>c. c |\<in>| causal_maxima (report_context r) ?cs \<and> usably_reaches (rr_graph r) ?ds m c"
    if "m |\<in>| ?cs" for m
    using usable_order.maxima_above [OF order finite_fset that] that
    unfolding causal_maxima_eq [OF order] by auto
  have anti: "a = b" if "a |\<in>| causal_maxima (report_context r) ?cs" "b |\<in>| causal_maxima (report_context r) ?cs"
      "usably_reaches (rr_graph r) ?ds a b" for a b
    using usable_order.maxima_antichain [OF order] that unfolding causal_maxima_eq [OF order] by blast
  show ?thesis
  proof (cases "?cs = {||}")
    case True
    then show ?thesis by (auto simp: look)
  next
    case False
    then have "fset (causal_maxima (report_context r) ?cs) \<noteq> {}" using above by blast
    then show ?thesis using False sub above anti by (simp add: look Let_def) blast
  qed
qed

theorem report_frontiers_witness:
  "\<exists>r. reduce_complete sample_facts sample_policy = Some (Ok r) \<and>
     (\<exists>frontier. fmlookup (rr_frontiers r) () = Some frontier \<and> fset frontier \<noteq> {} \<and>
        fset frontier \<subseteq> {i. usable (rr_decisions r) i})"
proof -
  obtain r where r: "reduce_complete sample_facts sample_policy = Some (Ok r)"
      and f: "fmlookup (rr_frontiers r) () = Some {|2, 3|}"
    by (rule sample_run)
  show ?thesis using r f report_frontiers [OF r, of "()"] by (auto simp: Let_def)
qed

text \<open>
  C31. Every projection has support, and only projections do. The support of a projection is its
  cited facts together with all their causal ancestors; all of them are projected.
\<close>

theorem report_support:
  assumes "reduce_complete fs domain = Some (Ok r)"
  shows "fmdom (rr_support r) = fmdom (rr_projections r) \<and>
    (case fmlookup (rr_support r) key of
       None \<Rightarrow> {c \<in> set (domain_projections domain (report_context r)). pc_key c = key} = {}
     | Some S \<Rightarrow>
         fset S = {a. \<exists>c \<in> set (domain_projections domain (report_context r)). \<exists>i. pc_key c = key \<and>
                       i |\<in>| pc_direct_support c \<and> (a, i) \<in> (causal_edges (from_facts fs))\<^sup>*} \<and>
         fset S \<noteq> {} \<and> fset S \<subseteq> {a. usable (rr_decisions r) a})"
proof -
  let ?cs = "domain_projections domain (report_context r)"
  note ok = derive_projections_Ok [OF reduce_complete_OkD(6) [OF assms]]
  have g: "ctx_graph (report_context r) = graph_of (from_facts fs)"
    using reduce_complete_OkD(2) [OF assms] by simp
  have anc: "ancestry (report_context r) = (causal_edges (from_facts fs))\<inverse>"
    unfolding g using causal_edges_graph [of "from_facts fs"] by (auto simp: edges_def graph_parents_def)
  have dom: "fmdom (rr_support r) = fmdom (rr_projections r)"
    using ok(1,2) by (simp add: fset_inject [symmetric])
  show ?thesis
  proof (cases "fmlookup (rr_support r) key")
    case None
    then have "key \<notin> pc_key ` set ?cs" using ok(2) fmdom_notI by fastforce
    then show ?thesis using dom None by auto
  next
    case (Some S)
    have S: "fset S = ((causal_edges (from_facts fs))\<inverse>)\<^sup>* `` cited ?cs key"
      using ok(3) [OF Some] unfolding anc .
    have "key \<in> pc_key ` set ?cs" using Some ok(2) fmdomI by fastforce
    then have "cited ?cs key \<noteq> {}" using ok(5) by fastforce
    then have "fset S \<noteq> {}" unfolding S by auto
    moreover have "fset S \<subseteq> {a. usable (rr_decisions r) a}" using ok(4) [OF Some] by auto
    moreover have "fset S = {a. \<exists>c \<in> set ?cs. \<exists>i. pc_key c = key \<and> i |\<in>| pc_direct_support c \<and>
        (a, i) \<in> (causal_edges (from_facts fs))\<^sup>*}"
      unfolding S by (auto simp: rtrancl_converse)
    ultimately show ?thesis using dom Some by simp
  qed
qed

theorem report_support_witness:
  "\<exists>r S. reduce_complete sample_facts sample_policy = Some (Ok r) \<and>
     fmlookup (rr_support r) () = Some S \<and> S = {|1, 3|} \<and> usable (rr_decisions r) 1 \<and> usable (rr_decisions r) 3"
proof -
  obtain r where r: "reduce_complete sample_facts sample_policy = Some (Ok r)"
      and f: "fmlookup (rr_support r) () = Some {|1, 3|}"
    by (rule sample_run)
  have "usable (rr_decisions r) 1 \<and> usable (rr_decisions r) 3"
    using f report_support [OF r, of "()"] by simp
  then show ?thesis using r f by blast
qed

text \<open>
  A support error always names a fact that some contribution cites directly and that is not
  projected: the ancestors the loop adds by itself are projected whenever the cited facts are.
\<close>

lemma support_error_is_cited:
  assumes "reduce_complete fs domain = Some (Err (InvalidProjectionSupport i))"
  shows "\<exists>ds. stabilize_decisions (from_facts fs) (graph_of (from_facts fs)) domain = Ok ds \<and>
    \<not> usable ds i \<and>
    (\<exists>c \<in> set (domain_projections domain \<lparr>ctx_facts = from_facts fs, ctx_graph = graph_of (from_facts fs), ctx_decisions = ds\<rparr>).
       i |\<in>| pc_direct_support c)"
proof -
  let ?s = "from_facts fs" and ?g = "graph_of (from_facts fs)"
  let ?ctx = "\<lambda>ds. \<lparr>ctx_facts = ?s, ctx_graph = ?g, ctx_decisions = ds\<rparr>"
  obtain ds where ds: "stabilize_decisions ?s ?g domain = Ok ds"
      and err: "derive_projections domain (?ctx ds) = Err (InvalidProjectionSupport i)"
    using assms by (auto simp: reduce_complete_def derive_presentation_def Let_def split: option.splits sum.splits dest: stabilize_decisions_Err)
  have "usable ds c \<Longrightarrow> p |\<in>| graph_parents ?g c \<Longrightarrow> usable ds p" for c p
    using stable_usable_iff [OF fact_set_wf_from_facts stabilize_decisions_fixed [OF ds], of c]
    by (auto simp: graph_parents_iff)
  then have closed: "is_projected (?ctx ds) c \<Longrightarrow> p |\<in>| graph_parents (ctx_graph (?ctx ds)) c \<Longrightarrow> is_projected (?ctx ds) p" for c p
    by (simp add: is_projected_def)
  obtain ps direct where c: "collect_projections (domain_projections domain (?ctx ds)) fmempty fmempty = Ok (ps, direct)"
      and sup: "derive_support (?ctx ds) (sorted_list_of_fmap direct) fmempty = Err (InvalidProjectionSupport i)"
    using err collect_projections_Err
    by (cases "collect_projections (domain_projections domain (?ctx ds)) fmempty fmempty") 
      (auto simp: derive_projections_def and_then_Err_iff)
  have "\<exists>j k D. InvalidProjectionSupport i = InvalidProjectionSupport j \<and>
      (k, D) \<in> set (sorted_list_of_fmap direct) \<and> \<not> is_projected (?ctx ds) j \<and> j |\<in>| D"
    by (rule derive_support_Err [OF _ sup]) (rule closed)
  then obtain k D where "fmlookup direct k = Some D" "\<not> usable ds i" "i |\<in>| D"
    by (auto simp: set_sorted_list_of_fmap is_projected_def)
  then show ?thesis
    using ds collect_projections_direct [OF c, of k] by (auto simp: index_get_def)
qed

section \<open>The graph-only policy\<close>

interpretation graph_only: ancestor_local graph_only_reducer
  by unfold_locales (simp add: graph_only_reducer_def)

definition sound_ancestry :: "FactSet \<Rightarrow> FactId \<Rightarrow> bool" where
  "sound_ancestry s i \<longleftrightarrow>
     (\<forall>a. (a, i) \<in> (causal_edges s)\<^sup>* \<longrightarrow> fact_set_get s a \<noteq> None \<and> (a, a) \<notin> (causal_edges s)\<^sup>+)"

lemma graph_only_usable:
  assumes wf: "fact_set_wf s" and fixed: "round_of s (graph_of s) graph_only_reducer ds = ds"
  shows "usable ds i \<longleftrightarrow> sound_ancestry s i"
proof -
  have iff: "usable ds i \<longleftrightarrow> (\<exists>f. fact_set_get s i = Some f \<and> (i, i) \<notin> (causal_edges s)\<^sup>+ \<and>
      (\<forall>p. p |\<in>| fact_parents f \<longrightarrow> usable ds p))" for i
    using stable_usable_iff [OF wf fixed, of i] causal_edges_graph [OF wf]
      causal_index.cycle_members_iff [OF graph_of_causal_index [OF wf], of i]
    by (simp add: graph_only_reducer_def)
  have down: "usable ds a" if "(a, i) \<in> (causal_edges s)\<^sup>*" "usable ds i" for a
    using that
  proof (induction rule: converse_rtrancl_induct)
    case (step y z)
    then show ?case using iff [of z] by (auto simp: causal_edges_def)
  qed
  have up: "sound_ancestry s i \<Longrightarrow> usable ds i" for i
  proof (induction "settle_depth s i" arbitrary: i rule: less_induct)
    case less
    then have acyc: "(i, i) \<notin> (causal_edges s)\<^sup>+" and "fact_set_get s i \<noteq> None"
      unfolding sound_ancestry_def by blast+
    then obtain f where f: "fact_set_get s i = Some f" by blast
    have "usable ds p" if "p |\<in>| fact_parents f" for p
    proof -
      have e: "(p, i) \<in> causal_edges s" using f that by (auto simp: causal_edges_def)
      then have sound: "sound_ancestry s p"
        using less.prems unfolding sound_ancestry_def by (meson rtrancl_into_rtrancl)
      then have "fact_set_contains s p" unfolding sound_ancestry_def using fact_set_get_contains by blast
      then show ?thesis using less.hyps sound settle_depth_less [OF acyc] e by blast
    qed
    then show ?case using iff [of i] acyc f by blast
  qed
  show ?thesis
  proof
    assume "usable ds i"
    then have "usable ds a" if "(a, i) \<in> (causal_edges s)\<^sup>*" for a using down that by blast
    then show "sound_ancestry s i" using iff unfolding sound_ancestry_def by blast
  qed (rule up)
qed

text \<open>
  C32. The graph-only policy always converges within the round bound (a map of facts cannot exceed
  the address space), and it projects exactly the facts whose whole ancestry, themselves
  included, is present, unambiguous and free of cycles.
\<close>

theorem graph_only_reduction:
  assumes "length fs < 2 ^ 64 - 1"
  shows "\<exists>r. reduce_complete fs graph_only_reducer = Some (Ok r) \<and>
    {i. usable (rr_decisions r) i} = {i. sound_ancestry (from_facts fs) i}"
proof -
  let ?s = "from_facts fs"
  have "card {i. fact_set_contains ?s i} \<le> length fs"
    unfolding contains_from_facts by (simp add: card_image_le le_trans [OF card_image_le card_length])
  with assms have "card {i. fact_set_contains ?s i} < 2 ^ 64 - 1" by simp
  then obtain ds where ds: "stabilize_decisions ?s (graph_of ?s) graph_only_reducer = Ok ds"
    using graph_only.converges [OF fact_set_wf_from_facts] by blast
  note ix = graph_of_causal_index [OF fact_set_wf_from_facts, of fs]
  obtain order where order: "dependency_order (graph_of ?s) = Some order"
    using causal_index.dependency_order_canonical [OF ix] by blast
  have "derive_projections graph_only_reducer ctx = Ok (fmempty, fmempty)" for ctx
    by (simp add: derive_projections_def graph_only_reducer_def sorted_list_of_fmap_def)
  moreover have "derive_presentation graph_only_reducer ctx = Some (Ok [])" for ctx
    by (simp add: derive_presentation_def graph_only_reducer_def canonical_presentation_order_empty)
  ultimately obtain r where r: "reduce_complete fs graph_only_reducer = Some (Ok r)" and "rr_decisions r = ds"
    using ds order by (simp add: reduce_complete_def Let_def)
  then show ?thesis using graph_only_usable [OF fact_set_wf_from_facts report_stable [OF r]] by auto
qed

theorem graph_only_reduction_witness:
  "\<exists>r. reduce_complete sample_facts graph_only_reducer = Some (Ok r) \<and> \<not> usable (rr_decisions r) 4"
proof -
  have "length sample_facts < 2 ^ 64 - 1" by (simp add: sample_facts_def)
  from graph_only_reduction [OF this] obtain r
    where r: "reduce_complete sample_facts graph_only_reducer = Some (Ok r)"
      and eq: "{i. usable (rr_decisions r) i} = {i. sound_ancestry (from_facts sample_facts) i}" by blast
  have "fact_set_get (from_facts sample_facts) 4 = Some (sample_node 4 [9])"
    and none: "fact_set_get (from_facts sample_facts) 9 = None" by code_simp+
  then have "(9, 4) \<in> causal_edges (from_facts sample_facts)" by (simp add: causal_edges_def)
  then have "\<not> sound_ancestry (from_facts sample_facts) 4" using none by (auto simp: sound_ancestry_def)
  then show ?thesis using r eq by blast
qed

end
