(* ===== verification/Authority.thy ===== *)
theory Authority
  imports Reduction
begin

text \<open>
  Authority classification: the policy, keys, reasons and \<open>classify_fact\<close> of
  \<open>hq-reducer/src/authority.rs\<close> with every validator it calls. The views and projections of the
  same file are in \<open>Authority_Views\<close>.

  The validators read the decisions of the current round only through the projected set, so
  they are polymorphic in the reason type, as the source is (\<open>impl Sized\<close>): the conversation,
  agent and project reducers call \<open>classify_fact\<close> with their own contexts.
\<close>

section \<open>Policy, keys and reasons\<close>

record AuthorityPolicy =
  local_installation :: InstallationId
  local_human_mailbox :: MailboxId

datatype AuthorityAggregateKey =
    InstallationKey InstallationId
  | MailboxKey MailboxAddress
  | PeerRouteKey InstallationId InstallationId
  | MailboxCapabilityKey GrantId
  | AccountKey AccountId
  | MembershipKey AccountId InstallationId
  | AccountSelectionKey InstallationId

datatype AuthorityReason =
    ScopeMismatch
  | SignerMismatch
  | SubjectMismatch
  | MissingAuthority AuthorityRole
  | AuthorityKindMismatch AuthorityRole
  | RootHasParents
  | UniqueRootConflict
  | ConcurrentRegisterConflict
  | IncompleteRevocationFrontier
  | RevokedMailboxGrant
  | InactiveAccountMembership

primrec authority_key_rank :: "AuthorityAggregateKey \<Rightarrow> nat \<times> 256 word \<times> 256 word" where
  "authority_key_rank (InstallationKey i) = (0, i, 0)"
| "authority_key_rank (MailboxKey m) = (1, ma_installation_id m, ma_mailbox_id m)"
| "authority_key_rank (PeerRouteKey owner peer) = (2, owner, peer)"
| "authority_key_rank (MailboxCapabilityKey g) = (3, g, 0)"
| "authority_key_rank (AccountKey a) = (4, a, 0)"
| "authority_key_rank (MembershipKey a d) = (5, a, d)"
| "authority_key_rank (AccountSelectionKey i) = (6, i, 0)"

lemma authority_key_rank_inj: "authority_key_rank a = authority_key_rank b \<Longrightarrow> a = b"
  by (cases a; cases b) (auto simp: MailboxAddress.expand)

instantiation AuthorityAggregateKey :: linorder
begin
definition less_eq_AuthorityAggregateKey :: "AuthorityAggregateKey \<Rightarrow> AuthorityAggregateKey \<Rightarrow> bool" where
  "a \<le> b \<longleftrightarrow> authority_key_rank a \<le> authority_key_rank b"
definition less_AuthorityAggregateKey :: "AuthorityAggregateKey \<Rightarrow> AuthorityAggregateKey \<Rightarrow> bool" where
  "a < b \<longleftrightarrow> authority_key_rank a < authority_key_rank b"
instance
  by standard (auto simp: less_eq_AuthorityAggregateKey_def less_AuthorityAggregateKey_def
      less_le_not_le linear intro: authority_key_rank_inj order.trans)
end

section \<open>Readings of a fact\<close>

text \<open>The \<open>matches!\<close> filters the validators apply to candidate facts.\<close>

definition declares_installation :: "InstallationId \<Rightarrow> SemanticFact \<Rightarrow> bool" where
  "declares_installation i f = (case payload f of InstallationDeclared j _ _ _ \<Rightarrow> j = i | _ \<Rightarrow> False)"

definition creates_human_mailbox :: "SemanticFact \<Rightarrow> bool" where
  "creates_human_mailbox f = (case payload f of MailboxCreated _ kind _ \<Rightarrow> kind = HumanMailbox | _ \<Rightarrow> False)"

definition mailbox_subject :: "SemanticFact \<Rightarrow> MailboxAddress option" where
  "mailbox_subject f =
     (case payload f of
        MailboxCreated mailbox_id _ _ \<Rightarrow> Some (MailboxAddress (author_id f) mailbox_id)
      | _ \<Rightarrow> None)"

definition account_root_subject :: "SemanticFact \<Rightarrow> AccountId option" where
  "account_root_subject f = (case payload f of HumanAccountCreated a _ _ \<Rightarrow> Some a | _ \<Rightarrow> None)"

definition grants_mailbox :: "GrantId \<Rightarrow> SemanticFact \<Rightarrow> bool" where
  "grants_mailbox g f = (case payload f of MailboxAccessGranted h _ _ \<Rightarrow> h = g | _ \<Rightarrow> False)"

definition grants_device :: "GrantId \<Rightarrow> SemanticFact \<Rightarrow> bool" where
  "grants_device g f = (case payload f of HumanDeviceGranted _ h _ _ _ \<Rightarrow> h = g | _ \<Rightarrow> False)"

definition revokes_grant :: "GrantId \<Rightarrow> SemanticFact \<Rightarrow> bool" where
  "revokes_grant g f = (case payload f of MailboxAccessRevoked h _ _ \<Rightarrow> h = g | _ \<Rightarrow> False)"

definition revokes_lineage :: "MailboxAddress \<Rightarrow> InstallationId \<Rightarrow> SemanticFact \<Rightarrow> bool" where
  "revokes_lineage mailbox grantee f =
     (case payload f of MailboxAccessRevoked _ m d \<Rightarrow> m = mailbox \<and> d = grantee | _ \<Rightarrow> False)"

definition revokes_device :: "AccountId \<Rightarrow> InstallationId \<Rightarrow> SemanticFact \<Rightarrow> bool" where
  "revokes_device account device f =
     (case payload f of HumanDeviceRevoked a _ d \<Rightarrow> a = account \<and> d = device | _ \<Rightarrow> False)"

definition context_fact :: "'r ReductionContext \<Rightarrow> FactId \<Rightarrow> SemanticFact option" where
  "context_fact ctx i = fact_set_get (ctx_facts ctx) i"

definition facts_where :: "'r ReductionContext \<Rightarrow> (SemanticFact \<Rightarrow> bool) \<Rightarrow> SemanticFact list" where
  "facts_where ctx P = filter P (fact_set_facts (ctx_facts ctx))"

definition mailbox_revokes :: "'r ReductionContext \<Rightarrow> GrantId \<Rightarrow> SemanticFact list" where
  "mailbox_revokes ctx g = facts_where ctx (revokes_grant g)"

definition mailbox_lineage_revokes ::
  "'r ReductionContext \<Rightarrow> MailboxAddress \<Rightarrow> InstallationId \<Rightarrow> SemanticFact list" where
  "mailbox_lineage_revokes ctx mailbox grantee = facts_where ctx (revokes_lineage mailbox grantee)"

definition account_revokes ::
  "'r ReductionContext \<Rightarrow> AccountId \<Rightarrow> InstallationId \<Rightarrow> SemanticFact list" where
  "account_revokes ctx account device = facts_where ctx (revokes_device account device)"

definition reaches_with_candidate ::
  "'r ReductionContext \<Rightarrow> FactId \<Rightarrow> FactId \<Rightarrow> FactId \<Rightarrow> bool" where
  "reaches_with_candidate ctx ancestor descendant candidate =
     (let ok = (\<lambda>i. i = candidate \<or> is_projected ctx i) in
      if \<not> ok ancestor \<or> \<not> ok descendant then False
      else if ancestor = descendant then True
      else search_loop (children_index (ctx_graph ctx)) ok descendant {||}
             (filter ok (sorted_list_of_fset (graph_children (ctx_graph ctx) ancestor))))"

definition active_acceptance ::
  "FactId \<Rightarrow> AccountId \<Rightarrow> InstallationId \<Rightarrow> 'r ReductionContext \<Rightarrow> bool" where
  "active_acceptance acceptance account device ctx =
     list_all (\<lambda>revoke. context_usably_reaches ctx (fact_id revoke) acceptance)
       (account_revokes ctx account device)"

definition account_action_survives_revokes ::
  "FactId \<Rightarrow> FactId \<Rightarrow> AccountId \<Rightarrow> InstallationId \<Rightarrow> 'r ReductionContext \<Rightarrow> bool" where
  "account_action_survives_revokes action acceptance account device ctx =
     list_all (\<lambda>revoke. reaches_with_candidate ctx action (fact_id revoke) action
                      \<or> context_usably_reaches ctx (fact_id revoke) acceptance)
       (account_revokes ctx account device)"

definition required_authority :: "SemanticFact \<Rightarrow> AuthorityRole \<Rightarrow> AuthorityReason + FactId" where
  "required_authority f role = ok_or (MissingAuthority role) (authority_of (causal f) role)"

definition concurrent_with :: "'r ReductionContext \<Rightarrow> SemanticFact \<Rightarrow> SemanticFact \<Rightarrow> bool" where
  "concurrent_with ctx f revoke \<longleftrightarrow>
     \<not> structurally_reaches (ctx_graph ctx) (fact_id revoke) (fact_id f) \<and>
     \<not> structurally_reaches (ctx_graph ctx) (fact_id f) (fact_id revoke)"

section \<open>Validators\<close>

definition validate_installation_root ::
  "SemanticFact \<Rightarrow> InstallationId \<Rightarrow> 'r ReductionContext \<Rightarrow> AuthorityReason + unit" where
  "validate_installation_root f installation_id ctx =
     (if fact_parents f \<noteq> {||} then Err RootHasParents
      else if length (facts_where ctx (declares_installation installation_id)) > 1
      then Err UniqueRootConflict else Ok ())"

definition validate_local_fact :: "SemanticFact \<Rightarrow> 'r ReductionContext \<Rightarrow> AuthorityReason + unit" where
  "validate_local_fact f ctx =
     (case scope f of
        InstallationPrivate installation_id \<Rightarrow>
          if author_id f \<noteq> installation_id then Err SignerMismatch
          else and_then (required_authority f LocalInstallation) (\<lambda>authority.
            case context_fact ctx authority of
              Some root \<Rightarrow>
                (case payload root of
                   InstallationDeclared root_id signing_key _ _ \<Rightarrow>
                     if root_id = installation_id \<and> signing_key = ia_signing_key (author f) then Ok ()
                     else Err (AuthorityKindMismatch LocalInstallation)
                 | _ \<Rightarrow> Err (AuthorityKindMismatch LocalInstallation))
            | None \<Rightarrow> Err (MissingAuthority LocalInstallation))
      | _ \<Rightarrow> Err ScopeMismatch)"

definition validate_mailbox_root ::
  "AuthorityPolicy \<Rightarrow> SemanticFact \<Rightarrow> MailboxId \<Rightarrow> MailboxKind \<Rightarrow> 'r ReductionContext \<Rightarrow>
     AuthorityReason + unit" where
  "validate_mailbox_root policy f mailbox_id kind ctx =
     and_then (validate_local_fact f ctx) (\<lambda>_.
       if kind = HumanMailbox \<and> author_id f = local_installation policy
          \<and> mailbox_id \<noteq> local_human_mailbox policy
       then Err SubjectMismatch
       else
         let address = MailboxAddress (author_id f) mailbox_id;
             conflicts = length (facts_where ctx (\<lambda>c. mailbox_subject c = Some address));
             human_conflicts = creates_human_mailbox f \<and> author_id f \<noteq> local_installation policy
               \<and> length (facts_where ctx (\<lambda>c. author_id c = author_id f \<and> creates_human_mailbox c)) > 1
         in if conflicts > 1 \<or> human_conflicts then Err UniqueRootConflict else Ok ())"

definition validate_mailbox_binding ::
  "SemanticFact \<Rightarrow> MailboxId \<Rightarrow> 'r ReductionContext \<Rightarrow> AuthorityReason + unit" where
  "validate_mailbox_binding f mailbox_id ctx =
     and_then (validate_local_fact f ctx) (\<lambda>_.
       let expected = MailboxAddress (author_id f) mailbox_id in
       if fBex (fact_parents f) (\<lambda>parent.
            case context_fact ctx parent of
              Some c \<Rightarrow> mailbox_subject c = Some expected | None \<Rightarrow> False)
       then Ok () else Err SubjectMismatch)"

definition validate_peer_subject ::
  "SemanticFact \<Rightarrow> InstallationId \<Rightarrow> 'r ReductionContext \<Rightarrow> AuthorityReason + unit" where
  "validate_peer_subject f peer_id ctx =
     and_then (validate_local_fact f ctx) (\<lambda>_. check (peer_id \<noteq> author_id f) SubjectMismatch)"

definition validate_mailbox_grant ::
  "SemanticFact \<Rightarrow> GrantId \<Rightarrow> MailboxAddress \<Rightarrow> InstallationAddress \<Rightarrow> 'r ReductionContext \<Rightarrow>
     AuthorityReason + unit" where
  "validate_mailbox_grant f grant_id mailbox grantee ctx =
     (if scope f \<noteq> PeerAddressed mailbox \<or> author_id f \<noteq> ma_installation_id mailbox
         \<or> ia_installation_id grantee = ma_installation_id mailbox
      then Err ScopeMismatch
      else and_then (required_authority f MailboxOwner) (\<lambda>owner.
        and_then
          (case context_fact ctx owner of
             Some c \<Rightarrow>
               if mailbox_subject c = Some mailbox \<and> author c = author f then Ok ()
               else Err (AuthorityKindMismatch MailboxOwner)
           | None \<Rightarrow> Err (MissingAuthority MailboxOwner))
          (\<lambda>_.
            if length (facts_where ctx (grants_mailbox grant_id)) > 1 then Err UniqueRootConflict
            else if list_ex (concurrent_with ctx f)
                      (mailbox_lineage_revokes ctx mailbox (ia_installation_id grantee))
            then Err IncompleteRevocationFrontier
            else Ok ())))"

definition validate_mailbox_revoke ::
  "SemanticFact \<Rightarrow> GrantId \<Rightarrow> MailboxAddress \<Rightarrow> InstallationId \<Rightarrow> 'r ReductionContext \<Rightarrow>
     AuthorityReason + unit" where
  "validate_mailbox_revoke f grant_id mailbox grantee_id ctx =
     (if scope f \<noteq> PeerAddressed mailbox \<or> author_id f \<noteq> ma_installation_id mailbox
      then Err ScopeMismatch
      else and_then (required_authority f MailboxGrant) (\<lambda>grant.
        case context_fact ctx grant of
          Some grant_fact \<Rightarrow>
            if author grant_fact = author f \<and>
               (case payload grant_fact of
                  MailboxAccessGranted expected expected_mailbox grantee \<Rightarrow>
                    expected = grant_id \<and> expected_mailbox = mailbox
                    \<and> ia_installation_id grantee = grantee_id
                | _ \<Rightarrow> False)
            then Ok () else Err SubjectMismatch
        | None \<Rightarrow> Err (MissingAuthority MailboxGrant)))"

definition validate_grant_for_action ::
  "FactId \<Rightarrow> GrantId \<Rightarrow> MailboxAddress \<Rightarrow> 'r ReductionContext \<Rightarrow> AuthorityReason + unit" where
  "validate_grant_for_action grant grant_id target ctx =
     (case context_fact ctx grant of
        Some grant_fact \<Rightarrow>
          (case payload grant_fact of
             MailboxAccessGranted expected mailbox _ \<Rightarrow>
               if expected = grant_id \<and> mailbox = target then Ok () else Err SubjectMismatch
           | _ \<Rightarrow> Err SubjectMismatch)
      | None \<Rightarrow> Err (MissingAuthority MailboxGrant))"

definition validate_mailbox_observation ::
  "SemanticFact \<Rightarrow> GrantId \<Rightarrow> FactId \<Rightarrow> 'r ReductionContext \<Rightarrow> AuthorityReason + unit" where
  "validate_mailbox_observation f grant_id action_id ctx =
     (case scope f of
        PeerAddressed target \<Rightarrow>
          if author_id f \<noteq> ma_installation_id target \<or> action_id |\<notin>| fact_parents f
          then Err SubjectMismatch
          else and_then (required_authority f MailboxGrant) (\<lambda>grant.
            and_then (validate_grant_for_action grant grant_id target ctx) (\<lambda>_.
              if (case context_fact ctx grant of
                    Some grant_fact \<Rightarrow> author grant_fact \<noteq> author f | None \<Rightarrow> False)
              then Err SignerMismatch
              else and_then (ok_or SubjectMismatch (context_fact ctx action_id)) (\<lambda>action.
                if authority_of (causal action) MailboxGrant \<noteq> Some grant
                   \<or> scope action \<noteq> PeerAddressed target
                then Err SubjectMismatch else Ok ())))
      | _ \<Rightarrow> Err ScopeMismatch)"

definition validate_account_root ::
  "SemanticFact \<Rightarrow> AccountId \<Rightarrow> InstallationAddress \<Rightarrow> 'r ReductionContext \<Rightarrow> AuthorityReason + unit" where
  "validate_account_root f account_id creator ctx =
     and_then (validate_local_fact f ctx) (\<lambda>_.
       if creator \<noteq> author f then Err SubjectMismatch
       else if length (facts_where ctx (\<lambda>c. account_root_subject c = Some account_id)) > 1
       then Err UniqueRootConflict else Ok ())"

definition validate_device_grant ::
  "SemanticFact \<Rightarrow> AccountId \<Rightarrow> GrantId \<Rightarrow> InstallationAddress \<Rightarrow> 'r ReductionContext \<Rightarrow>
     AuthorityReason + unit" where
  "validate_device_grant f account_id grant_id device ctx =
     (if scope f \<noteq> AccountAddressed account_id then Err ScopeMismatch
      else and_then (required_authority f AccountCreator) (\<lambda>creator_fact.
        and_then
          (case context_fact ctx creator_fact of
             Some root \<Rightarrow>
               (case payload root of
                  HumanAccountCreated expected creator _ \<Rightarrow>
                    if expected = account_id then Ok creator else Err (AuthorityKindMismatch AccountCreator)
                | _ \<Rightarrow> Err (AuthorityKindMismatch AccountCreator))
           | None \<Rightarrow> Err (MissingAuthority AccountCreator))
          (\<lambda>creator_address.
            if creator_address \<noteq> author f \<or> ia_installation_id device = ia_installation_id creator_address
            then Err SignerMismatch
            else if length (facts_where ctx (grants_device grant_id)) > 1 then Err UniqueRootConflict
            else if list_ex (concurrent_with ctx f) (account_revokes ctx account_id (ia_installation_id device))
            then Err IncompleteRevocationFrontier
            else Ok ())))"

definition validate_device_acceptance ::
  "SemanticFact \<Rightarrow> AccountId \<Rightarrow> GrantId \<Rightarrow> InstallationAddress \<Rightarrow> 'r ReductionContext \<Rightarrow>
     AuthorityReason + unit" where
  "validate_device_acceptance f account_id grant_id device ctx =
     (if scope f \<noteq> AccountAddressed account_id \<or> author f \<noteq> device then Err SignerMismatch
      else and_then (required_authority f DeviceGrant) (\<lambda>grant.
        and_then
          (case context_fact ctx grant of
             Some grant_fact \<Rightarrow>
               (case payload grant_fact of
                  HumanDeviceGranted expected_account expected_grant expected_device _ _ \<Rightarrow>
                    if expected_account = account_id \<and> expected_grant = grant_id \<and> expected_device = device
                    then Ok () else Err SubjectMismatch
                | _ \<Rightarrow> Err SubjectMismatch)
           | None \<Rightarrow> Err (MissingAuthority DeviceGrant))
          (\<lambda>_.
            if list_ex (\<lambda>revoke. reaches_with_candidate ctx (fact_id revoke) (fact_id f) (fact_id f)
                               \<and> \<not> context_usably_reaches ctx (fact_id revoke) grant)
                 (account_revokes ctx account_id (ia_installation_id device))
            then Err InactiveAccountMembership else Ok ())))"

definition validate_device_revoke ::
  "SemanticFact \<Rightarrow> AccountId \<Rightarrow> GrantId \<Rightarrow> InstallationId \<Rightarrow> 'r ReductionContext \<Rightarrow>
     AuthorityReason + unit" where
  "validate_device_revoke f account_id grant_id device_id ctx =
     (if scope f \<noteq> AccountAddressed account_id then Err ScopeMismatch
      else and_then (required_authority f AccountCreator) (\<lambda>creator_fact.
        and_then (required_authority f DeviceGrant) (\<lambda>grant.
          let creator_matches =
                (case context_fact ctx creator_fact of
                   Some root \<Rightarrow>
                     (case payload root of
                        HumanAccountCreated expected creator _ \<Rightarrow> expected = account_id \<and> creator = author f
                      | _ \<Rightarrow> False)
                 | None \<Rightarrow> False);
              grant_matches =
                (case context_fact ctx grant of
                   Some grant_fact \<Rightarrow>
                     (case payload grant_fact of
                        HumanDeviceGranted expected_account expected_grant device _ _ \<Rightarrow>
                          expected_account = account_id \<and> expected_grant = grant_id
                          \<and> ia_installation_id device = device_id
                      | _ \<Rightarrow> False)
                 | None \<Rightarrow> False)
          in if creator_matches \<and> grant_matches then Ok () else Err SubjectMismatch)))"

definition validate_peer_action ::
  "SemanticFact \<Rightarrow> MailboxAddress \<Rightarrow> 'r ReductionContext \<Rightarrow> AuthorityReason + unit" where
  "validate_peer_action f target ctx =
     and_then (required_authority f MailboxGrant) (\<lambda>grant.
       and_then
         (case context_fact ctx grant of
            Some grant_fact \<Rightarrow>
              (case payload grant_fact of
                 MailboxAccessGranted grant_id mailbox grantee \<Rightarrow>
                   if mailbox = target \<and> grantee = author f then Ok grant_id else Err SubjectMismatch
               | _ \<Rightarrow> Err SubjectMismatch)
          | None \<Rightarrow> Err (MissingAuthority MailboxGrant))
         (\<lambda>grant_id.
           and_then (validate_grant_for_action grant grant_id target ctx) (\<lambda>_.
             if list_ex (\<lambda>revoke. \<not> reaches_with_candidate ctx (fact_id f) (fact_id revoke) (fact_id f))
                  (mailbox_revokes ctx grant_id)
             then Err RevokedMailboxGrant else Ok ())))"

definition validate_account_action ::
  "SemanticFact \<Rightarrow> AccountId \<Rightarrow> 'r ReductionContext \<Rightarrow> AuthorityReason + unit" where
  "validate_account_action f account_id ctx =
     and_then (required_authority f AccountMembership) (\<lambda>authority.
       case context_fact ctx authority of
         Some member \<Rightarrow>
           (case payload member of
              HumanAccountCreated expected creator _ \<Rightarrow>
                if expected = account_id \<and> creator = author f then Ok ()
                else Err InactiveAccountMembership
            | HumanDeviceAccepted expected _ device \<Rightarrow>
                if expected = account_id \<and> device = author f
                   \<and> account_action_survives_revokes (fact_id f) authority account_id
                       (ia_installation_id device) ctx
                then Ok () else Err InactiveAccountMembership
            | _ \<Rightarrow> Err InactiveAccountMembership)
       | None \<Rightarrow> Err (MissingAuthority AccountMembership))"

definition validate_scoped_action :: "SemanticFact \<Rightarrow> 'r ReductionContext \<Rightarrow> AuthorityReason + unit" where
  "validate_scoped_action f ctx =
     (case scope f of
        InstallationPrivate _ \<Rightarrow> validate_local_fact f ctx
      | PeerAddressed target \<Rightarrow> validate_peer_action f target ctx
      | AccountAddressed account_id \<Rightarrow> validate_account_action f account_id ctx
      | RemoteControl account_id _ \<Rightarrow> validate_account_action f account_id ctx)"

section \<open>Classification\<close>

definition failed_role :: "AuthorityReason \<Rightarrow> AuthorityRole fset" where
  "failed_role reason =
     (case reason of
        MissingAuthority role \<Rightarrow> {|role|}
      | AuthorityKindMismatch role \<Rightarrow> {|role|}
      | RevokedMailboxGrant \<Rightarrow> {|MailboxGrant|}
      | InactiveAccountMembership \<Rightarrow> {|AccountMembership|}
      | _ \<Rightarrow> {||})"

definition same_unique_root :: "SemanticFact \<Rightarrow> SemanticFact \<Rightarrow> bool" where
  "same_unique_root f c =
     (case payload f of
        InstallationDeclared i _ _ _ \<Rightarrow>
          (case payload c of InstallationDeclared j _ _ _ \<Rightarrow> i = j | _ \<Rightarrow> False)
      | MailboxCreated m kind _ \<Rightarrow>
          (case payload c of
             MailboxCreated n candidate_kind _ \<Rightarrow>
               author_id f = author_id c \<and> m = n \<or>
               kind = HumanMailbox \<and> candidate_kind = HumanMailbox \<and> author_id f = author_id c
           | _ \<Rightarrow> False)
      | MailboxAccessGranted g _ _ \<Rightarrow>
          (case payload c of MailboxAccessGranted h _ _ \<Rightarrow> g = h | _ \<Rightarrow> False)
      | HumanDeviceGranted _ g _ _ _ \<Rightarrow>
          (case payload c of HumanDeviceGranted _ h _ _ _ \<Rightarrow> g = h | _ \<Rightarrow> False)
      | HumanAccountCreated a _ _ \<Rightarrow>
          (case payload c of HumanAccountCreated b _ _ \<Rightarrow> a = b | _ \<Rightarrow> False)
      | _ \<Rightarrow> False)"

definition unique_conflict_participants :: "SemanticFact \<Rightarrow> 'r ReductionContext \<Rightarrow> FactId fset" where
  "unique_conflict_participants f ctx = fset_of_list (map fact_id (facts_where ctx (same_unique_root f)))"

definition validate_fact ::
  "AuthorityPolicy \<Rightarrow> SemanticFact \<Rightarrow> 'r ReductionContext \<Rightarrow> AuthorityReason + unit" where
  "validate_fact policy f ctx =
     (case payload f of
        InstallationDeclared installation_id _ _ _ \<Rightarrow> validate_installation_root f installation_id ctx
      | MailboxCreated mailbox_id kind _ \<Rightarrow> validate_mailbox_root policy f mailbox_id kind ctx
      | MailboxSessionBound mailbox_id _ _ \<Rightarrow> validate_mailbox_binding f mailbox_id ctx
      | MailboxContextRecorded mailbox_id _ \<Rightarrow> validate_mailbox_binding f mailbox_id ctx
      | PeerRouteSet peer _ _ _ \<Rightarrow> validate_peer_subject f (ia_installation_id peer) ctx
      | PeerRouteBlocked peer_id _ \<Rightarrow> validate_peer_subject f peer_id ctx
      | MailboxAccessGranted grant_id mailbox grantee \<Rightarrow>
          validate_mailbox_grant f grant_id mailbox grantee ctx
      | MailboxAccessRevoked grant_id mailbox grantee_id \<Rightarrow>
          validate_mailbox_revoke f grant_id mailbox grantee_id ctx
      | MailboxActionObserved grant_id action_id \<Rightarrow>
          validate_mailbox_observation f grant_id action_id ctx
      | HumanAccountCreated account_id creator _ \<Rightarrow> validate_account_root f account_id creator ctx
      | HumanDeviceGranted account_id grant_id device _ _ \<Rightarrow>
          validate_device_grant f account_id grant_id device ctx
      | HumanDeviceAccepted account_id grant_id device \<Rightarrow>
          validate_device_acceptance f account_id grant_id device ctx
      | HumanDeviceRevoked account_id grant_id device_id \<Rightarrow>
          validate_device_revoke f account_id grant_id device_id ctx
      | HumanAccountSelected account_id \<Rightarrow>
          and_then (validate_local_fact f ctx) (\<lambda>_. validate_account_action f account_id ctx)
      | _ \<Rightarrow> validate_scoped_action f ctx)"

definition classify_result ::
  "SemanticFact \<Rightarrow> 'r ReductionContext \<Rightarrow> AuthorityReason + unit \<Rightarrow> AuthorityReason DomainDecision" where
  "classify_result f ctx result =
     (case result of
        Ok _ \<Rightarrow> DomainProjected
      | Err reason \<Rightarrow>
          (case reason of
             UniqueRootConflict \<Rightarrow> DomainConflicted reason (unique_conflict_participants f ctx)
           | ScopeMismatch \<Rightarrow> DomainInvalid reason
           | SignerMismatch \<Rightarrow> DomainInvalid reason
           | SubjectMismatch \<Rightarrow> DomainInvalid reason
           | RootHasParents \<Rightarrow> DomainInvalid reason
           | _ \<Rightarrow> DomainUnauthorized reason (failed_role reason)))"

definition classify_fact ::
  "AuthorityPolicy \<Rightarrow> SemanticFact \<Rightarrow> 'r ReductionContext \<Rightarrow> AuthorityReason DomainDecision" where
  "classify_fact policy f ctx = classify_result f ctx (validate_fact policy f ctx)"

end
