(* ===== verification/Authority_Views.thy ===== *)
theory Authority_Views
  imports Authority
begin

text \<open>
  Authority views: the projection values of \<open>hq-reducer/src/authority.rs\<close>, their validating
  \<open>from_parts\<close> constructors, the projections and conflicts derived from stable decisions, and
  the authority policy as a domain reducer.
\<close>

section \<open>Views\<close>

datatype AuthorityProjectionKey =
    InstallationProjection InstallationId
  | MailboxProjection MailboxAddress
  | PeerRouteProjection InstallationId InstallationId
  | MailboxCapabilityProjection GrantId
  | AccountProjection AccountId
  | MembershipProjection AccountId InstallationId
  | AccountSelectionProjection InstallationId

record InstallationView =
  iv_root_fact :: FactId
  iv_signing_key :: SigningPublicKey
  iv_encryption_key :: EncryptionPublicKey
  iv_label :: "ShortText option"

record MailboxView =
  mv_create_fact :: FactId
  mv_kind :: MailboxKind
  mv_label :: "ShortText option"

datatype PeerRouteState = Routable | Blocked | RouteConflicted

record PeerRouteCandidate =
  rc_peer :: InstallationAddress
  rc_encryption_key :: EncryptionPublicKey
  rc_label :: "ShortText option"
  rc_relay_hints :: RelayHints

record PeerRouteView =
  prv_state :: PeerRouteState
  prv_frontier :: "FactId fset"
  prv_routes :: "(FactId, PeerRouteCandidate) fmap"
  prv_blocks :: "(FactId, ErrorCode) fmap"

definition peer_route_from_parts ::
  "PeerRouteState \<Rightarrow> FactId fset \<Rightarrow> (FactId, PeerRouteCandidate) fmap \<Rightarrow> (FactId, ErrorCode) fmap \<Rightarrow>
     PeerRouteView option" where
  "peer_route_from_parts state frontier routes blocks =
     (let retained = fBall frontier (\<lambda>f. f |\<in>| fmdom routes \<or> f |\<in>| fmdom blocks);
          frontier_blocks = fcard (ffilter (\<lambda>f. f |\<in>| fmdom blocks) frontier);
          frontier_routes = fcard (ffilter (\<lambda>f. f |\<in>| fmdom routes) frontier);
          expected = (if frontier_blocks > 0 then Blocked
                      else if frontier_routes = 1 then Routable else RouteConflicted);
          disjoint = fBall (fmdom routes) (\<lambda>f. f |\<notin>| fmdom blocks)
      in if retained \<and> disjoint \<and> state = expected
         then Some \<lparr>prv_state = state, prv_frontier = frontier, prv_routes = routes, prv_blocks = blocks\<rparr>
         else None)"

record CapabilityView =
  cv_grant_fact :: FactId
  cv_mailbox :: MailboxAddress
  cv_grantee :: InstallationAddress
  cv_active :: bool
  cv_revoke_frontier :: "FactId fset"
  cv_observed_actions :: "FactId fset"

definition capability_from_parts ::
  "FactId \<Rightarrow> MailboxAddress \<Rightarrow> InstallationAddress \<Rightarrow> bool \<Rightarrow> FactId fset \<Rightarrow> FactId fset \<Rightarrow>
     CapabilityView option" where
  "capability_from_parts grant_fact mailbox grantee active revoke_frontier observed_actions =
     (if active = (revoke_frontier = {||}) \<and> grant_fact |\<notin>| revoke_frontier
         \<and> grant_fact |\<notin>| observed_actions \<and> revoke_frontier |\<inter>| observed_actions = {||}
      then Some \<lparr>cv_grant_fact = grant_fact, cv_mailbox = mailbox, cv_grantee = grantee,
             cv_active = active, cv_revoke_frontier = revoke_frontier,
             cv_observed_actions = observed_actions\<rparr>
      else None)"

datatype MembershipState = Pending | Active | Revoked

record DeviceGrantView =
  dg_grant_fact :: FactId
  dg_device :: InstallationAddress
  dg_label :: "ShortText option"
  dg_relay_hints :: RelayHints

record MembershipView =
  ms_state :: MembershipState
  ms_frontier :: "FactId fset"
  ms_grants :: "(GrantId, DeviceGrantView) fmap"
  ms_acceptances :: "FactId fset"
  ms_revokes :: "FactId fset"
  ms_active_acceptances :: "FactId fset"
  ms_active_grants :: "GrantId fset"

definition membership_from_parts ::
  "MembershipState \<Rightarrow> FactId fset \<Rightarrow> (GrantId, DeviceGrantView) fmap \<Rightarrow> FactId fset \<Rightarrow> FactId fset \<Rightarrow>
     FactId fset \<Rightarrow> GrantId fset \<Rightarrow> MembershipView option" where
  "membership_from_parts state frontier grants acceptances revokes active_acceptances active_grants =
     (let grant_facts = fset_of_list (map (\<lambda>(g, v). dg_grant_fact v) (sorted_list_of_fmap grants));
          retained = grant_facts |\<union>| acceptances |\<union>| revokes;
          expected = (if active_acceptances \<noteq> {||} then Active
                      else if revokes \<noteq> {||} then Revoked else Pending);
          disjoint = grant_facts |\<inter>| acceptances = {||} \<and> grant_facts |\<inter>| revokes = {||}
                     \<and> acceptances |\<inter>| revokes = {||}
      in if state = expected \<and> active_acceptances |\<subseteq>| acceptances
            \<and> active_grants |\<subseteq>| fmdom grants
            \<and> (active_acceptances = {||}) = (active_grants = {||})
            \<and> disjoint \<and> frontier |\<subseteq>| retained
         then Some \<lparr>ms_state = state, ms_frontier = frontier, ms_grants = grants,
                ms_acceptances = acceptances, ms_revokes = revokes,
                ms_active_acceptances = active_acceptances, ms_active_grants = active_grants\<rparr>
         else None)"

datatype AuthorityProjection =
    InstallationValue InstallationView
  | MailboxValue MailboxView
  | PeerRouteValue PeerRouteView
  | MailboxCapabilityValue CapabilityView
  | AccountValue FactId InstallationAddress "ShortText option"
  | MembershipValue MembershipView
  | AccountSelectionValue "AccountId fset" "AccountId option"

primrec projection_key_rank :: "AuthorityProjectionKey \<Rightarrow> nat \<times> 256 word \<times> 256 word" where
  "projection_key_rank (InstallationProjection i) = (0, i, 0)"
| "projection_key_rank (MailboxProjection m) = (1, ma_installation_id m, ma_mailbox_id m)"
| "projection_key_rank (PeerRouteProjection owner peer) = (2, owner, peer)"
| "projection_key_rank (MailboxCapabilityProjection g) = (3, g, 0)"
| "projection_key_rank (AccountProjection a) = (4, a, 0)"
| "projection_key_rank (MembershipProjection a d) = (5, a, d)"
| "projection_key_rank (AccountSelectionProjection i) = (6, i, 0)"

lemma projection_key_rank_inj: "projection_key_rank a = projection_key_rank b \<Longrightarrow> a = b"
  by (cases a; cases b) (auto simp: MailboxAddress.expand)

instantiation AuthorityProjectionKey :: linorder
begin
definition less_eq_AuthorityProjectionKey :: "AuthorityProjectionKey \<Rightarrow> AuthorityProjectionKey \<Rightarrow> bool" where
  "a \<le> b \<longleftrightarrow> projection_key_rank a \<le> projection_key_rank b"
definition less_AuthorityProjectionKey :: "AuthorityProjectionKey \<Rightarrow> AuthorityProjectionKey \<Rightarrow> bool" where
  "a < b \<longleftrightarrow> projection_key_rank a < projection_key_rank b"
instance
  by standard (auto simp: less_eq_AuthorityProjectionKey_def less_AuthorityProjectionKey_def
      less_le_not_le linear intro: projection_key_rank_inj order.trans)
end

section \<open>Projections\<close>

definition aggregate_key :: "SemanticFact \<Rightarrow> AuthorityAggregateKey option" where
  "aggregate_key f =
     (case payload f of
        InstallationDeclared installation_id _ _ _ \<Rightarrow> Some (InstallationKey installation_id)
      | MailboxCreated mailbox_id _ _ \<Rightarrow> Some (MailboxKey (MailboxAddress (author_id f) mailbox_id))
      | PeerRouteSet peer _ _ _ \<Rightarrow> Some (PeerRouteKey (author_id f) (ia_installation_id peer))
      | PeerRouteBlocked peer_id _ \<Rightarrow> Some (PeerRouteKey (author_id f) peer_id)
      | MailboxAccessGranted grant_id _ _ \<Rightarrow> Some (MailboxCapabilityKey grant_id)
      | MailboxAccessRevoked grant_id _ _ \<Rightarrow> Some (MailboxCapabilityKey grant_id)
      | MailboxActionObserved grant_id _ \<Rightarrow> Some (MailboxCapabilityKey grant_id)
      | HumanAccountCreated account_id _ _ \<Rightarrow> Some (AccountKey account_id)
      | HumanDeviceGranted account_id _ device _ _ \<Rightarrow> Some (MembershipKey account_id (ia_installation_id device))
      | HumanDeviceAccepted account_id _ device \<Rightarrow> Some (MembershipKey account_id (ia_installation_id device))
      | HumanDeviceRevoked account_id _ device_id \<Rightarrow> Some (MembershipKey account_id device_id)
      | HumanAccountSelected _ \<Rightarrow> Some (AccountSelectionKey (author_id f))
      | _ \<Rightarrow> None)"

definition maximal_members :: "FactId fset \<Rightarrow> 'r ReductionContext \<Rightarrow> FactId fset" where
  "maximal_members members ctx =
     ffilter (\<lambda>c. \<not> fBex members (\<lambda>other. other \<noteq> c \<and> context_usably_reaches ctx c other)) members"

definition projected_facts :: "'r ReductionContext \<Rightarrow> SemanticFact list" where
  "projected_facts ctx = facts_where ctx (\<lambda>f. is_projected ctx (fact_id f))"

text \<open>The grouping loops: every projected fact with a key of the wanted kind joins its group.\<close>

definition group_members ::
  "(SemanticFact \<Rightarrow> 'g option) \<Rightarrow> SemanticFact list \<Rightarrow> ('g, FactId fset) fmap" where
  "group_members key fs =
     fold (\<lambda>f groups. case key f of Some g \<Rightarrow> entry_insert g (fact_id f) groups | None \<Rightarrow> groups) fs fmempty"

type_synonym AuthorityContribution = "(AuthorityProjectionKey, AuthorityProjection) ProjectionContribution"

definition root_contribution :: "SemanticFact \<Rightarrow> AuthorityContribution option" where
  "root_contribution f =
     (case payload f of
        InstallationDeclared installation_id signing_key encryption_key label \<Rightarrow>
          Some \<lparr>pc_key = InstallationProjection installation_id,
            pc_value = InstallationValue \<lparr>iv_root_fact = fact_id f, iv_signing_key = signing_key,
              iv_encryption_key = encryption_key, iv_label = label\<rparr>,
            pc_direct_support = {|fact_id f|}\<rparr>
      | MailboxCreated mailbox_id kind label \<Rightarrow>
          Some \<lparr>pc_key = MailboxProjection (MailboxAddress (author_id f) mailbox_id),
            pc_value = MailboxValue \<lparr>mv_create_fact = fact_id f, mv_kind = kind, mv_label = label\<rparr>,
            pc_direct_support = {|fact_id f|}\<rparr>
      | _ \<Rightarrow> None)"

definition peer_route_key :: "SemanticFact \<Rightarrow> (InstallationId \<times> InstallationId) option" where
  "peer_route_key f = (case aggregate_key f of Some (PeerRouteKey owner peer) \<Rightarrow> Some (owner, peer) | _ \<Rightarrow> None)"

definition is_route_block :: "'r ReductionContext \<Rightarrow> FactId \<Rightarrow> bool" where
  "is_route_block ctx i =
     (case context_fact ctx i of
        Some f \<Rightarrow> (case payload f of PeerRouteBlocked _ _ \<Rightarrow> True | _ \<Rightarrow> False) | None \<Rightarrow> False)"

definition route_candidate :: "'r ReductionContext \<Rightarrow> FactId \<Rightarrow> (FactId \<times> PeerRouteCandidate) option" where
  "route_candidate ctx i =
     (case context_fact ctx i of
        Some f \<Rightarrow>
          (case payload f of
             PeerRouteSet peer encryption_key label relay_hints \<Rightarrow>
               Some (i, \<lparr>rc_peer = peer, rc_encryption_key = encryption_key, rc_label = label,
                        rc_relay_hints = relay_hints\<rparr>)
           | _ \<Rightarrow> None)
      | None \<Rightarrow> None)"

definition block_reason :: "'r ReductionContext \<Rightarrow> FactId \<Rightarrow> (FactId \<times> ErrorCode) option" where
  "block_reason ctx i =
     (case context_fact ctx i of
        Some f \<Rightarrow> (case payload f of PeerRouteBlocked _ reason \<Rightarrow> Some (i, reason) | _ \<Rightarrow> None)
      | None \<Rightarrow> None)"

definition peer_route_contribution ::
  "'r ReductionContext \<Rightarrow> (InstallationId \<times> InstallationId) \<times> FactId fset \<Rightarrow> AuthorityContribution" where
  "peer_route_contribution ctx grouped =
     (case grouped of ((owner, peer), members) \<Rightarrow>
        let frontier = maximal_members members ctx;
            blocks = fcard (ffilter (is_route_block ctx) frontier);
            sets = fcard frontier - blocks;
            state = (if blocks > 0 then Blocked else if sets = 1 then Routable else RouteConflicted);
            routes = fmap_of_list (List.map_filter (route_candidate ctx) (sorted_list_of_fset members));
            block_reasons = fmap_of_list (List.map_filter (block_reason ctx) (sorted_list_of_fset members))
        in \<lparr>pc_key = PeerRouteProjection owner peer,
            pc_value = PeerRouteValue \<lparr>prv_state = state, prv_frontier = frontier, prv_routes = routes,
              prv_blocks = block_reasons\<rparr>,
            pc_direct_support = frontier\<rparr>)"

definition peer_route_projections :: "'r ReductionContext \<Rightarrow> AuthorityContribution list" where
  "peer_route_projections ctx =
     map (peer_route_contribution ctx)
       (sorted_list_of_fmap (group_members peer_route_key (projected_facts ctx)))"

definition observes_grant :: "GrantId \<Rightarrow> SemanticFact \<Rightarrow> FactId option" where
  "observes_grant g f =
     (case payload f of MailboxActionObserved h action_id \<Rightarrow> if h = g then Some action_id else None | _ \<Rightarrow> None)"

definition capability_contribution :: "'r ReductionContext \<Rightarrow> SemanticFact \<Rightarrow> AuthorityContribution option" where
  "capability_contribution ctx grant =
     (case payload grant of
        MailboxAccessGranted grant_id mailbox grantee \<Rightarrow>
          (let revokes = fset_of_list (map fact_id
                 (filter (\<lambda>f. is_projected ctx (fact_id f)) (mailbox_revokes ctx grant_id)));
               revoke_frontier = maximal_members revokes ctx;
               observed_actions = fset_of_list (List.map_filter (observes_grant grant_id) (projected_facts ctx));
               observations = fset_of_list (map fact_id
                 (filter (\<lambda>f. observes_grant grant_id f \<noteq> None) (projected_facts ctx)))
           in Some \<lparr>pc_key = MailboxCapabilityProjection grant_id,
                pc_value = MailboxCapabilityValue \<lparr>cv_grant_fact = fact_id grant, cv_mailbox = mailbox,
                  cv_grantee = grantee, cv_active = (revokes = {||}),
                  cv_revoke_frontier = revoke_frontier, cv_observed_actions = observed_actions\<rparr>,
                pc_direct_support = finsert (fact_id grant) (revokes |\<union>| observations)\<rparr>)
      | _ \<Rightarrow> None)"

definition capability_projections :: "'r ReductionContext \<Rightarrow> AuthorityContribution list" where
  "capability_projections ctx = List.map_filter (capability_contribution ctx) (projected_facts ctx)"

definition account_contribution :: "SemanticFact \<Rightarrow> AuthorityContribution option" where
  "account_contribution f =
     (case payload f of
        HumanAccountCreated account_id creator label \<Rightarrow>
          Some \<lparr>pc_key = AccountProjection account_id,
            pc_value = AccountValue (fact_id f) creator label, pc_direct_support = {|fact_id f|}\<rparr>
      | _ \<Rightarrow> None)"

definition account_projections :: "'r ReductionContext \<Rightarrow> AuthorityContribution list" where
  "account_projections ctx = List.map_filter account_contribution (projected_facts ctx)"

definition membership_key :: "SemanticFact \<Rightarrow> (AccountId \<times> InstallationId) option" where
  "membership_key f =
     (case aggregate_key f of Some (MembershipKey account device) \<Rightarrow> Some (account, device) | _ \<Rightarrow> None)"

definition device_grant_view :: "'r ReductionContext \<Rightarrow> FactId \<Rightarrow> (GrantId \<times> DeviceGrantView) option" where
  "device_grant_view ctx i =
     (case context_fact ctx i of
        Some f \<Rightarrow>
          (case payload f of
             HumanDeviceGranted _ grant_id device label relay_hints \<Rightarrow>
               Some (grant_id, \<lparr>dg_grant_fact = i, dg_device = device, dg_label = label,
                               dg_relay_hints = relay_hints\<rparr>)
           | _ \<Rightarrow> None)
      | None \<Rightarrow> None)"

definition accepted_grant :: "'r ReductionContext \<Rightarrow> FactId \<Rightarrow> GrantId option" where
  "accepted_grant ctx i =
     (case context_fact ctx i of
        Some f \<Rightarrow> (case payload f of HumanDeviceAccepted _ grant_id _ \<Rightarrow> Some grant_id | _ \<Rightarrow> None)
      | None \<Rightarrow> None)"

definition is_device_revoke :: "'r ReductionContext \<Rightarrow> FactId \<Rightarrow> bool" where
  "is_device_revoke ctx i =
     (case context_fact ctx i of
        Some f \<Rightarrow> (case payload f of HumanDeviceRevoked _ _ _ \<Rightarrow> True | _ \<Rightarrow> False) | None \<Rightarrow> False)"

definition active_membership_grants :: "FactId fset \<Rightarrow> 'r ReductionContext \<Rightarrow> GrantId fset" where
  "active_membership_grants acceptances ctx =
     fset_of_list (List.map_filter (accepted_grant ctx) (sorted_list_of_fset acceptances))"

definition membership_contribution ::
  "'r ReductionContext \<Rightarrow> (AccountId \<times> InstallationId) \<times> FactId fset \<Rightarrow> AuthorityContribution" where
  "membership_contribution ctx grouped =
     (case grouped of ((account, device), members) \<Rightarrow>
        let frontier = maximal_members members ctx;
            grants = fold (\<lambda>(g, v). fmupd g v)
              (List.map_filter (device_grant_view ctx) (sorted_list_of_fset members)) fmempty;
            acceptances = ffilter (\<lambda>i. accepted_grant ctx i \<noteq> None) members;
            revokes = ffilter (is_device_revoke ctx) members;
            active_acceptances = ffilter (\<lambda>i. accepted_grant ctx i \<noteq> None \<and>
              active_acceptance i account device ctx) members;
            active_grants = active_membership_grants active_acceptances ctx;
            has_revoke = fBex members (is_device_revoke ctx);
            state = (if active_acceptances \<noteq> {||} then Active else if has_revoke then Revoked else Pending)
        in \<lparr>pc_key = MembershipProjection account device,
            pc_value = MembershipValue \<lparr>ms_state = state, ms_frontier = frontier, ms_grants = grants,
              ms_acceptances = acceptances, ms_revokes = revokes,
              ms_active_acceptances = active_acceptances, ms_active_grants = active_grants\<rparr>,
            pc_direct_support = members\<rparr>)"

definition membership_projections :: "'r ReductionContext \<Rightarrow> AuthorityContribution list" where
  "membership_projections ctx =
     map (membership_contribution ctx)
       (sorted_list_of_fmap (group_members membership_key (projected_facts ctx)))"

definition selects_account :: "SemanticFact \<Rightarrow> AccountId option" where
  "selects_account f = (case payload f of HumanAccountSelected account_id \<Rightarrow> Some account_id | _ \<Rightarrow> None)"

definition selection_projections :: "AuthorityPolicy \<Rightarrow> 'r ReductionContext \<Rightarrow> AuthorityContribution list" where
  "selection_projections policy ctx =
     (let members = fset_of_list (map fact_id
            (filter (\<lambda>f. author_id f = local_installation policy \<and> selects_account f \<noteq> None)
              (projected_facts ctx)))
      in if members = {||} then []
         else
           let frontier = maximal_members members ctx;
               candidates = fset_of_list (List.map_filter
                 (\<lambda>i. case context_fact ctx i of Some f \<Rightarrow> selects_account f | None \<Rightarrow> None)
                 (sorted_list_of_fset frontier));
               active = (if fcard candidates = 1 then Some (hd (sorted_list_of_fset candidates)) else None)
           in [\<lparr>pc_key = AccountSelectionProjection (local_installation policy),
                pc_value = AccountSelectionValue candidates active, pc_direct_support = frontier\<rparr>])"

definition derive_authority_projections :: "AuthorityPolicy \<Rightarrow> 'r ReductionContext \<Rightarrow> AuthorityContribution list" where
  "derive_authority_projections policy ctx =
     List.map_filter root_contribution (projected_facts ctx) @ peer_route_projections ctx
     @ capability_projections ctx @ account_projections ctx @ membership_projections ctx
     @ selection_projections policy ctx"

section \<open>Conflicts and the policy\<close>

definition is_route_set :: "'r ReductionContext \<Rightarrow> FactId \<Rightarrow> bool" where
  "is_route_set ctx i = (route_candidate ctx i \<noteq> None)"

definition register_conflicted :: "'r ReductionContext \<Rightarrow> AuthorityAggregateKey \<Rightarrow> FactId fset \<Rightarrow> bool" where
  "register_conflicted ctx key frontier =
     (case key of
        PeerRouteKey _ _ \<Rightarrow> fcard frontier > 1 \<and> fBall frontier (is_route_set ctx)
      | AccountSelectionKey _ \<Rightarrow> fcard frontier > 1
      | _ \<Rightarrow> False)"

definition derive_authority_conflicts :: "'r ReductionContext \<Rightarrow> AuthorityReason ConflictObservation list" where
  "derive_authority_conflicts ctx =
     List.map_filter (\<lambda>(key, members).
         let frontier = maximal_members members ctx in
         if register_conflicted ctx key frontier
         then Some (ConflictObservation (DomainConflict ConcurrentRegisterConflict) frontier) else None)
       (sorted_list_of_fmap (group_members aggregate_key (projected_facts ctx)))"

definition authority_reducer ::
  "AuthorityPolicy \<Rightarrow>
     (AuthorityAggregateKey, AuthorityProjectionKey, AuthorityProjection, AuthorityReason) DomainReducer" where
  "authority_reducer policy =
     \<lparr>classify = classify_fact policy,
      aggregate_keys = (\<lambda>f _. case aggregate_key f of Some key \<Rightarrow> [key] | None \<Rightarrow> []),
      domain_projections = derive_authority_projections policy,
      domain_conflicts = derive_authority_conflicts, presentation_entries = (\<lambda>_. [])\<rparr>"

end
