(* ===== verification/Authority_Rules.thy ===== *)
theory Authority_Rules
  imports Authority_Views
begin

text \<open>
  What the authority validators accept. Each validator that reads the projected set or another
  fact is characterised by an equivalence, and the classification by the validator it runs.

  The policy reads the decisions of a round only through the projected set; the last sections
  compare its answers for different projected sets and discharge the policy contracts of
  \<open>Stabilisation\<close>.
\<close>

section \<open>Readings\<close>

lemma declares_installation_iff:
  "declares_installation i f \<longleftrightarrow> (\<exists>k e l. payload f = InstallationDeclared i k e l)"
  by (cases "payload f") (auto simp: declares_installation_def)

lemma mailbox_subject_iff:
  "mailbox_subject f = Some a \<longleftrightarrow> (\<exists>m k l. payload f = MailboxCreated m k l \<and> a = MailboxAddress (author_id f) m)"
  by (cases "payload f") (auto simp: mailbox_subject_def)

lemma account_root_subject_iff:
  "account_root_subject f = Some a \<longleftrightarrow> (\<exists>c l. payload f = HumanAccountCreated a c l)"
  by (cases "payload f") (auto simp: account_root_subject_def)

lemma grants_mailbox_iff: "grants_mailbox g f \<longleftrightarrow> (\<exists>m e. payload f = MailboxAccessGranted g m e)"
  by (cases "payload f") (auto simp: grants_mailbox_def)

lemma grants_device_iff: "grants_device g f \<longleftrightarrow> (\<exists>a d l h. payload f = HumanDeviceGranted a g d l h)"
  by (cases "payload f") (auto simp: grants_device_def)

lemma revokes_grant_iff: "revokes_grant g f \<longleftrightarrow> (\<exists>m d. payload f = MailboxAccessRevoked g m d)"
  by (cases "payload f") (auto simp: revokes_grant_def)

lemma revokes_device_iff: "revokes_device a d f \<longleftrightarrow> (\<exists>g. payload f = HumanDeviceRevoked a g d)"
  by (cases "payload f") (auto simp: revokes_device_def)

lemma observes_grant_iff: "observes_grant g f = Some a \<longleftrightarrow> payload f = MailboxActionObserved g a"
  by (cases "payload f") (auto simp: observes_grant_def)

lemma selects_account_iff: "selects_account f = Some a \<longleftrightarrow> payload f = HumanAccountSelected a"
  by (cases "payload f") (auto simp: selects_account_def)

lemma set_facts_where:
  "fact_set_wf (ctx_facts ctx) \<Longrightarrow>
     set (facts_where ctx P) = {f. context_fact ctx (fact_id f) = Some f \<and> P f}"
  by (auto simp: facts_where_def set_fact_set_facts context_fact_def)

lemma distinct_fact_set_facts:
  assumes "fact_set_wf s"
  shows "distinct (map fact_id (fact_set_facts s))"
proof -
  have "map fact_id (List.map_filter (\<lambda>(i, stored). stored_unique stored) es) =
      map fst (filter (\<lambda>(i, stored). stored_unique stored \<noteq> None) es)"
    if "\<forall>(i, stored) \<in> set es. \<forall>f. stored = Unique f \<longrightarrow> fact_id f = i" for es :: "(FactId \<times> StoredFact) list"
    using that by (induction es) (auto simp: map_filter_simps split: option.splits)
  moreover have "\<forall>(i, stored) \<in> set (sorted_list_of_fmap (entries s)). \<forall>f. stored = Unique f \<longrightarrow> fact_id f = i"
    using assms by (auto simp: set_sorted_list_of_fmap fact_set_wf_def)
  ultimately show ?thesis
    using distinct_sorted_fmap [of "entries s"] by (simp add: fact_set_facts_def distinct_map_filter)
qed

text \<open>The uniqueness tests count at most one stored candidate.\<close>

lemma facts_where_unique:
  assumes "\<not> 1 < length (facts_where ctx P)" and "f \<in> set (facts_where ctx P)" and "h \<in> set (facts_where ctx P)"
  shows "f = h"
proof -
  obtain x where "facts_where ctx P = [x] \<or> facts_where ctx P = []"
    using assms(1) by (cases "facts_where ctx P"; cases "tl (facts_where ctx P)") auto
  then show ?thesis using assms(2,3) by auto
qed

section \<open>Accepted facts\<close>

lemma classify_fact_projected_iff:
  "classify_fact policy f ctx = DomainProjected \<longleftrightarrow> validate_fact policy f ctx = Ok ()"
  by (auto simp: classify_fact_def classify_result_def split: sum.splits AuthorityReason.splits)

lemma required_authority_Ok_iff: "required_authority f role = Ok i \<longleftrightarrow> authority_of (causal f) role = Some i"
  by (simp add: required_authority_def)

lemma validate_local_fact_Ok_iff:
  "validate_local_fact f ctx = Ok () \<longleftrightarrow>
     scope f = InstallationPrivate (author_id f) \<and>
     (\<exists>authority root e l. authority_of (causal f) LocalInstallation = Some authority \<and>
        context_fact ctx authority = Some root \<and>
        payload root = InstallationDeclared (author_id f) (ia_signing_key (author f)) e l)"
proof (cases "scope f")
  case (InstallationPrivate i)
  have arm: "(case payload root of
          InstallationDeclared root_id signing_key _ _ \<Rightarrow>
            if root_id = i \<and> signing_key = ia_signing_key (author f) then Ok ()
            else Err (AuthorityKindMismatch LocalInstallation)
        | _ \<Rightarrow> Err (AuthorityKindMismatch LocalInstallation)) = Ok () \<longleftrightarrow>
      (\<exists>e l. payload root = InstallationDeclared i (ia_signing_key (author f)) e l)" for root
    by (cases "payload root") auto
  show ?thesis
    using InstallationPrivate
    by (auto simp: arm validate_local_fact_def and_then_Ok_iff required_authority_Ok_iff split: option.splits)
qed (simp_all add: validate_local_fact_def)

lemma validate_peer_action_Ok_iff:
  "validate_peer_action f target ctx = Ok () \<longleftrightarrow>
     (\<exists>grant grant_fact g. authority_of (causal f) MailboxGrant = Some grant \<and>
        context_fact ctx grant = Some grant_fact \<and>
        payload grant_fact = MailboxAccessGranted g target (author f) \<and>
        (\<forall>revoke \<in> set (mailbox_revokes ctx g).
           reaches_with_candidate ctx (fact_id f) (fact_id revoke) (fact_id f)))"
proof -
  have arm: "(case payload gf of
          MailboxAccessGranted g mailbox grantee \<Rightarrow>
            if mailbox = target \<and> grantee = author f then Ok g else Err SubjectMismatch
        | _ \<Rightarrow> Err SubjectMismatch) = Ok g \<longleftrightarrow> payload gf = MailboxAccessGranted g target (author f)" for gf g
    by (cases "payload gf") auto
  show ?thesis
  proof (cases "\<exists>grant grant_fact g. authority_of (causal f) MailboxGrant = Some grant \<and>
      context_fact ctx grant = Some grant_fact \<and> payload grant_fact = MailboxAccessGranted g target (author f)")
    case True
    then show ?thesis
      by (auto simp: validate_peer_action_def required_authority_def validate_grant_for_action_def list_ex_iff
          split: if_splits)
  next
    case False
    then show ?thesis
      by (auto simp: arm validate_peer_action_def and_then_Ok_iff required_authority_Ok_iff split: option.splits)
  qed
qed

lemma validate_account_action_Ok_iff:
  "validate_account_action f account ctx = Ok () \<longleftrightarrow>
     (\<exists>authority member. authority_of (causal f) AccountMembership = Some authority \<and>
        context_fact ctx authority = Some member \<and>
        ((\<exists>l. payload member = HumanAccountCreated account (author f) l) \<or>
         (\<exists>g. payload member = HumanDeviceAccepted account g (author f) \<and>
            account_action_survives_revokes (fact_id f) authority account (author_id f) ctx)))"
proof -
  have arm: "(case payload m of
          HumanAccountCreated expected creator _ \<Rightarrow>
            if expected = account \<and> creator = author f then Ok () else Err InactiveAccountMembership
        | HumanDeviceAccepted expected _ device \<Rightarrow>
            if expected = account \<and> device = author f
               \<and> account_action_survives_revokes (fact_id f) a account (ia_installation_id device) ctx
            then Ok () else Err InactiveAccountMembership
        | _ \<Rightarrow> Err InactiveAccountMembership) = Ok () \<longleftrightarrow>
      (\<exists>l. payload m = HumanAccountCreated account (author f) l) \<or>
      (\<exists>g. payload m = HumanDeviceAccepted account g (author f) \<and>
         account_action_survives_revokes (fact_id f) a account (author_id f) ctx)" for m a
    by (cases "payload m") auto
  show ?thesis
    by (auto simp: arm validate_account_action_def and_then_Ok_iff required_authority_Ok_iff split: option.splits)
qed

lemma validate_device_acceptance_Ok_iff:
  "validate_device_acceptance f account g device ctx = Ok () \<longleftrightarrow>
     scope f = AccountAddressed account \<and> author f = device \<and>
     (\<exists>grant grant_fact l h. authority_of (causal f) DeviceGrant = Some grant \<and>
        context_fact ctx grant = Some grant_fact \<and>
        payload grant_fact = HumanDeviceGranted account g device l h \<and>
        (\<forall>revoke \<in> set (account_revokes ctx account (ia_installation_id device)).
           reaches_with_candidate ctx (fact_id revoke) (fact_id f) (fact_id f) \<longrightarrow>
           context_usably_reaches ctx (fact_id revoke) grant))"
proof -
  have arm: "(case payload gf of
          HumanDeviceGranted expected_account expected_grant expected_device _ _ \<Rightarrow>
            if expected_account = account \<and> expected_grant = g \<and> expected_device = device
            then Ok () else Err SubjectMismatch
        | _ \<Rightarrow> Err SubjectMismatch) = Ok () \<longleftrightarrow> (\<exists>l h. payload gf = HumanDeviceGranted account g device l h)" for gf
    by (cases "payload gf") auto
  show ?thesis
    by (auto simp: arm validate_device_acceptance_def and_then_Ok_iff required_authority_Ok_iff list_ex_iff
        split: option.splits if_splits)
qed

section \<open>Scoped actions\<close>

text \<open>The facts that no earlier arm of the classification handles: they are judged by their scope.\<close>

definition is_scoped_action :: "SemanticFact \<Rightarrow> bool" where
  "is_scoped_action f =
     (case payload f of
        InstallationDeclared _ _ _ _ \<Rightarrow> False | MailboxCreated _ _ _ \<Rightarrow> False
      | MailboxSessionBound _ _ _ \<Rightarrow> False | MailboxContextRecorded _ _ \<Rightarrow> False
      | PeerRouteSet _ _ _ _ \<Rightarrow> False | PeerRouteBlocked _ _ \<Rightarrow> False
      | MailboxAccessGranted _ _ _ \<Rightarrow> False | MailboxAccessRevoked _ _ _ \<Rightarrow> False
      | MailboxActionObserved _ _ \<Rightarrow> False | HumanAccountCreated _ _ _ \<Rightarrow> False
      | HumanDeviceGranted _ _ _ _ _ \<Rightarrow> False | HumanDeviceAccepted _ _ _ \<Rightarrow> False
      | HumanDeviceRevoked _ _ _ \<Rightarrow> False | HumanAccountSelected _ \<Rightarrow> False
      | _ \<Rightarrow> True)"

lemma validate_scoped: "is_scoped_action f \<Longrightarrow> validate_fact policy f ctx = validate_scoped_action f ctx"
  by (cases "payload f") (simp_all add: is_scoped_action_def validate_fact_def)

section \<open>Reachability with a candidate\<close>

lemma reaches_with_candidate_iff:
  assumes "causal_index (ctx_graph ctx)"
  shows "reaches_with_candidate ctx a d c \<longleftrightarrow>
    (a = c \<or> is_projected ctx a) \<and> (a, d) \<in> (guarded_edges (ctx_graph ctx) (\<lambda>i. i = c \<or> is_projected ctx i))\<^sup>*"
  unfolding reaches_with_candidate_def Let_def by (rule guarded_search_iff [OF assms])

lemma context_usably_reaches_iff:
  assumes "causal_index (ctx_graph ctx)"
  shows "context_usably_reaches ctx a d \<longleftrightarrow>
    is_projected ctx a \<and> (a, d) \<in> (guarded_edges (ctx_graph ctx) (is_projected ctx))\<^sup>*"
  using usably_reaches_iff [OF assms, of "ctx_decisions ctx" a d]
  by (simp add: context_usably_reaches_def is_projected_def [abs_def])

lemma reaches_with_projected_candidate:
  "is_projected ctx c \<Longrightarrow> reaches_with_candidate ctx a d c = context_usably_reaches ctx a d"
proof -
  assume "is_projected ctx c"
  then have "(\<lambda>i. i = c \<or> is_projected ctx i) = is_projected ctx" by auto
  then show ?thesis
    by (simp only: reaches_with_candidate_def Let_def context_usably_reaches_def usably_reaches_def
        is_projected_def [abs_def])
qed

section \<open>Comparing rounds\<close>

lemma round_context_simps [simp]:
  "context_fact (round_context s ds) = fact_set_get s"
  "facts_where (round_context s ds) P = filter P (fact_set_facts s)"
  "is_projected (round_context s ds) = usable ds"
  by (simp_all add: context_fact_def facts_where_def is_projected_def fun_eq_iff)

lemmas revoke_queries = mailbox_revokes_def mailbox_lineage_revokes_def account_revokes_def

text \<open>The validators that never look at the decisions give the same answer in every round.\<close>

lemma static_validators:
  "validate_installation_root f i (round_context s ds) = validate_installation_root f i (round_context s S)"
  "validate_local_fact f (round_context s ds) = validate_local_fact f (round_context s S)"
  "validate_mailbox_root p f m k (round_context s ds) = validate_mailbox_root p f m k (round_context s S)"
  "validate_mailbox_binding f m (round_context s ds) = validate_mailbox_binding f m (round_context s S)"
  "validate_peer_subject f i (round_context s ds) = validate_peer_subject f i (round_context s S)"
  "validate_mailbox_grant f g b e (round_context s ds) = validate_mailbox_grant f g b e (round_context s S)"
  "validate_mailbox_revoke f g b i (round_context s ds) = validate_mailbox_revoke f g b i (round_context s S)"
  "validate_mailbox_observation f g i (round_context s ds) = validate_mailbox_observation f g i (round_context s S)"
  "validate_account_root f a e (round_context s ds) = validate_account_root f a e (round_context s S)"
  "validate_device_grant f a g e (round_context s ds) = validate_device_grant f a g e (round_context s S)"
  "validate_device_revoke f a g i (round_context s ds) = validate_device_revoke f a g i (round_context s S)"
  by (simp_all only: validate_installation_root_def validate_local_fact_def validate_mailbox_root_def
      validate_mailbox_binding_def validate_peer_subject_def validate_mailbox_grant_def
      validate_mailbox_revoke_def validate_grant_for_action_def validate_mailbox_observation_def
      validate_account_root_def validate_device_grant_def validate_device_revoke_def
      concurrent_with_def [abs_def] revoke_queries round_context_simps ReductionContext.select_convs)

lemma reaches_with_candidate_mono:
  assumes "fact_set_wf s" and "usable_within S ds" and "reaches_with_candidate (round_context s S) a d c"
  shows "reaches_with_candidate (round_context s ds) a d c"
  using assms(2,3) rtrancl_mono [OF guarded_edges_mono [of "\<lambda>i. i = c \<or> usable S i" "\<lambda>i. i = c \<or> usable ds i"]]
  by (auto simp: reaches_with_candidate_iff graph_of_causal_index [OF assms(1)] usable_within_def)

lemma context_usably_reaches_mono:
  assumes "fact_set_wf s" and "usable_within S ds" and "context_usably_reaches (round_context s S) a d"
  shows "context_usably_reaches (round_context s ds) a d"
  using assms(2,3) rtrancl_mono [OF guarded_edges_mono [of "usable S" "usable ds"]]
  by (auto simp: context_usably_reaches_iff graph_of_causal_index [OF assms(1)] usable_within_def)

lemma validate_peer_action_mono:
  assumes "fact_set_wf s" and "usable_within S ds" and "validate_peer_action f target (round_context s S) = Ok ()"
  shows "validate_peer_action f target (round_context s ds) = Ok ()"
  using assms(3) reaches_with_candidate_mono [OF assms(1,2)]
  by (fastforce simp: validate_peer_action_Ok_iff revoke_queries)

lemma validate_account_action_mono:
  assumes "fact_set_wf s" and "usable_within S ds" and "validate_account_action f account (round_context s S) = Ok ()"
  shows "validate_account_action f account (round_context s ds) = Ok ()"
proof -
  have "account_action_survives_revokes i a account d (round_context s ds)"
    if "account_action_survives_revokes i a account d (round_context s S)" for i a d
    using that reaches_with_candidate_mono [OF assms(1,2)] context_usably_reaches_mono [OF assms(1,2)]
    by (auto simp: account_action_survives_revokes_def list_all_iff revoke_queries)
  then show ?thesis using assms(3) by (auto simp: validate_account_action_Ok_iff)
qed

text \<open>Only an acceptance can be hurt by projecting more: a revocation may come to reach it.\<close>

lemma validate_fact_keep:
  assumes wf: "fact_set_wf s" and within: "usable_within S ds"
    and ok: "validate_fact policy f (round_context s S) = Ok ()"
    and new: "\<And>account g device grant revoke. payload f = HumanDeviceAccepted account g device \<Longrightarrow>
      authority_of (causal f) DeviceGrant = Some grant \<Longrightarrow>
      revoke \<in> set (account_revokes (round_context s S) account (ia_installation_id device)) \<Longrightarrow>
      reaches_with_candidate (round_context s ds) (fact_id revoke) (fact_id f) (fact_id f) \<Longrightarrow>
      reaches_with_candidate (round_context s S) (fact_id revoke) (fact_id f) (fact_id f)"
  shows "validate_fact policy f (round_context s ds) = Ok ()"
proof -
  note same = static_validators [where ds = ds and S = S]
  show ?thesis
  proof (cases "is_scoped_action f")
    case True
    then show ?thesis
      using ok validate_peer_action_mono [OF wf within] validate_account_action_mono [OF wf within]
      by (cases "scope f") (simp_all add: validate_scoped validate_scoped_action_def same)
  next
    case False
    show ?thesis
    proof (cases "payload f")
      case (HumanDeviceAccepted account g device)
      then show ?thesis
        using ok new context_usably_reaches_mono [OF wf within]
        by (fastforce simp: validate_fact_def validate_device_acceptance_Ok_iff revoke_queries)
    next
      case (HumanAccountSelected account)
      then show ?thesis
        using ok validate_account_action_mono [OF wf within]
        by (auto simp: validate_fact_def and_then_Ok_iff same)
    qed (use ok False in \<open>simp_all add: validate_fact_def is_scoped_action_def same\<close>)
  qed
qed

lemma candidate_path_structural:
  assumes "fact_set_wf s" and "reaches_with_candidate (round_context s ds) a d c"
  shows "(a, d) \<in> {(p, c). p |\<in>| graph_parents (graph_of s) c}\<^sup>*"
  using assms(2) guarded_path_structural
  by (auto simp: reaches_with_candidate_iff graph_of_causal_index [OF assms(1)])

lemma stable_candidate_path:
  assumes wf: "fact_set_wf s" and stable: "round_of s (graph_of s) domain S = S" and "usable S d"
    and path: "(a, d) \<in> {(p, c). p |\<in>| graph_parents (graph_of s) c}\<^sup>*"
  shows "reaches_with_candidate (round_context s S) a d d"
proof -
  have "(\<lambda>i. i = d \<or> usable S i) = usable S" using assms(3) by auto
  moreover have "usable S a \<and> (a, d) \<in> (guarded_edges (graph_of s) (usable S))\<^sup>*"
    by (rule guarded_path_closed [where ok = "usable S", OF _ path assms(3)]) (rule stable_parents_usable [OF wf stable])
  ultimately show ?thesis by (simp add: reaches_with_candidate_iff graph_of_causal_index [OF wf])
qed

text \<open>
  Fact sets in which no device acceptance follows a revocation of the same device. On them
  projecting more never hurts, and the loop is sure to settle.
\<close>

definition acceptances_precede_revokes :: "FactSet \<Rightarrow> bool" where
  "acceptances_precede_revokes s =
     list_all (\<lambda>f. case payload f of
         HumanDeviceAccepted account _ device \<Rightarrow>
           list_all (\<lambda>r. \<not> revokes_device account (ia_installation_id device) r
                        \<or> \<not> structurally_reaches (graph_of s) (fact_id r) (fact_id f)) (fact_set_facts s)
       | _ \<Rightarrow> True) (fact_set_facts s)"

lemma acceptance_not_after_revoke:
  assumes wf: "fact_set_wf s" and good: "acceptances_precede_revokes s"
    and get: "fact_set_get s (fact_id f) = Some f" and f: "payload f = HumanDeviceAccepted account g device"
    and r: "r \<in> set (account_revokes (round_context s S) account (ia_installation_id device))"
  shows "\<not> reaches_with_candidate (round_context s ds) (fact_id r) (fact_id f) c"
proof
  assume "reaches_with_candidate (round_context s ds) (fact_id r) (fact_id f) c"
  then have "(fact_id r, fact_id f) \<in> {(p, c). p |\<in>| graph_parents (graph_of s) c}\<^sup>*"
    by (rule candidate_path_structural [OF wf])
  moreover have r': "r \<in> set (fact_set_facts s)" "revokes_device account (ia_installation_id device) r"
    using r by (auto simp: revoke_queries)
  moreover have "f \<in> set (fact_set_facts s)" using get by (simp add: set_fact_set_facts [OF wf])
  ultimately have "fact_id r |\<notin>| vertices (graph_of s)"
    using good f by (auto simp: acceptances_precede_revokes_def list_all_iff
        causal_index.structurally_reaches_iff [OF graph_of_causal_index [OF wf]])
  moreover have "fact_set_contains s (fact_id r)"
    using r'(1) fact_set_get_contains by (auto simp: set_fact_set_facts [OF wf])
  ultimately show False using graph_vertices [of s] by auto
qed

lemma classify_fact_same:
  assumes "usable S = usable ds"
  shows "classify_fact policy f (round_context s S) = classify_fact policy f (round_context s ds)"
proof -
  have "reaches_with_candidate (round_context s S) = reaches_with_candidate (round_context s ds)"
    by (intro ext) (simp add: reaches_with_candidate_def assms)
  moreover have "context_usably_reaches (round_context s S) = context_usably_reaches (round_context s ds)"
    by (intro ext) (simp add: context_usably_reaches_def usably_reaches_def assms)
  ultimately have "validate_fact policy f (round_context s S) = validate_fact policy f (round_context s ds)"
    by (simp only: validate_fact_def validate_scoped_action_def validate_peer_action_def
        validate_account_action_def account_action_survives_revokes_def validate_device_acceptance_def
        validate_grant_for_action_def static_validators [where ds = S and S = ds] revoke_queries round_context_simps)
  then show ?thesis
    by (simp only: classify_fact_def classify_result_def unique_conflict_participants_def round_context_simps)
qed

end
