(* ===== verification/Authority_Layer.thy ===== *)
theory Authority_Layer
  imports Authority_Rules
begin

text \<open>
  What the authority policy guarantees to every policy built on it. The authority, agent and
  conversation policies all run \<open>classify_fact\<close> first and go on only with the facts it projects; the
  locale \<open>authority_layer\<close> states that contract and derives who may act and which roots are unique.
\<close>

section \<open>Stable contexts\<close>

abbreviation arrived :: "SemanticFact list \<Rightarrow> 'r Decisions \<Rightarrow> 'r ReductionContext" where
  "arrived fs ds \<equiv> round_context (from_facts fs) ds"

abbreviation stable_decisions :: "('a, 'k, 'v, 'r) DomainReducer \<Rightarrow> SemanticFact list \<Rightarrow> 'r Decisions \<Rightarrow> bool" where
  "stable_decisions domain fs ds \<equiv> round_of (from_facts fs) (graph_of (from_facts fs)) domain ds = ds"

lemma set_projected_facts:
  "set (projected_facts (arrived fs ds)) =
     {f. fact_set_get (from_facts fs) (fact_id f) = Some f \<and> usable ds (fact_id f)}"
  by (auto simp: projected_facts_def set_fact_set_facts)

lemma stored_was_received: "fact_set_get (from_facts fs) i = Some f \<Longrightarrow> f \<in> set fs"
  by (auto simp: fact_set_get_Some_iff from_facts_absorbed absorbed_Unique_iff)

lemma stored_card: "card {i. fact_set_contains (from_facts fs) i} \<le> length fs"
proof -
  have "{i. fact_set_contains (from_facts fs) i} = fact_id ` set fs" by (auto simp: contains_from_facts)
  then show ?thesis using card_image_le [of "set fs" fact_id] card_length [of fs] by simp
qed

lemma reduction_fails:
  assumes "stabilize_decisions (from_facts fs) (graph_of (from_facts fs)) domain = Err e"
  shows "reduce_complete fs domain = Some (Err NonConvergentDomainDecisions)"
proof -
  note ix = graph_of_causal_index [OF fact_set_wf_from_facts, of fs]
  obtain order where "dependency_order (graph_of (from_facts fs)) = Some order"
    using causal_index.dependency_order_canonical [OF ix] by blast
  then show ?thesis
    using assms stabilize_decisions_Err [OF assms] by (simp add: reduce_complete_def Let_def)
qed

section \<open>Unique roots\<close>

text \<open>
  The subject a root fact declares. Two stored facts that declare the same subject exclude each
  other, whatever their decisions.
\<close>

datatype RootSubject =
    InstallationRoot InstallationId
  | MailboxRoot MailboxAddress
  | MailboxGrantRoot GrantId
  | AccountRoot AccountId
  | DeviceGrantRoot GrantId

definition root_subject :: "SemanticFact \<Rightarrow> RootSubject option" where
  "root_subject f =
     (case payload f of
        InstallationDeclared i _ _ _ \<Rightarrow> Some (InstallationRoot i)
      | MailboxCreated m _ _ \<Rightarrow> Some (MailboxRoot (MailboxAddress (author_id f) m))
      | MailboxAccessGranted g _ _ \<Rightarrow> Some (MailboxGrantRoot g)
      | HumanAccountCreated a _ _ \<Rightarrow> Some (AccountRoot a)
      | HumanDeviceGranted _ g _ _ _ \<Rightarrow> Some (DeviceGrantRoot g)
      | _ \<Rightarrow> None)"

lemma root_subject_iff:
  "root_subject f = Some (InstallationRoot i) \<longleftrightarrow> declares_installation i f"
  "root_subject f = Some (MailboxRoot a) \<longleftrightarrow> mailbox_subject f = Some a"
  "root_subject f = Some (MailboxGrantRoot g) \<longleftrightarrow> grants_mailbox g f"
  "root_subject f = Some (AccountRoot h) \<longleftrightarrow> account_root_subject f = Some h"
  "root_subject f = Some (DeviceGrantRoot g) \<longleftrightarrow> grants_device g f"
  by (cases "payload f"; simp add: root_subject_def declares_installation_def mailbox_subject_def
      grants_mailbox_def account_root_subject_def grants_device_def)+

lemma valid_root_counts:
  assumes "validate_fact policy f ctx = Ok ()" and "root_subject f = Some subject"
  shows "\<not> 1 < length (facts_where ctx (\<lambda>h. root_subject h = Some subject))"
proof (cases subject)
  case (InstallationRoot i)
  then show ?thesis
    using assms by (auto simp: root_subject_iff declares_installation_iff [of i f] validate_fact_def
        validate_installation_root_def split: if_splits)
next
  case (MailboxRoot a)
  then show ?thesis
    using assms by (auto simp: root_subject_iff mailbox_subject_iff [of f] validate_fact_def
        validate_mailbox_root_def and_then_Ok_iff Let_def split: if_splits)
next
  case (MailboxGrantRoot g)
  then show ?thesis
    using assms by (auto simp: root_subject_iff grants_mailbox_iff [of g f] validate_fact_def
        validate_mailbox_grant_def and_then_Ok_iff split: if_splits)
next
  case (AccountRoot a)
  then show ?thesis
    using assms by (auto simp: root_subject_iff account_root_subject_iff [of f] validate_fact_def
        validate_account_root_def and_then_Ok_iff split: if_splits)
next
  case (DeviceGrantRoot g)
  then show ?thesis
    using assms by (auto simp: root_subject_iff grants_device_iff [of g f] validate_fact_def
        validate_device_grant_def and_then_Ok_iff split: if_splits)
qed

section \<open>Groups and frontiers\<close>

lemma group_members_index:
  "i |\<in>| index_get (group_members key fs) g \<longleftrightarrow> (\<exists>f \<in> set fs. fact_id f = i \<and> key f = Some g)"
proof -
  have "i |\<in>| index_get (fold (\<lambda>f groups. case key f of Some g \<Rightarrow> entry_insert g (fact_id f) groups
        | None \<Rightarrow> groups) fs m) g \<longleftrightarrow>
      i |\<in>| index_get m g \<or> (\<exists>f \<in> set fs. fact_id f = i \<and> key f = Some g)" for m
  proof (induction fs arbitrary: m)
    case (Cons f fs)
    then show ?case by (cases "key f") (auto simp: index_get_def entry_insert_def)
  qed simp
  from this [of fmempty] show ?thesis by (simp add: group_members_def index_get_def)
qed

lemma group_members_occupied: "fmlookup (group_members key fs) g = Some M \<Longrightarrow> M \<noteq> {||}"
proof -
  have "fmlookup (fold (\<lambda>f groups. case key f of Some g \<Rightarrow> entry_insert g (fact_id f) groups
        | None \<Rightarrow> groups) fs m) g = Some M \<Longrightarrow> fmlookup m g \<noteq> Some {||} \<Longrightarrow> M \<noteq> {||}" for m
  proof (induction fs arbitrary: m)
    case (Cons f fs)
    then show ?case by (cases "key f") (auto simp: entry_insert_def split: if_splits)
  qed auto
  then show "fmlookup (group_members key fs) g = Some M \<Longrightarrow> M \<noteq> {||}" by (simp add: group_members_def)
qed

lemma group_members_iff:
  assumes "fmlookup (group_members key fs) g = Some M"
  shows "i |\<in>| M \<longleftrightarrow> (\<exists>f \<in> set fs. fact_id f = i \<and> key f = Some g)"
  using group_members_index [of i key fs g] assms by (simp add: index_get_def)

lemma maximal_members_eq: "maximal_members M ctx = causal_maxima ctx M"
  by (simp add: maximal_members_def causal_maxima_def)

lemma group_usable:
  assumes "fmlookup (group_members key (projected_facts (arrived fs ds))) g = Some M" and "i |\<in>| M"
  shows "usable ds i"
  using assms by (auto simp: group_members_iff [OF assms(1)] set_projected_facts)

lemma group_frontier:
  assumes "stable_decisions domain fs ds"
    and "fmlookup (group_members key (projected_facts (arrived fs ds))) g = Some M"
  shows "maximal_members M (arrived fs ds) \<noteq> {||}" and "maximal_members M (arrived fs ds) |\<subseteq>| M"
  using causal_maxima_nonempty [OF assms(1) group_members_occupied [OF assms(2)]] group_usable [OF assms(2)]
    causal_maxima_subset [of "arrived fs ds" M]
  by (auto simp: maximal_members_eq)

section \<open>The contract\<close>

locale authority_layer =
  fixes domain :: "('a, 'k :: linorder, 'v, 'r) DomainReducer" and policy :: AuthorityPolicy
  assumes layered: "classify domain f ctx = DomainProjected \<Longrightarrow> validate_fact policy f ctx = Ok ()"
begin

lemma projected_valid:
  assumes "stable_decisions domain fs ds" and "usable ds i"
  obtains f where "fact_set_get (from_facts fs) i = Some f" and "fact_id f = i"
    and "\<And>p. p |\<in>| fact_parents f \<Longrightarrow> usable ds p" and "classify domain f (arrived fs ds) = DomainProjected"
    and "validate_fact policy f (arrived fs ds) = Ok ()"
proof -
  obtain f where f: "fact_set_get (from_facts fs) i = Some f" "\<forall>p. p |\<in>| fact_parents f \<longrightarrow> usable ds p"
      "classify domain f (arrived fs ds) = DomainProjected"
    using stable_usable_iff [OF fact_set_wf_from_facts assms(1), of i] assms(2) by auto
  with that show thesis
    using fact_set_get_id [OF fact_set_wf_from_facts f(1)] layered [OF f(3)] by auto
qed

lemma projected_factD:
  assumes "stable_decisions domain fs ds" and "f \<in> set (projected_facts (arrived fs ds))"
  shows "fact_set_get (from_facts fs) (fact_id f) = Some f" and "usable ds (fact_id f)"
    and "validate_fact policy f (arrived fs ds) = Ok ()" and "p |\<in>| fact_parents f \<Longrightarrow> usable ds p"
    and "classify domain f (arrived fs ds) = DomainProjected"
  using assms projected_valid [OF assms(1), of "fact_id f"] by (auto simp: set_projected_facts)

lemma unique_root:
  assumes "stable_decisions domain fs ds" and "f \<in> set (projected_facts (arrived fs ds))"
    and "fact_set_get (from_facts fs) i = Some h" and "root_subject f = Some subject" and "root_subject h = Some subject"
  shows "h = f"
proof -
  have "fact_id h = i" using fact_set_get_id [OF fact_set_wf_from_facts assms(3)] .
  then have "h \<in> set (facts_where (arrived fs ds) (\<lambda>h. root_subject h = Some subject))"
    using assms by (simp add: set_fact_set_facts)
  moreover have "f \<in> set (facts_where (arrived fs ds) (\<lambda>h. root_subject h = Some subject))"
    using assms projected_factD(1) [OF assms(1,2)] by (simp add: set_fact_set_facts)
  ultimately show ?thesis
    using facts_where_unique [OF valid_root_counts [OF projected_factD(3) [OF assms(1,2)] assms(4)]] by blast
qed

lemma peer_action_cites_grant:
  assumes run: "reduce_complete fs domain = Some (Ok r)"
    and get: "fact_set_get (rr_facts r) i = Some f" and usable: "usable (rr_decisions r) i"
    and action: "is_scoped_action f" and target: "scope f = PeerAddressed target" and wf: "causal_wf (causal f)"
  shows "\<exists>grant grant_fact g. authority_of (causal f) MailboxGrant = Some grant \<and>
    fact_set_get (rr_facts r) grant = Some grant_fact \<and> usable (rr_decisions r) grant \<and>
    payload grant_fact = MailboxAccessGranted g target (author f) \<and>
    (\<forall>j revoke. fact_set_get (rr_facts r) j = Some revoke \<longrightarrow> revokes_grant g revoke \<longrightarrow>
       usably_reaches (rr_graph r) (rr_decisions r) i j)"
proof -
  let ?ctx = "arrived fs (rr_decisions r)"
  note r = reduce_complete_OkD(1,2) [OF run]
  from projected_valid [OF report_stable [OF run] usable] get have f: "fact_id f = i"
      "\<And>p. p |\<in>| fact_parents f \<Longrightarrow> usable (rr_decisions r) p" "validate_fact policy f ?ctx = Ok ()"
    by (auto simp: r)
  from f(3) obtain grant grant_fact g where g: "authority_of (causal f) MailboxGrant = Some grant"
      "fact_set_get (from_facts fs) grant = Some grant_fact" "payload grant_fact = MailboxAccessGranted g target (author f)"
      "\<And>revoke. revoke \<in> set (mailbox_revokes ?ctx g) \<Longrightarrow> reaches_with_candidate ?ctx i (fact_id revoke) i"
    by (auto simp: validate_scoped [OF action] validate_scoped_action_def target validate_peer_action_Ok_iff f(1))
  have "usably_reaches (rr_graph r) (rr_decisions r) i j"
    if "fact_set_get (rr_facts r) j = Some revoke" and "revokes_grant g revoke" for j revoke
  proof -
    have j: "fact_id revoke = j" using that(1) fact_set_get_id [OF fact_set_wf_from_facts] by (simp add: r)
    then have "revoke \<in> set (mailbox_revokes ?ctx g)"
      using that by (simp add: mailbox_revokes_def set_fact_set_facts r)
    then show ?thesis
      using g(4) [of revoke] reaches_with_projected_candidate [of ?ctx i i j] usable j
      by (simp add: context_usably_reaches_def r)
  qed
  moreover have "usable (rr_decisions r) grant" using f(2) causal_wf_authority [OF wf g(1)] by simp
  ultimately show ?thesis using g(1-3) by (auto simp: r)
qed

lemma account_action_cites_member:
  assumes run: "reduce_complete fs domain = Some (Ok r)"
    and get: "fact_set_get (rr_facts r) i = Some f" and usable: "usable (rr_decisions r) i"
    and action: "is_scoped_action f" and wf: "causal_wf (causal f)"
    and target: "scope f = AccountAddressed account \<or> (\<exists>home. scope f = RemoteControl account home)"
  shows "\<exists>authority member. authority_of (causal f) AccountMembership = Some authority \<and>
    fact_set_get (rr_facts r) authority = Some member \<and> usable (rr_decisions r) authority \<and>
    ((\<exists>l. payload member = HumanAccountCreated account (author f) l) \<or>
     (\<exists>g. payload member = HumanDeviceAccepted account g (author f) \<and>
        (\<forall>j revoke. fact_set_get (rr_facts r) j = Some revoke \<longrightarrow> revokes_device account (author_id f) revoke \<longrightarrow>
           usably_reaches (rr_graph r) (rr_decisions r) i j \<or>
           usably_reaches (rr_graph r) (rr_decisions r) j authority)))"
proof -
  let ?ctx = "arrived fs (rr_decisions r)"
  note r = reduce_complete_OkD(1,2) [OF run]
  from projected_valid [OF report_stable [OF run] usable] get have f: "fact_id f = i"
      "\<And>p. p |\<in>| fact_parents f \<Longrightarrow> usable (rr_decisions r) p" "validate_fact policy f ?ctx = Ok ()"
    by (auto simp: r)
  from f(3) have "validate_account_action f account ?ctx = Ok ()"
    using target by (auto simp: validate_scoped [OF action] validate_scoped_action_def)
  then obtain a m where a: "authority_of (causal f) AccountMembership = Some a"
      "fact_set_get (from_facts fs) a = Some m"
      and alt: "(\<exists>l. payload m = HumanAccountCreated account (author f) l) \<or>
        (\<exists>g. payload m = HumanDeviceAccepted account g (author f) \<and>
           account_action_survives_revokes i a account (author_id f) ?ctx)"
    by (auto simp: validate_account_action_Ok_iff f(1))
  have "usably_reaches (rr_graph r) (rr_decisions r) i j \<or> usably_reaches (rr_graph r) (rr_decisions r) j a"
    if "account_action_survives_revokes i a account (author_id f) ?ctx"
      and "fact_set_get (rr_facts r) j = Some revoke" and "revokes_device account (author_id f) revoke" for j revoke
  proof -
    have j: "fact_id revoke = j" using that(2) fact_set_get_id [OF fact_set_wf_from_facts] by (simp add: r)
    then have "revoke \<in> set (account_revokes ?ctx account (author_id f))"
      using that by (simp add: account_revokes_def set_fact_set_facts r)
    then show ?thesis
      using that(1) reaches_with_projected_candidate [of ?ctx i i j] usable j
      by (auto simp: account_action_survives_revokes_def list_all_iff context_usably_reaches_def r)
  qed
  moreover have "usable (rr_decisions r) a" using f(2) causal_wf_authority [OF wf a(1)] by simp
  ultimately show ?thesis using a alt unfolding r by blast
qed

lemma root_excludes:
  assumes "reduce_complete fs domain = Some (Ok r)"
    and "fact_set_get (rr_facts r) i = Some f" and "usable (rr_decisions r) i"
    and "fact_set_get (rr_facts r) j = Some h"
    and "root_subject f = Some subject" and "root_subject h = Some subject"
  shows "j = i \<and> h = f"
proof -
  note id = fact_set_get_id [OF fact_set_wf_from_facts]
  have i: "fact_id f = i" and j: "fact_id h = j"
    using assms(2,4) id by (simp_all add: reduce_complete_OkD(1) [OF assms(1)])
  have "f \<in> set (projected_facts (arrived fs (rr_decisions r)))"
    using assms(2,3) i by (simp add: set_projected_facts reduce_complete_OkD(1) [OF assms(1)])
  from unique_root [OF report_stable [OF assms(1)] this, of j h subject] show ?thesis
    using assms i j by (simp add: reduce_complete_OkD(1) [OF assms(1)])
qed

text \<open>The two comparisons of rounds that the contracts of \<open>Stabilisation\<close> ask of the authority part.\<close>

lemma authority_keeps:
  assumes wf: "fact_set_wf s" and stable: "round_of s (graph_of s) domain S = S" and within: "usable_within S ds"
    and get: "fact_set_get s (fact_id f) = Some f" and usable: "usable S (fact_id f)"
  shows "validate_fact policy f (round_context s ds) = Ok ()"
proof -
  have "validate_fact policy f (round_context s S) = Ok ()"
    using stable_usable_iff [OF wf stable, of "fact_id f"] get usable layered by auto
  from validate_fact_keep [OF wf within this] stable_candidate_path [OF wf stable usable]
    candidate_path_structural [OF wf]
  show ?thesis by blast
qed

lemma authority_monotone:
  assumes wf: "fact_set_wf s" and good: "acceptances_precede_revokes s" and get: "fact_set_get s (fact_id f) = Some f"
    and within: "usable_within ds ds'" and ok: "classify domain f (round_context s ds) = DomainProjected"
  shows "validate_fact policy f (round_context s ds') = Ok ()"
  using layered [OF ok]
  by (rule validate_fact_keep [OF wf within]) (blast dest: acceptance_not_after_revoke [OF wf good get])

end

text \<open>Whatever a layered policy projects, the authority policy alone projects as well.\<close>

sublocale authority_layer \<subseteq> under_authority: refining_policy domain "authority_reducer policy" "\<lambda>_. True"
  by unfold_locales (simp add: authority_reducer_def classify_fact_projected_iff authority_keeps)

text \<open>The policy of installation 1 in the sample batches.\<close>

definition sample_authority_policy :: AuthorityPolicy where
  "sample_authority_policy = \<lparr>local_installation = 1, local_human_mailbox = 9\<rparr>"

end
