(* ===== verification/Authority_Reduction.thy ===== *)
theory Authority_Reduction
  imports Authority_Layer
begin

text \<open>
  Properties of complete authority reduction: who may act, which roots are unique, what the views
  of routes, capabilities and memberships say, and that the reduction always produces a report
  unless its decisions fail to settle.
\<close>

section \<open>The policy as its own first layer\<close>

lemma authority_reducer_fields [simp]:
  "classify (authority_reducer policy) = classify_fact policy"
  "domain_projections (authority_reducer policy) = derive_authority_projections policy"
  "presentation_entries (authority_reducer policy) ctx = []"
  by (simp_all add: authority_reducer_def)

interpretation plain: authority_layer "authority_reducer policy" policy for policy
  by unfold_locales (simp add: classify_fact_projected_iff)

interpretation authority: conservative_policy "authority_reducer policy" "\<lambda>_. True" for policy
  by unfold_locales (simp add: classify_fact_projected_iff plain.authority_keeps)

interpretation ordered_authority: monotone_policy "authority_reducer policy" acceptances_precede_revokes for policy
proof
  fix s f
  fix ds ds' :: "AuthorityReason Decisions"
  show "classify (authority_reducer policy) f (round_context s ds) = classify (authority_reducer policy) f (round_context s ds')"
    if "usable_within ds ds'" and "usable_within ds' ds"
  proof -
    have "usable ds = usable ds'" using that by (auto simp: usable_within_def fun_eq_iff)
    from classify_fact_same [OF this] show ?thesis by (simp only: authority_reducer_fields)
  qed
  assume "fact_set_wf s" and "acceptances_precede_revokes s" and "fact_set_get s (fact_id f) = Some f"
    and "usable_within ds ds'" and "classify (authority_reducer policy) f (round_context s ds) = DomainProjected"
  from plain.authority_monotone [OF this]
  show "classify (authority_reducer policy) f (round_context s ds') = DomainProjected"
    by (simp add: classify_fact_projected_iff)
qed

section \<open>Contributions\<close>

lemma root_contribution_Some:
  assumes "root_contribution f = Some c"
  obtains i where "root_subject f = Some (InstallationRoot i)" "pc_key c = InstallationProjection i"
      "pc_direct_support c = {|fact_id f|}"
    | a where "root_subject f = Some (MailboxRoot a)" "pc_key c = MailboxProjection a"
      "pc_direct_support c = {|fact_id f|}"
  using assms by (cases "payload f") (auto simp: root_contribution_def root_subject_def)

lemma account_contribution_Some:
  assumes "account_contribution f = Some c"
  obtains a where "root_subject f = Some (AccountRoot a)" "pc_key c = AccountProjection a"
      "pc_direct_support c = {|fact_id f|}"
  using assms by (cases "payload f") (auto simp: account_contribution_def root_subject_def)

lemma capability_contribution_Some:
  assumes "capability_contribution (arrived fs ds) f = Some c" and "f \<in> set (projected_facts (arrived fs ds))"
  obtains g where "root_subject f = Some (MailboxGrantRoot g)" "pc_key c = MailboxCapabilityProjection g"
      "fact_id f |\<in>| pc_direct_support c" "\<And>i. i |\<in>| pc_direct_support c \<Longrightarrow> usable ds i"
proof -
  obtain g m e where p: "payload f = MailboxAccessGranted g m e"
    using assms(1) by (cases "payload f") (simp_all add: capability_contribution_def)
  have key: "pc_key c = MailboxCapabilityProjection g" "fact_id f |\<in>| pc_direct_support c"
    using assms(1) by (auto simp: capability_contribution_def p Let_def)
  have "usable ds i" if "i |\<in>| pc_direct_support c" for i
    using that assms by (auto simp: capability_contribution_def p Let_def set_projected_facts)
  with key show thesis by (intro that [of g]) (simp_all add: root_subject_def p)
qed

lemma authority_contribution_cases:
  assumes stable: "stable_decisions (authority_reducer policy) fs ds"
    and c: "c \<in> set (derive_authority_projections policy (arrived fs ds))"
  obtains (root) f where "f \<in> set (projected_facts (arrived fs ds))" "root_contribution f = Some c"
    | (route) g M where "fmlookup (group_members peer_route_key (projected_facts (arrived fs ds))) g = Some M"
        "c = peer_route_contribution (arrived fs ds) (g, M)"
    | (capability) f where "f \<in> set (projected_facts (arrived fs ds))"
        "capability_contribution (arrived fs ds) f = Some c"
    | (account) f where "f \<in> set (projected_facts (arrived fs ds))" "account_contribution f = Some c"
    | (membership) g M where "fmlookup (group_members membership_key (projected_facts (arrived fs ds))) g = Some M"
        "c = membership_contribution (arrived fs ds) (g, M)"
    | (selection) "c \<in> set (selection_projections policy (arrived fs ds))"
  using c that
  by (auto simp: derive_authority_projections_def peer_route_projections_def capability_projections_def
      account_projections_def membership_projections_def set_map_filter set_sorted_list_of_fmap)

lemma peer_route_contribution_fields:
  "pc_key (peer_route_contribution ctx (g, M)) = PeerRouteProjection (fst g) (snd g)"
  "pc_direct_support (peer_route_contribution ctx (g, M)) = maximal_members M ctx"
  by (simp_all add: peer_route_contribution_def Let_def split: prod.split)

lemma membership_contribution_fields:
  "pc_key (membership_contribution ctx (g, M)) = MembershipProjection (fst g) (snd g)"
  "pc_direct_support (membership_contribution ctx (g, M)) = M"
  by (simp_all add: membership_contribution_def Let_def split: prod.split)

definition local_selections :: "AuthorityPolicy \<Rightarrow> 'r ReductionContext \<Rightarrow> FactId fset" where
  "local_selections policy ctx = fset_of_list (map fact_id
     (filter (\<lambda>f. author_id f = local_installation policy \<and> selects_account f \<noteq> None) (projected_facts ctx)))"

lemma selection_projections_cases:
  assumes "c \<in> set (selection_projections policy ctx)"
  shows "local_selections policy ctx \<noteq> {||}" and "selection_projections policy ctx = [c]"
    and "pc_key c = AccountSelectionProjection (local_installation policy)"
    and "pc_direct_support c = maximal_members (local_selections policy ctx) ctx"
  using assms by (auto simp: selection_projections_def local_selections_def Let_def split: if_splits)

lemma contribution_by_key:
  assumes "stable_decisions (authority_reducer policy) fs ds" and "c \<in> set (derive_authority_projections policy (arrived fs ds))"
  shows "case pc_key c of
      InstallationProjection i \<Rightarrow>
        \<exists>f \<in> set (projected_facts (arrived fs ds)). root_subject f = Some (InstallationRoot i) \<and> root_contribution f = Some c
    | MailboxProjection a \<Rightarrow>
        \<exists>f \<in> set (projected_facts (arrived fs ds)). root_subject f = Some (MailboxRoot a) \<and> root_contribution f = Some c
    | PeerRouteProjection owner peer \<Rightarrow>
        \<exists>M. fmlookup (group_members peer_route_key (projected_facts (arrived fs ds))) (owner, peer) = Some M
          \<and> c = peer_route_contribution (arrived fs ds) ((owner, peer), M)
    | MailboxCapabilityProjection g \<Rightarrow>
        \<exists>f \<in> set (projected_facts (arrived fs ds)).
          root_subject f = Some (MailboxGrantRoot g) \<and> capability_contribution (arrived fs ds) f = Some c
    | AccountProjection a \<Rightarrow>
        \<exists>f \<in> set (projected_facts (arrived fs ds)). root_subject f = Some (AccountRoot a) \<and> account_contribution f = Some c
    | MembershipProjection a d \<Rightarrow>
        \<exists>M. fmlookup (group_members membership_key (projected_facts (arrived fs ds))) (a, d) = Some M
          \<and> c = membership_contribution (arrived fs ds) ((a, d), M)
    | AccountSelectionProjection _ \<Rightarrow> c \<in> set (selection_projections policy (arrived fs ds))"
  using assms
proof (cases rule: authority_contribution_cases)
  case (root f)
  from root(2) show ?thesis by (cases rule: root_contribution_Some) (use root in auto)
next
  case (route g M)
  then show ?thesis by (cases g) (simp add: peer_route_contribution_fields)
next
  case (capability f)
  from capability(2,1) show ?thesis by (cases rule: capability_contribution_Some) (use capability in auto)
next
  case (account f)
  from account(2) show ?thesis by (cases rule: account_contribution_Some) (use account in auto)
next
  case (membership g M)
  then show ?thesis by (cases g) (simp add: membership_contribution_fields)
next
  case selection
  then show ?thesis by (simp add: selection_projections_cases)
qed

lemma contributions_agree:
  assumes stable: "stable_decisions (authority_reducer policy) fs ds"
    and c: "c \<in> set (derive_authority_projections policy (arrived fs ds))"
    and c': "c' \<in> set (derive_authority_projections policy (arrived fs ds))"
    and key: "pc_key c = pc_key c'"
  shows "c = c'"
proof -
  let ?P = "set (projected_facts (arrived fs ds))"
  have root: "c = c'" if "\<exists>f \<in> ?P. root_subject f = Some x \<and> contribution f = Some c"
      "\<exists>f \<in> ?P. root_subject f = Some x \<and> contribution f = Some c'" for x contribution
    using that plain.unique_root [OF stable] plain.projected_factD(1) [OF stable] by (metis option.inject)
  note shapes = contribution_by_key [OF stable c, unfolded key] contribution_by_key [OF stable c']
  show ?thesis
  proof (cases "pc_key c'")
    case (InstallationProjection i)
    then show ?thesis using shapes by (intro root [of "InstallationRoot i" root_contribution]) simp_all
  next
    case (MailboxProjection a)
    then show ?thesis using shapes by (intro root [of "MailboxRoot a" root_contribution]) simp_all
  next
    case (MailboxCapabilityProjection g)
    then show ?thesis
      using shapes by (intro root [of "MailboxGrantRoot g" "capability_contribution (arrived fs ds)"]) simp_all
  next
    case (AccountProjection a)
    then show ?thesis using shapes by (intro root [of "AccountRoot a" account_contribution]) simp_all
  next
    case AccountSelectionProjection
    then have "c \<in> set (selection_projections policy (arrived fs ds))"
      and "c' \<in> set (selection_projections policy (arrived fs ds))" using shapes by simp_all
    then show ?thesis using selection_projections_cases(2) by fastforce
  qed (use shapes in auto)
qed

lemma contribution_support:
  assumes stable: "stable_decisions (authority_reducer policy) fs ds"
    and c: "c \<in> set (derive_authority_projections policy (arrived fs ds))"
  shows "pc_direct_support c \<noteq> {||} \<and> (\<forall>i. i |\<in>| pc_direct_support c \<longrightarrow> usable ds i)"
  using stable c
proof (cases rule: authority_contribution_cases)
  case (root f)
  from root(2) show ?thesis by (cases rule: root_contribution_Some) (use root in \<open>auto simp: set_projected_facts\<close>)
next
  case (route g M)
  then show ?thesis
    using group_frontier [OF stable route(1)] group_usable [OF route(1)] by (auto simp: peer_route_contribution_fields)
next
  case (capability f)
  from capability(2,1) show ?thesis by (cases rule: capability_contribution_Some) auto
next
  case (account f)
  from account(2) show ?thesis by (cases rule: account_contribution_Some) (use account in \<open>auto simp: set_projected_facts\<close>)
next
  case (membership g M)
  then show ?thesis
    using group_members_occupied [OF membership(1)] group_usable [OF membership(1)]
    by (auto simp: membership_contribution_fields)
next
  case selection
  let ?M = "local_selections policy (arrived fs ds)"
  have usable: "i |\<in>| ?M \<Longrightarrow> usable ds i" for i by (auto simp: local_selections_def set_projected_facts)
  then have "causal_maxima (arrived fs ds) ?M \<noteq> {||}"
    using selection_projections_cases(1) [OF selection] by (intro causal_maxima_nonempty [OF stable])
  then show ?thesis
    using usable causal_maxima_subset [of "arrived fs ds" ?M]
    by (auto simp: selection_projections_cases(4) [OF selection] maximal_members_eq)
qed

lemma authority_contributions_sound:
  assumes "stable_decisions (authority_reducer policy) fs ds"
  shows "sound_contributions (arrived fs ds) (derive_authority_projections policy (arrived fs ds))"
  using contribution_support [OF assms] contributions_agree [OF assms]
  by (fastforce simp: sound_contributions_def)

lemma authority_reduction_succeeds:
  assumes "stabilize_decisions (from_facts fs) (graph_of (from_facts fs)) (authority_reducer policy) = Ok ds"
  shows "\<exists>r. reduce_complete fs (authority_reducer policy) = Some (Ok r)"
  using authority_contributions_sound [OF stabilize_decisions_fixed [OF assms]]
  by (intro reduce_complete_succeeds [OF assms]) simp_all

section \<open>Sample batches\<close>

text \<open>
  Installation 1 owns mailbox 7, grants it to installation 2 (grant 50), revokes the grant after an
  action under it and observes that revocation.
\<close>

definition sample_mailbox_facts :: "SemanticFact list" where
  "sample_mailbox_facts =
    [sample_root,
     sample_signed 1 (InstallationPrivate 1) 2 [1] [(LocalInstallation, 1)] (MailboxCreated 7 AgentMailbox None),
     sample_signed 1 (PeerAddressed (MailboxAddress 1 7)) 3 [2] [(MailboxOwner, 2)]
       (MailboxAccessGranted 50 (MailboxAddress 1 7) (sample_author 2)),
     sample_signed 2 (PeerAddressed (MailboxAddress 1 7)) 4 [3] [(MailboxGrant, 3)] (MessageArchived 8),
     sample_signed 1 (PeerAddressed (MailboxAddress 1 7)) 5 [3, 4] [(MailboxGrant, 3)]
       (MailboxAccessRevoked 50 (MailboxAddress 1 7) 2),
     sample_signed 1 (PeerAddressed (MailboxAddress 1 7)) 6 [3, 5] [(MailboxGrant, 3)] (MailboxActionObserved 50 5)]"

lemma sample_mailbox_run:
  obtains r where "reduce_complete sample_mailbox_facts (authority_reducer sample_authority_policy) = Some (Ok r)"
    "list_all (usable (rr_decisions r)) [1, 2, 3, 4, 5, 6]"
    "case fmlookup (rr_projections r) (MailboxCapabilityProjection 50) of
       Some (MailboxCapabilityValue v) \<Rightarrow> cv_revoke_frontier v = {|5|} \<and> cv_observed_actions v = {|5|} | _ \<Rightarrow> False"
proof -
  have "(case reduce_complete sample_mailbox_facts (authority_reducer sample_authority_policy) of
      Some (Inr r) \<Rightarrow> list_all (usable (rr_decisions r)) [1, 2, 3, 4, 5, 6] \<and>
        (case fmlookup (rr_projections r) (MailboxCapabilityProjection 50) of
           Some (MailboxCapabilityValue v) \<Rightarrow> cv_revoke_frontier v = {|5|} \<and> cv_observed_actions v = {|5|} | _ \<Rightarrow> False)
    | _ \<Rightarrow> False)"
    by code_simp
  then show ?thesis using that by (auto split: option.splits sum.splits)
qed

text \<open>The same action, while a stranger's revocation of the grant is stored.\<close>

definition sample_forged_facts :: "SemanticFact list" where
  "sample_forged_facts = take 4 sample_mailbox_facts @
     [sample_signed 9 (PeerAddressed (MailboxAddress 1 7)) 7 [3] [(MailboxGrant, 3)]
       (MailboxAccessRevoked 50 (MailboxAddress 1 7) 2)]"

lemma sample_forged_runs:
  obtains r r' where "reduce_complete (take 4 sample_forged_facts) (authority_reducer sample_authority_policy) = Some (Ok r)"
    "usable (rr_decisions r) 4"
    "reduce_complete sample_forged_facts (authority_reducer sample_authority_policy) = Some (Ok r')"
    "\<not> usable (rr_decisions r') 7"
proof -
  have "(case reduce_complete (take 4 sample_forged_facts) (authority_reducer sample_authority_policy) of
      Some (Inr r) \<Rightarrow> usable (rr_decisions r) 4 | _ \<Rightarrow> False)"
    "(case reduce_complete sample_forged_facts (authority_reducer sample_authority_policy) of
      Some (Inr r) \<Rightarrow> \<not> usable (rr_decisions r) 7 | _ \<Rightarrow> False)"
    by code_simp+
  then show ?thesis using that by (auto split: option.splits sum.splits)
qed

text \<open>
  Installation 1 creates account 60 and grants it to installation 3, which accepts and acts. Fact 6
  routes to installation 2.
\<close>

definition sample_account_facts :: "SemanticFact list" where
  "sample_account_facts =
    [sample_root,
     sample_signed 1 (InstallationPrivate 1) 2 [1] [(LocalInstallation, 1)]
       (HumanAccountCreated 60 (sample_author 1) None),
     sample_signed 1 (AccountAddressed 60) 3 [2] [(AccountCreator, 2)]
       (HumanDeviceGranted 60 61 (sample_author 3) None []),
     sample_signed 3 (AccountAddressed 60) 4 [3] [(DeviceGrant, 3)] (HumanDeviceAccepted 60 61 (sample_author 3)),
     sample_signed 3 (AccountAddressed 60) 5 [4] [(AccountMembership, 4)] (MessageArchived 8),
     sample_signed 1 (InstallationPrivate 1) 6 [1] [(LocalInstallation, 1)]
       (PeerRouteSet (sample_author 2) 2 None [])]"

lemma sample_account_run:
  obtains r where "reduce_complete sample_account_facts (authority_reducer sample_authority_policy) = Some (Ok r)"
    "list_all (usable (rr_decisions r)) [1, 2, 3, 4, 5, 6]"
    "case fmlookup (rr_projections r) (PeerRouteProjection 1 2) of
       Some (PeerRouteValue v) \<Rightarrow> prv_state v = Routable | _ \<Rightarrow> False"
    "case fmlookup (rr_projections r) (MembershipProjection 60 3) of
       Some (MembershipValue v) \<Rightarrow> ms_state v = Active | _ \<Rightarrow> False"
proof -
  have "(case reduce_complete sample_account_facts (authority_reducer sample_authority_policy) of
      Some (Inr r) \<Rightarrow> list_all (usable (rr_decisions r)) [1, 2, 3, 4, 5, 6] \<and>
        (case fmlookup (rr_projections r) (PeerRouteProjection 1 2) of
           Some (PeerRouteValue v) \<Rightarrow> prv_state v = Routable | _ \<Rightarrow> False) \<and>
        (case fmlookup (rr_projections r) (MembershipProjection 60 3) of
           Some (MembershipValue v) \<Rightarrow> ms_state v = Active | _ \<Rightarrow> False)
    | _ \<Rightarrow> False)"
    by code_simp
  then show ?thesis using that by (auto split: option.splits sum.splits)
qed

lemma sample_stored:
  "fact_set_get (from_facts sample_mailbox_facts) 3 = Some (sample_mailbox_facts ! 2)"
  "fact_set_get (from_facts sample_mailbox_facts) 4 = Some (sample_mailbox_facts ! 3)"
  "fact_set_get (from_facts sample_mailbox_facts) 5 = Some (sample_mailbox_facts ! 4)"
  "fact_set_get (from_facts sample_account_facts) 5 = Some (sample_account_facts ! 4)"
  by code_simp+

lemma sample_causal_wf: "list_all (\<lambda>f. causal_wf (causal f)) (sample_mailbox_facts @ sample_account_facts)"
  by (simp add: sample_mailbox_facts_def sample_account_facts_def sample_root_def sample_signed_def
      sample_causal_def causal_wf_def fsubset_iff fmlookup_ran_iff fmlookup_of_list)

section \<open>Properties\<close>

text \<open>
  C18. Authority reduction has one way to fail. For every list of facts it returns a report or the
  error that the decisions did not settle within the allowed rounds: the projections it derives
  never disagree on a key, never lack support and never cite a fact that is not projected.
\<close>

theorem authority_reduction_outcome:
  "reduce_complete fs (authority_reducer policy) = Some (Err NonConvergentDomainDecisions) \<or>
   (\<exists>r. reduce_complete fs (authority_reducer policy) = Some (Ok r))"
  using authority_reduction_succeeds reduction_fails
  by (cases "stabilize_decisions (from_facts fs) (graph_of (from_facts fs)) (authority_reducer policy)") blast+

text \<open>
  C17. Authority reduction returns a report for every batch in which no acceptance of a device
  follows a revocation of that device: the rounds only ever withdraw facts, and at most
  \<open>n + 2\<close> of them change anything.
\<close>

theorem authority_reduction_converges:
  assumes "acceptances_precede_revokes (from_facts fs)" and "2 * length fs + 2 < 2 ^ 64"
  shows "\<exists>r. reduce_complete fs (authority_reducer policy) = Some (Ok r)"
  using ordered_authority.converges [OF fact_set_wf_from_facts assms(1)] assms(2) authority_reduction_succeeds
    stored_card [of fs] by fastforce

theorem authority_reduction_converges_witness:
  "acceptances_precede_revokes (from_facts sample_account_facts) \<and>
   (\<exists>r. reduce_complete sample_account_facts (authority_reducer sample_authority_policy) = Some (Ok r))"
proof -
  have "acceptances_precede_revokes (from_facts sample_account_facts)" by code_simp
  then show ?thesis
    using authority_reduction_converges [of sample_account_facts] by (simp add: sample_account_facts_def)
qed

text \<open>
  C16. The report projects as much as consistency allows: whatever other decision map is stable for
  the same facts and policy, the facts it projects are projected in the report.
\<close>

theorem authority_report_largest:
  assumes "reduce_complete fs (authority_reducer policy) = Some (Ok r)" and "stable_decisions (authority_reducer policy) fs S"
    and "usable S i"
  shows "usable (rr_decisions r) i"
  using authority.greatest [OF fact_set_wf_from_facts _ assms(2) reduce_complete_OkD(3) [OF assms(1)]] assms(3)
  by (simp add: usable_within_def)

theorem authority_report_largest_witness:
  "\<exists>r S. reduce_complete sample_mailbox_facts (authority_reducer sample_authority_policy) = Some (Ok r) \<and>
     stable_decisions (authority_reducer sample_authority_policy) sample_mailbox_facts S \<and> usable S 4 \<and> usable (rr_decisions r) 4"
proof -
  obtain r where r: "reduce_complete sample_mailbox_facts (authority_reducer sample_authority_policy) = Some (Ok r)"
    "usable (rr_decisions r) 4" by (rule sample_mailbox_run) simp
  then show ?thesis using authority_report_largest [OF r(1) report_stable [OF r(1)] r(2)] report_stable [OF r(1)] by blast
qed

text \<open>
  C25. Roots are unique. When a report projects an installation root, a mailbox root, a mailbox grant,
  an account root or a device grant, no other stored fact declares the same subject.
\<close>

theorem projected_root_unique:
  assumes "reduce_complete fs (authority_reducer policy) = Some (Ok r)"
    and "fact_set_get (rr_facts r) i = Some f" and "usable (rr_decisions r) i"
    and "fact_set_get (rr_facts r) j = Some h"
    and "root_subject f = Some subject" and "root_subject h = Some subject"
  shows "j = i \<and> h = f"
  using assms by (rule plain.root_excludes)

theorem projected_root_unique_witness:
  "\<exists>r. reduce_complete sample_mailbox_facts (authority_reducer sample_authority_policy) = Some (Ok r) \<and>
     {j. \<exists>h. fact_set_get (rr_facts r) j = Some h \<and> root_subject h = Some (MailboxGrantRoot 50)} = {3}"
proof -
  obtain r where r: "reduce_complete sample_mailbox_facts (authority_reducer sample_authority_policy) = Some (Ok r)"
    "usable (rr_decisions r) 3" by (rule sample_mailbox_run) simp
  have get: "fact_set_get (rr_facts r) 3 = Some (sample_mailbox_facts ! 2)"
    by (simp add: reduce_complete_OkD(1) [OF r(1)] sample_stored)
  have "root_subject (sample_mailbox_facts ! 2) = Some (MailboxGrantRoot 50)" by code_simp
  with projected_root_unique [OF r(1) get r(2)] r(1) get show ?thesis by blast
qed

text \<open>
  C3. A peer acts only under a grant that was not withdrawn from it. A projected action addressed
  to a mailbox cites, among its parents, a projected grant of that very mailbox to its author, and
  every projected revocation of the grant usably follows the action: none is concurrent with it or
  precedes it.
\<close>

theorem peer_action_authorised:
  assumes run: "reduce_complete fs (authority_reducer policy) = Some (Ok r)"
    and get: "fact_set_get (rr_facts r) i = Some f" and usable: "usable (rr_decisions r) i"
    and action: "is_scoped_action f" and target: "scope f = PeerAddressed target" and wf: "causal_wf (causal f)"
  shows "\<exists>grant grant_fact g. authority_of (causal f) MailboxGrant = Some grant \<and> grant |\<in>| fact_parents f \<and>
    fact_set_get (rr_facts r) grant = Some grant_fact \<and> usable (rr_decisions r) grant \<and>
    payload grant_fact = MailboxAccessGranted g target (author f) \<and>
    (\<forall>j revoke. fact_set_get (rr_facts r) j = Some revoke \<and> usable (rr_decisions r) j \<and> revokes_grant g revoke \<longrightarrow>
       usably_reaches (rr_graph r) (rr_decisions r) i j \<and> \<not> usably_reaches (rr_graph r) (rr_decisions r) j i)"
proof -
  obtain grant grant_fact g where g: "authority_of (causal f) MailboxGrant = Some grant"
      "fact_set_get (rr_facts r) grant = Some grant_fact" "usable (rr_decisions r) grant"
      "payload grant_fact = MailboxAccessGranted g target (author f)"
      "\<And>j revoke. fact_set_get (rr_facts r) j = Some revoke \<Longrightarrow> revokes_grant g revoke \<Longrightarrow>
        usably_reaches (rr_graph r) (rr_decisions r) i j"
    using plain.peer_action_cites_grant [OF assms] by blast
  have "\<not> usably_reaches (rr_graph r) (rr_decisions r) j i"
    if "fact_set_get (rr_facts r) j = Some revoke" "revokes_grant g revoke" for j revoke
  proof
    assume "usably_reaches (rr_graph r) (rr_decisions r) j i"
    with g(5) [OF that] have "j = i" using usable_order.reach_antisym [OF report_order [OF run]] by blast
    then show False
      using that action get by (auto simp: revokes_grant_iff is_scoped_action_def)
  qed
  then show ?thesis
    using g causal_wf_authority [OF wf g(1)] by (intro exI [of _ grant] exI [of _ grant_fact] exI [of _ g]) auto
qed

theorem peer_action_authorised_witness:
  "\<exists>r grant grant_fact g.
     reduce_complete sample_mailbox_facts (authority_reducer sample_authority_policy) = Some (Ok r) \<and>
     usable (rr_decisions r) 4 \<and> authority_of (causal (sample_mailbox_facts ! 3)) MailboxGrant = Some grant \<and>
     fact_set_get (rr_facts r) grant = Some grant_fact \<and>
     payload grant_fact = MailboxAccessGranted g (MailboxAddress 1 7) (sample_author 2)"
proof -
  obtain r where r: "reduce_complete sample_mailbox_facts (authority_reducer sample_authority_policy) = Some (Ok r)"
    "usable (rr_decisions r) 4" by (rule sample_mailbox_run) simp
  have get: "fact_set_get (rr_facts r) 4 = Some (sample_mailbox_facts ! 3)"
    by (simp add: reduce_complete_OkD(1) [OF r(1)] sample_stored)
  have f: "is_scoped_action (sample_mailbox_facts ! 3)" "scope (sample_mailbox_facts ! 3) = PeerAddressed (MailboxAddress 1 7)"
    "author (sample_mailbox_facts ! 3) = sample_author 2" by code_simp+
  have "causal_wf (causal (sample_mailbox_facts ! 3))"
    using sample_causal_wf by (simp add: sample_mailbox_facts_def)
  from peer_action_authorised [OF r(1) get r(2) f(1,2) this] r show ?thesis unfolding f(3) by blast
qed

text \<open>
  C4. An account acts only through its members. A projected action addressed to an account, or a
  projected remote-control fact of the account, cites
  either the projected root that its author created, or a projected acceptance by its author.
  In the second case every projected revocation of that device, in particular every maximal one,
  either usably follows the action or was already superseded when the device accepted.
\<close>

theorem account_action_authorised:
  assumes run: "reduce_complete fs (authority_reducer policy) = Some (Ok r)"
    and get: "fact_set_get (rr_facts r) i = Some f" and usable: "usable (rr_decisions r) i"
    and action: "is_scoped_action f" and wf: "causal_wf (causal f)"
    and target: "scope f = AccountAddressed account \<or> (\<exists>home. scope f = RemoteControl account home)"
  shows "\<exists>authority member. authority_of (causal f) AccountMembership = Some authority \<and>
    fact_set_get (rr_facts r) authority = Some member \<and> usable (rr_decisions r) authority \<and>
    ((\<exists>l. payload member = HumanAccountCreated account (author f) l) \<or>
     (\<exists>g. payload member = HumanDeviceAccepted account g (author f) \<and>
        (\<forall>j revoke. fact_set_get (rr_facts r) j = Some revoke \<and> usable (rr_decisions r) j \<and>
             revokes_device account (author_id f) revoke \<longrightarrow>
           usably_reaches (rr_graph r) (rr_decisions r) i j \<or>
           usably_reaches (rr_graph r) (rr_decisions r) j authority)))"
  using plain.account_action_cites_member [OF assms] by blast

theorem account_action_authorised_witness:
  "\<exists>r authority.
     reduce_complete sample_account_facts (authority_reducer sample_authority_policy) = Some (Ok r) \<and>
     usable (rr_decisions r) 5 \<and>
     authority_of (causal (sample_account_facts ! 4)) AccountMembership = Some authority \<and>
     usable (rr_decisions r) authority"
proof -
  obtain r where r: "reduce_complete sample_account_facts (authority_reducer sample_authority_policy) = Some (Ok r)"
    "usable (rr_decisions r) 5" by (rule sample_account_run) simp
  have get: "fact_set_get (rr_facts r) 5 = Some (sample_account_facts ! 4)"
    by (simp add: reduce_complete_OkD(1) [OF r(1)] sample_stored)
  have f: "is_scoped_action (sample_account_facts ! 4)" "scope (sample_account_facts ! 4) = AccountAddressed 60"
    by code_simp+
  have "causal_wf (causal (sample_account_facts ! 4))"
    using sample_causal_wf by (simp add: sample_account_facts_def)
  from account_action_authorised [OF r(1) get r(2) f(1) this disjI1 [OF f(2)]] r show ?thesis by blast
qed

text \<open>
  The revocations an action has to face: those of the grant it cites, or those of its author's
  device when it cites that device's acceptance.
\<close>

definition device_withdrawn :: "FactSet \<Rightarrow> SemanticFact \<Rightarrow> SemanticFact \<Rightarrow> bool" where
  "device_withdrawn s revoke f =
     (case Option.bind (authority_of (causal f) AccountMembership) (fact_set_get s) of
        Some acceptance \<Rightarrow>
          (case payload acceptance of
             HumanDeviceAccepted account _ _ \<Rightarrow> revokes_device account (author_id f) revoke | _ \<Rightarrow> False)
      | None \<Rightarrow> False)"

definition withdraws :: "FactSet \<Rightarrow> SemanticFact \<Rightarrow> SemanticFact \<Rightarrow> bool" where
  "withdraws s revoke f =
     (case scope f of
        PeerAddressed _ \<Rightarrow>
          (case Option.bind (authority_of (causal f) MailboxGrant) (fact_set_get s) of
             Some grant \<Rightarrow> (case payload grant of MailboxAccessGranted g _ _ \<Rightarrow> revokes_grant g revoke | _ \<Rightarrow> False)
           | None \<Rightarrow> False)
      | InstallationPrivate _ \<Rightarrow> False
      | AccountAddressed _ \<Rightarrow> device_withdrawn s revoke f
      | RemoteControl _ _ \<Rightarrow> device_withdrawn s revoke f)"

text \<open>
  C5. Any stored revocation counts against an action, authorised or not. While a revocation that is
  not itself projected is stored (for instance one that a stranger signed), no action under the
  revoked grant, and no account action of the revoked device that cites its acceptance, is
  projected: it would have to precede the revocation along projected facts.
\<close>

theorem unprojected_revocation_blocks:
  assumes run: "reduce_complete fs (authority_reducer policy) = Some (Ok r)"
    and revoke: "fact_set_get (rr_facts r) j = Some revoke" "\<not> usable (rr_decisions r) j"
    and get: "fact_set_get (rr_facts r) i = Some f" and action: "is_scoped_action f" and wf: "causal_wf (causal f)"
    and cited: "withdraws (rr_facts r) revoke f"
  shows "\<not> usable (rr_decisions r) i"
proof
  assume usable: "usable (rr_decisions r) i"
  have off: "\<not> usably_reaches (rr_graph r) (rr_decisions r) i j" "\<not> usably_reaches (rr_graph r) (rr_decisions r) j a" for a
    using usable_order.reach_ok [OF report_order [OF run]] revoke(2) by blast+
  note peer = plain.peer_action_cites_grant [OF run get usable action _ wf]
  note member = plain.account_action_cites_member [OF run get usable action wf]
  show False
    using cited peer member off revoke(1)
    by (cases "scope f") (fastforce simp: withdraws_def device_withdrawn_def split: option.splits SemanticPayload.splits)+
qed

theorem unprojected_revocation_blocks_witness:
  "\<exists>r r'. reduce_complete (take 4 sample_forged_facts) (authority_reducer sample_authority_policy) = Some (Ok r) \<and>
     usable (rr_decisions r) 4 \<and>
     reduce_complete sample_forged_facts (authority_reducer sample_authority_policy) = Some (Ok r') \<and>
     \<not> usable (rr_decisions r') 7 \<and> \<not> usable (rr_decisions r') 4"
proof -
  obtain r r' where r: "reduce_complete (take 4 sample_forged_facts) (authority_reducer sample_authority_policy) = Some (Ok r)"
    "usable (rr_decisions r) 4"
    "reduce_complete sample_forged_facts (authority_reducer sample_authority_policy) = Some (Ok r')"
    "\<not> usable (rr_decisions r') 7" by (rule sample_forged_runs)
  let ?s = "from_facts sample_forged_facts"
  have stored: "fact_set_get ?s 7 = Some (sample_forged_facts ! 4)" "fact_set_get ?s 4 = Some (sample_forged_facts ! 3)"
    by code_simp+
  note facts = reduce_complete_OkD(1) [OF r(3)]
  have action: "is_scoped_action (sample_forged_facts ! 3)" "withdraws ?s (sample_forged_facts ! 4) (sample_forged_facts ! 3)"
    by code_simp+
  have "causal_wf (causal (sample_forged_facts ! 3))"
    using sample_causal_wf by (simp add: sample_forged_facts_def sample_mailbox_facts_def)
  from unprojected_revocation_blocks [OF r(3), unfolded facts, OF stored(1) r(4) stored(2) action(1) this action(2)] r
  show ?thesis by blast
qed

end
