(* ===== verification/Authority_Persistence.thy ===== *)
theory Authority_Persistence
  imports Authority_Reduction
begin

text \<open>
  The authority views of a report against the \<open>from_parts\<close> constructors through which the store
  (\<open>hq-store/src/database/authority.rs\<close>) reads them back: peer-route and membership views are always
  accepted unchanged; a capability view is accepted exactly when no observed action is a maximal
  revocation.
\<close>

section \<open>Views\<close>

lemma report_projection:
  assumes "reduce_complete fs (authority_reducer policy) = Some (Ok r)" and "fmlookup (rr_projections r) k = Some v"
  obtains c where "c \<in> set (derive_authority_projections policy (arrived fs (rr_decisions r)))"
    and "pc_key c = k" and "pc_value c = v"
proof -
  note d = derive_projections_Ok [OF reduce_complete_OkD(6) [OF assms(1)], unfolded report_context_round [OF assms(1)]]
  have "k \<in> pc_key ` set (derive_authority_projections policy (arrived fs (rr_decisions r)))"
    using d(1) fmdomI [OF assms(2)] by simp
  then show thesis using d(6) assms(2) that by (auto simp: image_iff)
qed

lemma fmdom_map_filter:
  assumes "\<And>x y. f x = Some y \<Longrightarrow> fst y = x"
  shows "k |\<in>| fmdom (fmap_of_list (List.map_filter f (sorted_list_of_fset M))) \<longleftrightarrow> k |\<in>| M \<and> f k \<noteq> None"
  using assms by (force simp: set_map_filter image_iff)

lemma route_candidate_iff:
  "route_candidate (arrived fs ds) i = Some y \<longleftrightarrow>
     (\<exists>f peer e l h. fact_set_get (from_facts fs) i = Some f \<and> payload f = PeerRouteSet peer e l h \<and>
        y = (i, \<lparr>rc_peer = peer, rc_encryption_key = e, rc_label = l, rc_relay_hints = h\<rparr>))"
proof (cases "fact_set_get (from_facts fs) i")
  case (Some f)
  then show ?thesis by (cases "payload f") (auto simp: route_candidate_def)
qed (simp add: route_candidate_def)

lemma block_reason_iff:
  "block_reason (arrived fs ds) i = Some y \<longleftrightarrow>
     (\<exists>f peer e. fact_set_get (from_facts fs) i = Some f \<and> payload f = PeerRouteBlocked peer e \<and> y = (i, e))"
proof (cases "fact_set_get (from_facts fs) i")
  case (Some f)
  then show ?thesis by (cases "payload f") (auto simp: block_reason_def)
qed (simp add: block_reason_def)

lemma is_route_block_iff: "is_route_block (arrived fs ds) i \<longleftrightarrow> block_reason (arrived fs ds) i \<noteq> None"
proof (cases "fact_set_get (from_facts fs) i")
  case (Some f)
  then show ?thesis by (cases "payload f") (simp_all add: is_route_block_def block_reason_def)
qed (simp add: is_route_block_def block_reason_def)

lemma peer_route_key_iff:
  "peer_route_key f = Some (owner, peer) \<longleftrightarrow> author_id f = owner \<and>
     ((\<exists>a e l h. payload f = PeerRouteSet a e l h \<and> ia_installation_id a = peer) \<or>
      (\<exists>e. payload f = PeerRouteBlocked peer e))"
  by (cases "payload f") (auto simp: peer_route_key_def aggregate_key_def)

lemma peer_route_parts:
  assumes M: "fmlookup (group_members peer_route_key (projected_facts (arrived fs ds))) g = Some M"
    and v: "pc_value (peer_route_contribution (arrived fs ds) (g, M)) = PeerRouteValue v"
  shows "peer_route_from_parts (prv_state v) (prv_frontier v) (prv_routes v) (prv_blocks v) = Some v"
proof -
  let ?ctx = "arrived fs ds" and ?F = "maximal_members M (arrived fs ds)"
  let ?set = "\<lambda>i. route_candidate ?ctx i \<noteq> None" and ?blk = "\<lambda>i. block_reason ?ctx i \<noteq> None"
  have F: "i |\<in>| ?F \<Longrightarrow> i |\<in>| M" for i
    using causal_maxima_subset [of ?ctx M] by (auto simp: maximal_members_eq)
  have parts: "prv_frontier v = ?F" "prv_state v = (if fcard (ffilter ?blk ?F) > 0 then Blocked
      else if fcard ?F - fcard (ffilter ?blk ?F) = 1 then Routable else RouteConflicted)"
    "prv_routes v = fmap_of_list (List.map_filter (route_candidate ?ctx) (sorted_list_of_fset M))"
    "prv_blocks v = fmap_of_list (List.map_filter (block_reason ?ctx) (sorted_list_of_fset M))"
    using v by (auto simp: peer_route_contribution_def Let_def is_route_block_iff [abs_def] split: prod.splits)
  have routes: "i |\<in>| fmdom (prv_routes v) \<longleftrightarrow> i |\<in>| M \<and> ?set i" for i
    unfolding parts by (rule fmdom_map_filter) (auto simp: route_candidate_iff)
  have blocks: "i |\<in>| fmdom (prv_blocks v) \<longleftrightarrow> i |\<in>| M \<and> ?blk i" for i
    unfolding parts by (rule fmdom_map_filter) (auto simp: block_reason_iff)
  have kind: "?set i \<longleftrightarrow> \<not> ?blk i" if i: "i |\<in>| M" for i
  proof -
    obtain owner peer where g: "g = (owner, peer)" by fastforce
    obtain f where "fact_set_get (from_facts fs) i = Some f" "peer_route_key f = Some (owner, peer)"
      unfolding g [symmetric] using i by (auto simp: group_members_iff [OF M] set_projected_facts)
    then show ?thesis by (auto simp: peer_route_key_iff route_candidate_iff block_reason_iff)
  qed
  have on_frontier: "i |\<in>| fmdom (prv_blocks v) \<longleftrightarrow> ?blk i" "i |\<in>| fmdom (prv_routes v) \<longleftrightarrow> \<not> ?blk i"
    if "i |\<in>| ?F" for i
    using F [OF that] routes [of i] blocks [of i] kind [of i] by blast+
  have "ffilter (\<lambda>f. f |\<in>| fmdom (prv_blocks v)) ?F = ffilter ?blk ?F"
    and "ffilter (\<lambda>f. f |\<in>| fmdom (prv_routes v)) ?F = ?F |-| ffilter ?blk ?F"
    by (rule fset_eqI, simp only: ffmember_filter fminus_iff, blast dest: on_frontier)+
  moreover have "fcard (?F |-| ffilter ?blk ?F) = fcard ?F - fcard (ffilter ?blk ?F)"
    by (rule fcard_funion_fsubset) auto
  moreover have "fBall ?F (\<lambda>f. f |\<in>| fmdom (prv_routes v) \<or> f |\<in>| fmdom (prv_blocks v))"
    using on_frontier by blast
  moreover have "i |\<notin>| fmdom (prv_blocks v)" if "i |\<in>| fmdom (prv_routes v)" for i
    using that routes [of i] blocks [of i] kind [of i] by blast
  then have "fBall (fmdom (prv_routes v)) (\<lambda>f. f |\<notin>| fmdom (prv_blocks v))" by blast
  ultimately show ?thesis by (simp add: peer_route_from_parts_def Let_def parts(1,2) fcard_fempty)
qed

lemma fold_fmupd_iff:
  assumes "\<And>g w w'. (g, w) \<in> set L \<Longrightarrow> (g, w') \<in> set L \<Longrightarrow> w = w'"
  shows "fmlookup (fold (\<lambda>(g, w). fmupd g w) L fmempty) g = Some w \<longleftrightarrow> (g, w) \<in> set L"
  using assms
proof (induction L rule: rev_induct)
  case (snoc x L)
  obtain g' w' where x: "x = (g', w')" by fastforce
  have "fmlookup (fold (\<lambda>(g, w). fmupd g w) L fmempty) g = Some w \<longleftrightarrow> (g, w) \<in> set L"
    by (rule snoc.IH) (rule snoc.prems, auto)
  then show ?case using snoc.prems [of g w w'] by (auto simp: x)
qed simp

lemma device_grant_view_iff:
  "device_grant_view (arrived fs ds) i = Some y \<longleftrightarrow>
     (\<exists>f a g d l h. fact_set_get (from_facts fs) i = Some f \<and> payload f = HumanDeviceGranted a g d l h \<and>
        y = (g, \<lparr>dg_grant_fact = i, dg_device = d, dg_label = l, dg_relay_hints = h\<rparr>))"
proof (cases "fact_set_get (from_facts fs) i")
  case (Some f)
  then show ?thesis by (cases "payload f") (auto simp: device_grant_view_def)
qed (simp add: device_grant_view_def)

lemma accepted_grant_iff:
  "accepted_grant (arrived fs ds) i = Some g \<longleftrightarrow>
     (\<exists>f a d. fact_set_get (from_facts fs) i = Some f \<and> payload f = HumanDeviceAccepted a g d)"
proof (cases "fact_set_get (from_facts fs) i")
  case (Some f)
  then show ?thesis by (cases "payload f") (auto simp: accepted_grant_def)
qed (simp add: accepted_grant_def)

lemma is_device_revoke_iff:
  "is_device_revoke (arrived fs ds) i \<longleftrightarrow>
     (\<exists>f a g d. fact_set_get (from_facts fs) i = Some f \<and> payload f = HumanDeviceRevoked a g d)"
proof (cases "fact_set_get (from_facts fs) i")
  case (Some f)
  then show ?thesis by (cases "payload f") (auto simp: is_device_revoke_def)
qed (simp add: is_device_revoke_def)

lemma membership_key_iff:
  "membership_key f = Some (account, device) \<longleftrightarrow>
     (\<exists>g d l h. payload f = HumanDeviceGranted account g d l h \<and> ia_installation_id d = device) \<or>
     (\<exists>g d. payload f = HumanDeviceAccepted account g d \<and> ia_installation_id d = device) \<or>
     (\<exists>g. payload f = HumanDeviceRevoked account g device)"
  by (cases "payload f") (auto simp: membership_key_def aggregate_key_def)

text \<open>The grant a projected acceptance cites is a projected member of the same group.\<close>

lemma accepted_grant_projected:
  assumes stable: "stable_decisions (authority_reducer policy) fs ds" and wf: "\<And>f. f \<in> set fs \<Longrightarrow> causal_wf (causal f)"
    and f: "f \<in> set (projected_facts (arrived fs ds))" and p: "payload f = HumanDeviceAccepted account g device"
  obtains h l hints where "h \<in> set (projected_facts (arrived fs ds))"
    "payload h = HumanDeviceGranted account g device l hints"
proof -
  from plain.projected_factD(3) [OF stable f] obtain grant h l hints where h:
      "authority_of (causal f) DeviceGrant = Some grant" "fact_set_get (from_facts fs) grant = Some h"
      "payload h = HumanDeviceGranted account g device l hints"
    by (auto simp: validate_fact_def p validate_device_acceptance_Ok_iff)
  have "f \<in> set fs" using f stored_was_received by (auto simp: set_projected_facts)
  then have "grant |\<in>| fact_parents f"
    using causal_wf_authority [OF wf h(1)] by simp
  then have "usable ds grant" by (rule plain.projected_factD(4) [OF stable f])
  moreover have "fact_id h = grant" using fact_set_get_id [OF fact_set_wf_from_facts h(2)] .
  ultimately have "h \<in> set (projected_facts (arrived fs ds))" using h(2) by (simp add: set_projected_facts)
  then show thesis using h(3) by (rule that)
qed

lemma membership_member:
  assumes "fmlookup (group_members membership_key (projected_facts (arrived fs ds))) key = Some M" and "i |\<in>| M"
  obtains f where "f \<in> set (projected_facts (arrived fs ds))" "fact_id f = i"
    "fact_set_get (from_facts fs) i = Some f" "membership_key f = Some key"
  using assms(2) by (auto simp: group_members_iff [OF assms(1)] set_projected_facts)

lemma membership_grants_iff:
  assumes stable: "stable_decisions (authority_reducer policy) fs ds"
    and M: "fmlookup (group_members membership_key (projected_facts (arrived fs ds))) key = Some M"
  shows "fmlookup (fold (\<lambda>(g, w). fmupd g w)
      (List.map_filter (device_grant_view (arrived fs ds)) (sorted_list_of_fset M)) fmempty) g = Some w \<longleftrightarrow>
    (\<exists>i. i |\<in>| M \<and> device_grant_view (arrived fs ds) i = Some (g, w))" (is "?lookup \<longleftrightarrow> _")
proof -
  have same: "i = j" if i: "i |\<in>| M" "device_grant_view (arrived fs ds) i = Some (h, x)"
      and j: "j |\<in>| M" "device_grant_view (arrived fs ds) j = Some (h, y)" for i j h x y
  proof -
    obtain f where f: "f \<in> set (projected_facts (arrived fs ds))" "fact_id f = i"
      "fact_set_get (from_facts fs) i = Some f" using membership_member [OF M i(1)] by blast
    obtain f' where f': "fact_set_get (from_facts fs) j = Some f'" "fact_id f' = j"
      using membership_member [OF M j(1)] by blast
    have "root_subject f = Some (DeviceGrantRoot h)" "root_subject f' = Some (DeviceGrantRoot h)"
      using i(2) j(2) f(3) f'(1) by (auto simp: device_grant_view_iff root_subject_def)
    then show ?thesis using plain.unique_root [OF stable f(1) f'(1)] f(2) f'(2) by blast
  qed
  have "?lookup \<longleftrightarrow> (g, w) \<in> set (List.map_filter (device_grant_view (arrived fs ds)) (sorted_list_of_fset M))"
  proof (rule fold_fmupd_iff)
    fix h x y
    assume "(h, x) \<in> set (List.map_filter (device_grant_view (arrived fs ds)) (sorted_list_of_fset M))"
      and "(h, y) \<in> set (List.map_filter (device_grant_view (arrived fs ds)) (sorted_list_of_fset M))"
    then show "x = y" using same by (auto simp: set_map_filter) (metis option.inject prod.inject)
  qed
  then show ?thesis by (auto simp: set_map_filter)
qed

lemma active_membership_grants_empty_iff:
  assumes "\<And>i. i |\<in>| A \<Longrightarrow> accepted_grant ctx i \<noteq> None"
  shows "A = {||} \<longleftrightarrow> active_membership_grants A ctx = {||}"
proof -
  have grants: "g |\<in>| active_membership_grants A ctx \<longleftrightarrow> (\<exists>i. i |\<in>| A \<and> accepted_grant ctx i = Some g)" for g
    by (auto simp: active_membership_grants_def set_map_filter)
  show ?thesis
  proof
    assume "A = {||}"
    then show "active_membership_grants A ctx = {||}" by (simp add: active_membership_grants_def map_filter_simps)
  next
    assume "active_membership_grants A ctx = {||}"
    then have "i |\<notin>| A" for i using grants assms [of i] by (metis fempty_iff option.exhaust)
    then show "A = {||}" by blast
  qed
qed

lemma membership_parts:
  assumes stable: "stable_decisions (authority_reducer policy) fs ds" and wf: "\<And>f. f \<in> set fs \<Longrightarrow> causal_wf (causal f)"
    and M: "fmlookup (group_members membership_key (projected_facts (arrived fs ds))) key = Some M"
    and v: "pc_value (membership_contribution (arrived fs ds) (key, M)) = MembershipValue v"
  shows "membership_from_parts (ms_state v) (ms_frontier v) (ms_grants v) (ms_acceptances v) (ms_revokes v)
    (ms_active_acceptances v) (ms_active_grants v) = Some v"
proof -
  let ?ctx = "arrived fs ds" and ?F = "maximal_members M (arrived fs ds)"
  obtain account device where key: "key = (account, device)" by fastforce
  let ?gr = "\<lambda>i. device_grant_view ?ctx i \<noteq> None" and ?ac = "\<lambda>i. accepted_grant ?ctx i \<noteq> None"
    and ?rv = "is_device_revoke ?ctx"
  have parts: "ms_frontier v = ?F" "ms_acceptances v = ffilter ?ac M" "ms_revokes v = ffilter ?rv M"
    "ms_active_acceptances v = ffilter (\<lambda>i. ?ac i \<and> active_acceptance i account device ?ctx) M"
    "ms_active_grants v = active_membership_grants (ms_active_acceptances v) ?ctx"
    "ms_state v = (if ms_active_acceptances v \<noteq> {||} then Active else if fBex M ?rv then Revoked else Pending)"
    and grants: "ms_grants v = fold (\<lambda>(g, w). fmupd g w)
      (List.map_filter (device_grant_view ?ctx) (sorted_list_of_fset M)) fmempty"
    unfolding v [unfolded membership_contribution_def key prod.case Let_def
        ProjectionContribution.select_convs AuthorityProjection.inject, symmetric] MembershipView.select_convs
    by (rule refl)+
  note lookup = membership_grants_iff [OF stable M, folded grants]
  define G where "G = fset_of_list (map (\<lambda>(g, w). dg_grant_fact w) (sorted_list_of_fmap (ms_grants v)))"
  have G: "i |\<in>| G \<longleftrightarrow> i |\<in>| M \<and> ?gr i" for i
    by (force simp: G_def set_sorted_list_of_fmap lookup device_grant_view_iff image_iff)
  have kinds: "?gr i \<and> \<not> ?ac i \<and> \<not> ?rv i \<or> \<not> ?gr i \<and> ?ac i \<and> \<not> ?rv i \<or> \<not> ?gr i \<and> \<not> ?ac i \<and> ?rv i"
    if i: "i |\<in>| M" for i
    by (rule membership_member [OF M i])
      (auto simp: key membership_key_iff device_grant_view_iff accepted_grant_iff is_device_revoke_iff)
  have active: "g |\<in>| fmdom (ms_grants v)" if g: "g |\<in>| ms_active_grants v" for g
  proof -
    obtain i where i: "i |\<in>| M" "accepted_grant ?ctx i = Some g"
      using g by (auto simp: parts(4,5) active_membership_grants_def set_map_filter)
    obtain f where f: "f \<in> set (projected_facts ?ctx)" "fact_set_get (from_facts fs) i = Some f"
        "membership_key f = Some (account, device)" using membership_member [OF M i(1)] key by metis
    then obtain d where p: "payload f = HumanDeviceAccepted account g d" "ia_installation_id d = device"
      using i(2) by (auto simp: accepted_grant_iff membership_key_iff)
    obtain h l hints where h: "h \<in> set (projected_facts ?ctx)" "payload h = HumanDeviceGranted account g d l hints"
      using accepted_grant_projected [OF stable wf f(1) p(1)] by blast
    then have "fact_id h |\<in>| M" "fact_set_get (from_facts fs) (fact_id h) = Some h"
      using p(2) by (auto simp: group_members_iff [OF M] key membership_key_iff set_projected_facts)
    then have "\<exists>w. fmlookup (ms_grants v) g = Some w" using h(2)
      by (simp add: lookup device_grant_view_iff) blast
    then show ?thesis by (auto simp: fmlookup_dom_iff)
  qed
  have "ms_active_acceptances v |\<subseteq>| ms_acceptances v" "ms_active_grants v |\<subseteq>| fmdom (ms_grants v)"
    using active by (auto simp: parts(2,4))
  moreover have "(ms_active_acceptances v = {||}) = (ms_active_grants v = {||})"
    unfolding parts(5) by (rule active_membership_grants_empty_iff) (simp add: parts(4))
  moreover have "G |\<inter>| ms_acceptances v = {||}" "G |\<inter>| ms_revokes v = {||}" "ms_acceptances v |\<inter>| ms_revokes v = {||}"
    by (rule fset_eqI, simp only: finter_iff G parts(2,3) ffmember_filter fempty_iff, blast dest: kinds)+
  moreover have "ms_frontier v |\<subseteq>| M"
    using causal_maxima_subset [of ?ctx M] by (simp add: parts(1) maximal_members_eq)
  moreover have "M |\<subseteq>| G |\<union>| ms_acceptances v |\<union>| ms_revokes v"
    by (rule fsubsetI, simp only: funion_iff G parts(2,3) ffmember_filter, blast dest: kinds)
  moreover have "fBex M ?rv \<longleftrightarrow> ms_revokes v \<noteq> {||}" by (auto simp: parts(3))
  ultimately show ?thesis
    unfolding membership_from_parts_def G_def [symmetric] Let_def by (simp add: parts(6)) blast
qed

lemma validate_mailbox_observation_Ok:
  assumes "validate_mailbox_observation f g action_id ctx = Ok ()"
  obtains target grant grant_fact grantee action where "scope f = PeerAddressed target"
    "action_id |\<in>| fact_parents f" "context_fact ctx grant = Some grant_fact"
    "payload grant_fact = MailboxAccessGranted g target grantee" "context_fact ctx action_id = Some action"
    "authority_of (causal action) MailboxGrant = Some grant"
proof -
  obtain target where target: "scope f = PeerAddressed target"
    using assms by (cases "scope f") (simp_all add: validate_mailbox_observation_def)
  with assms obtain grant where grant: "validate_grant_for_action grant g target ctx = Ok ()"
      "action_id |\<in>| fact_parents f"
      and "\<exists>action. context_fact ctx action_id = Some action \<and> authority_of (causal action) MailboxGrant = Some grant"
    by (auto simp: validate_mailbox_observation_def and_then_Ok_iff required_authority_Ok_iff split: if_splits)
  then obtain action where action: "context_fact ctx action_id = Some action"
    "authority_of (causal action) MailboxGrant = Some grant" by blast
  from grant(1) obtain h where h: "context_fact ctx grant = Some h"
    by (auto simp: validate_grant_for_action_def split: option.splits)
  with grant(1) obtain grantee where "payload h = MailboxAccessGranted g target grantee"
    by (cases "payload h") (auto simp: validate_grant_for_action_def split: if_splits)
  with target grant(2) h action show thesis by (rule_tac that)
qed

lemma projected_not_own_parent:
  assumes "stable_decisions (authority_reducer policy) fs ds" and "f \<in> set (projected_facts (arrived fs ds))"
  shows "fact_id f |\<notin>| fact_parents f"
proof
  assume "fact_id f |\<in>| fact_parents f"
  then have "fact_id f |\<in>| graph_parents (graph_of (from_facts fs)) (fact_id f)"
    using plain.projected_factD(1) [OF assms] by (simp add: graph_parents_iff)
  then have "fact_id f |\<in>| cycle_members (graph_of (from_facts fs))"
    by (auto simp: causal_index.cycle_members_iff [OF graph_of_causal_index])
  then show False
    using stable_usable_iff [OF fact_set_wf_from_facts assms(1), of "fact_id f"] plain.projected_factD(2) [OF assms] by blast
qed

lemma grant_not_observed:
  assumes stable: "stable_decisions (authority_reducer policy) fs ds" and wf: "\<And>f. f \<in> set fs \<Longrightarrow> causal_wf (causal f)"
    and f: "f \<in> set (projected_facts (arrived fs ds))" "payload f = MailboxAccessGranted g m e"
    and h: "h \<in> set (projected_facts (arrived fs ds))" "payload h = MailboxActionObserved g a"
  shows "a \<noteq> fact_id f"
proof
  assume a: "a = fact_id f"
  have "validate_mailbox_observation h g a (arrived fs ds) = Ok ()"
    using plain.projected_factD(3) [OF stable h(1)] by (simp add: validate_fact_def h(2))
  then obtain grant grant_fact target grantee where
      "fact_set_get (from_facts fs) grant = Some grant_fact" "payload grant_fact = MailboxAccessGranted g target grantee"
      "authority_of (causal f) MailboxGrant = Some grant"
    using plain.projected_factD(1) [OF stable f(1)] a by (elim validate_mailbox_observation_Ok) auto
  moreover from this have "grant_fact = f"
    by (intro plain.unique_root [OF stable f(1), of grant _ "MailboxGrantRoot g"]) (simp_all add: root_subject_def f(2))
  ultimately have "authority_of (causal f) MailboxGrant = Some (fact_id f)"
    using fact_set_get_id [OF fact_set_wf_from_facts] by blast
  moreover have "f \<in> set fs" using plain.projected_factD(1) [OF stable f(1)] by (rule stored_was_received)
  ultimately show False using causal_wf_authority [OF wf] projected_not_own_parent [OF stable f(1)] by blast
qed

lemma capability_parts:
  assumes stable: "stable_decisions (authority_reducer policy) fs ds" and wf: "\<And>f. f \<in> set fs \<Longrightarrow> causal_wf (causal f)"
    and f: "f \<in> set (projected_facts (arrived fs ds))" and c: "capability_contribution (arrived fs ds) f = Some c"
    and v: "pc_value c = MailboxCapabilityValue v"
  shows "capability_from_parts (cv_grant_fact v) (cv_mailbox v) (cv_grantee v) (cv_active v)
      (cv_revoke_frontier v) (cv_observed_actions v) =
    (if cv_revoke_frontier v |\<inter>| cv_observed_actions v = {||} then Some v else None)"
proof -
  let ?ctx = "arrived fs ds"
  obtain g m e where p: "payload f = MailboxAccessGranted g m e"
    using c by (cases "payload f") (simp_all add: capability_contribution_def)
  define R where "R = fset_of_list (map fact_id (filter (\<lambda>h. usable ds (fact_id h)) (mailbox_revokes ?ctx g)))"
  have parts: "cv_grant_fact v = fact_id f" "cv_active v = (R = {||})" "cv_revoke_frontier v = maximal_members R ?ctx"
    "cv_observed_actions v = fset_of_list (List.map_filter (observes_grant g) (projected_facts ?ctx))"
  proof -
    have "MailboxCapabilityValue v = MailboxCapabilityValue \<lparr>cv_grant_fact = fact_id f, cv_mailbox = m,
        cv_grantee = e, cv_active = (R = {||}), cv_revoke_frontier = maximal_members R ?ctx,
        cv_observed_actions = fset_of_list (List.map_filter (observes_grant g) (projected_facts ?ctx))\<rparr>"
      using c unfolding v [symmetric] by (simp add: capability_contribution_def p Let_def R_def eq_commute)
    then show "cv_grant_fact v = fact_id f" "cv_active v = (R = {||})"
      "cv_revoke_frontier v = maximal_members R ?ctx"
      "cv_observed_actions v = fset_of_list (List.map_filter (observes_grant g) (projected_facts ?ctx))" by simp_all
  qed
  have R: "i |\<in>| R \<longleftrightarrow> (\<exists>h. fact_set_get (from_facts fs) i = Some h \<and> usable ds i \<and> revokes_grant g h)" for i
  proof -
    have "i |\<in>| R \<longleftrightarrow> (\<exists>h. fact_set_get (from_facts fs) (fact_id h) = Some h \<and> revokes_grant g h \<and>
        usable ds (fact_id h) \<and> i = fact_id h)"
      by (auto simp: R_def mailbox_revokes_def set_fact_set_facts)
    then show ?thesis using fact_set_get_id [OF fact_set_wf_from_facts] by blast
  qed
  have "R = {||} \<longleftrightarrow> maximal_members R ?ctx = {||}"
    using causal_maxima_nonempty [OF stable, of R] causal_maxima_subset [of ?ctx R] R
    by (auto simp: maximal_members_eq)
  moreover have "fact_id f |\<notin>| maximal_members R ?ctx"
    using causal_maxima_subset [of ?ctx R] R [of "fact_id f"] plain.projected_factD(1) [OF stable f]
    by (auto simp: maximal_members_eq revokes_grant_iff p)
  moreover have "fact_id f |\<notin>| cv_observed_actions v"
    using grant_not_observed [OF stable wf f p] by (auto simp: parts(4) set_map_filter observes_grant_iff)
  ultimately show ?thesis by (simp add: capability_from_parts_def parts(1-3))
qed

section \<open>Properties\<close>

text \<open>Keys and values of the same kind, as the store pairs them.\<close>

definition projection_matches :: "AuthorityProjectionKey \<Rightarrow> AuthorityProjection \<Rightarrow> bool" where
  "projection_matches key v =
     (case key of
        InstallationProjection _ \<Rightarrow> (case v of InstallationValue _ \<Rightarrow> True | _ \<Rightarrow> False)
      | MailboxProjection _ \<Rightarrow> (case v of MailboxValue _ \<Rightarrow> True | _ \<Rightarrow> False)
      | PeerRouteProjection _ _ \<Rightarrow> (case v of PeerRouteValue _ \<Rightarrow> True | _ \<Rightarrow> False)
      | MailboxCapabilityProjection _ \<Rightarrow> (case v of MailboxCapabilityValue _ \<Rightarrow> True | _ \<Rightarrow> False)
      | AccountProjection _ \<Rightarrow> (case v of AccountValue _ _ _ \<Rightarrow> True | _ \<Rightarrow> False)
      | MembershipProjection _ _ \<Rightarrow> (case v of MembershipValue _ \<Rightarrow> True | _ \<Rightarrow> False)
      | AccountSelectionProjection _ \<Rightarrow> (case v of AccountSelectionValue _ _ \<Rightarrow> True | _ \<Rightarrow> False))"

text \<open>
  C28. Every projection of an authority report has the kind its key announces: no key of one family
  ever holds a view of another.
\<close>

theorem authority_projection_kinds:
  assumes "reduce_complete fs (authority_reducer policy) = Some (Ok r)" and "fmlookup (rr_projections r) k = Some v"
  shows "projection_matches k v"
proof -
  obtain c where c: "c \<in> set (derive_authority_projections policy (arrived fs (rr_decisions r)))"
    "pc_key c = k" "pc_value c = v" using assms by (rule report_projection)
  from report_stable [OF assms(1)] c(1) show ?thesis
  proof (cases rule: authority_contribution_cases)
    case (root f)
    then show ?thesis
      using c by (cases "payload f") (auto simp: root_contribution_def projection_matches_def)
  next
    case (capability f)
    then show ?thesis
      using c by (cases "payload f") (auto simp: capability_contribution_def Let_def projection_matches_def)
  next
    case (account f)
    then show ?thesis
      using c by (cases "payload f") (auto simp: account_contribution_def projection_matches_def)
  qed (use c in \<open>auto simp: peer_route_contribution_def membership_contribution_def selection_projections_def
        Let_def projection_matches_def split: prod.splits if_splits\<close>)
qed

theorem authority_projection_kinds_witness:
  "\<exists>r v. reduce_complete sample_account_facts (authority_reducer sample_authority_policy) = Some (Ok r) \<and>
     fmlookup (rr_projections r) (PeerRouteProjection 1 2) = Some v \<and> projection_matches (PeerRouteProjection 1 2) v"
proof -
  obtain r v where r: "reduce_complete sample_account_facts (authority_reducer sample_authority_policy) = Some (Ok r)"
    "fmlookup (rr_projections r) (PeerRouteProjection 1 2) = Some v"
    by (rule sample_account_run) (auto split: option.splits AuthorityProjection.splits)
  then show ?thesis using authority_projection_kinds [OF r] by blast
qed

text \<open>
  Peer-route views survive storage: the constructor that reads a stored view back accepts every
  route view of a report and returns it unchanged.
\<close>

lemma peer_route_view_roundtrip:
  assumes "reduce_complete fs (authority_reducer policy) = Some (Ok r)"
    and "fmlookup (rr_projections r) (PeerRouteProjection owner peer) = Some (PeerRouteValue v)"
  shows "peer_route_from_parts (prv_state v) (prv_frontier v) (prv_routes v) (prv_blocks v) = Some v"
proof -
  obtain c where c: "c \<in> set (derive_authority_projections policy (arrived fs (rr_decisions r)))"
    "pc_key c = PeerRouteProjection owner peer" "pc_value c = PeerRouteValue v" using assms by (rule report_projection)
  from contribution_by_key [OF report_stable [OF assms(1)] c(1)] c(2) obtain M where
      "fmlookup (group_members peer_route_key (projected_facts (arrived fs (rr_decisions r)))) (owner, peer) = Some M"
      "c = peer_route_contribution (arrived fs (rr_decisions r)) ((owner, peer), M)"
    by auto
  then show ?thesis using c(3) by (intro peer_route_parts) auto
qed

text \<open>
  C26. Membership views survive storage: with well-formed causal references, the constructor that
  reads a stored view back accepts every membership view of a report and returns it unchanged. In
  particular every active acceptance belongs to a grant the view retains.
\<close>

theorem membership_view_roundtrip:
  assumes "reduce_complete fs (authority_reducer policy) = Some (Ok r)" and "list_all (\<lambda>f. causal_wf (causal f)) fs"
    and "fmlookup (rr_projections r) (MembershipProjection account device) = Some (MembershipValue v)"
  shows "membership_from_parts (ms_state v) (ms_frontier v) (ms_grants v) (ms_acceptances v) (ms_revokes v)
    (ms_active_acceptances v) (ms_active_grants v) = Some v"
proof -
  obtain c where c: "c \<in> set (derive_authority_projections policy (arrived fs (rr_decisions r)))"
    "pc_key c = MembershipProjection account device" "pc_value c = MembershipValue v"
    using assms(1,3) by (rule report_projection)
  from contribution_by_key [OF report_stable [OF assms(1)] c(1)] c(2) obtain M where
      "fmlookup (group_members membership_key (projected_facts (arrived fs (rr_decisions r)))) (account, device) = Some M"
      "c = membership_contribution (arrived fs (rr_decisions r)) ((account, device), M)"
    by auto
  then show ?thesis
    using c(3) assms(2) by (intro membership_parts [OF report_stable [OF assms(1)]]) (auto simp: list_all_iff)
qed

theorem membership_view_roundtrip_witness:
  "\<exists>r v. reduce_complete sample_account_facts (authority_reducer sample_authority_policy) = Some (Ok r) \<and>
     fmlookup (rr_projections r) (MembershipProjection 60 3) = Some (MembershipValue v) \<and> ms_state v = Active \<and>
     membership_from_parts (ms_state v) (ms_frontier v) (ms_grants v) (ms_acceptances v) (ms_revokes v)
       (ms_active_acceptances v) (ms_active_grants v) = Some v"
proof -
  obtain r v where r: "reduce_complete sample_account_facts (authority_reducer sample_authority_policy) = Some (Ok r)"
    "fmlookup (rr_projections r) (MembershipProjection 60 3) = Some (MembershipValue v)" "ms_state v = Active"
    by (rule sample_account_run) (auto split: option.splits AuthorityProjection.splits)
  have "list_all (\<lambda>f. causal_wf (causal f)) sample_account_facts" using sample_causal_wf by simp
  then show ?thesis using membership_view_roundtrip [OF r(1) _ r(2)] r by blast
qed

text \<open>
  C27. What storage does to a capability view: with well-formed causal references, the constructor
  that reads a stored view back returns it unchanged exactly when none of the observed actions is
  a maximal revocation, and rejects it otherwise.
\<close>

theorem capability_view_roundtrip:
  assumes "reduce_complete fs (authority_reducer policy) = Some (Ok r)" and "list_all (\<lambda>f. causal_wf (causal f)) fs"
    and "fmlookup (rr_projections r) (MailboxCapabilityProjection g) = Some (MailboxCapabilityValue v)"
  shows "capability_from_parts (cv_grant_fact v) (cv_mailbox v) (cv_grantee v) (cv_active v)
      (cv_revoke_frontier v) (cv_observed_actions v) =
    (if cv_revoke_frontier v |\<inter>| cv_observed_actions v = {||} then Some v else None)"
proof -
  obtain c where c: "c \<in> set (derive_authority_projections policy (arrived fs (rr_decisions r)))"
    "pc_key c = MailboxCapabilityProjection g" "pc_value c = MailboxCapabilityValue v"
    using assms(1,3) by (rule report_projection)
  from contribution_by_key [OF report_stable [OF assms(1)] c(1)] c(2) obtain f where
      "f \<in> set (projected_facts (arrived fs (rr_decisions r)))"
      "capability_contribution (arrived fs (rr_decisions r)) f = Some c"
    by auto
  then show ?thesis
    using c(3) assms(2) by (intro capability_parts [OF report_stable [OF assms(1)]]) (auto simp: list_all_iff)
qed

theorem capability_view_roundtrip_witness:
  "\<exists>r v. reduce_complete sample_mailbox_facts (authority_reducer sample_authority_policy) = Some (Ok r) \<and>
     fmlookup (rr_projections r) (MailboxCapabilityProjection 50) = Some (MailboxCapabilityValue v) \<and>
     capability_from_parts (cv_grant_fact v) (cv_mailbox v) (cv_grantee v) (cv_active v)
       (cv_revoke_frontier v) (cv_observed_actions v) = None"
proof -
  obtain r v where r: "reduce_complete sample_mailbox_facts (authority_reducer sample_authority_policy) = Some (Ok r)"
    "fmlookup (rr_projections r) (MailboxCapabilityProjection 50) = Some (MailboxCapabilityValue v)"
    "cv_revoke_frontier v = {|5|}" "cv_observed_actions v = {|5|}"
    by (rule sample_mailbox_run) (auto split: option.splits AuthorityProjection.splits)
  have "list_all (\<lambda>f. causal_wf (causal f)) sample_mailbox_facts" using sample_causal_wf by simp
  from capability_view_roundtrip [OF r(1) this r(2)] r show ?thesis by auto
qed

end
