(* ===== verification/Policy_Support.thy ===== *)
theory Policy_Support
  imports Authority_Layer
begin

text \<open>
  What the policies built on authority share: wrapping an authority decision, grouping the
  projected facts by a key, reading the single value of a register, and the soundness of
  projections derived group by group.

  A group \<open>BTreeMap<K, Vec<V>>\<close> is filled in identity order, as the facts of the set are
  iterated. A \<open>BTreeSet\<close> collected only to be counted, or to take its single element, is the list
  of its elements without repetition (\<open>sole\<close>, \<open>several\<close>).
\<close>

section \<open>Decisions of the first layer\<close>

definition map_authority_decision :: "(AuthorityReason \<Rightarrow> 'r) \<Rightarrow> AuthorityReason DomainDecision \<Rightarrow> 'r DomainDecision" where
  "map_authority_decision wrap decision =
     (case decision of
        DomainProjected \<Rightarrow> DomainProjected
      | DomainUnauthorized r failed \<Rightarrow> DomainUnauthorized (wrap r) failed
      | DomainConflicted r participants \<Rightarrow> DomainConflicted (wrap r) participants
      | DomainInvalid r \<Rightarrow> DomainInvalid (wrap r)
      | DomainUnsupported r \<Rightarrow> DomainUnsupported (wrap r))"

lemma map_authority_projected [simp]: "map_authority_decision wrap d = DomainProjected \<longleftrightarrow> d = DomainProjected"
  by (cases d) (simp_all add: map_authority_decision_def)

section \<open>Ancestors\<close>

lemma stable_ancestor_usable:
  assumes "fact_set_wf s" and "round_of s (graph_of s) domain S = S" and "usable S d"
    and "structurally_reaches (graph_of s) a d"
  shows "usable S a"
proof -
  have "(a, d) \<in> {(p, c). p |\<in>| graph_parents (graph_of s) c}\<^sup>*"
    using assms(4) by (simp add: causal_index.structurally_reaches_iff [OF graph_of_causal_index [OF assms(1)]])
  from stable_candidate_path [OF assms(1,2,3) this] show ?thesis
    using assms(3) by (auto simp: reaches_with_candidate_iff graph_of_causal_index [OF assms(1)])
qed

section \<open>Groups\<close>

definition group_facts ::
  "('f \<Rightarrow> 'g option) \<Rightarrow> 'f list \<Rightarrow> ('g, 'f list) fmap" where
  "group_facts key fs =
     fold (\<lambda>f groups. case key f of
         Some g \<Rightarrow> fmupd g ((case fmlookup groups g of Some members \<Rightarrow> members | None \<Rightarrow> []) @ [f]) groups
       | None \<Rightarrow> groups) fs fmempty"

lemma fmlookup_group_facts:
  "fmlookup (group_facts key fs) g = Some xs \<longleftrightarrow> xs = filter (\<lambda>f. key f = Some g) fs \<and> xs \<noteq> []"
proof -
  let ?push = "\<lambda>f groups. case key f of
      Some g \<Rightarrow> fmupd g ((case fmlookup groups g of Some members \<Rightarrow> members | None \<Rightarrow> []) @ [f]) groups
    | None \<Rightarrow> groups"
  let ?at = "\<lambda>m. case fmlookup m g of Some members \<Rightarrow> members | None \<Rightarrow> []"
  have "?at (fold ?push fs m) = ?at m @ filter (\<lambda>f. key f = Some g) fs \<and>
      (fmlookup m g \<noteq> Some [] \<longrightarrow> fmlookup (fold ?push fs m) g \<noteq> Some [])" for m
  proof (induction fs arbitrary: m)
    case (Cons f fs)
    show ?case using Cons.IH [of "?push f m"] by (cases "key f") (auto split: option.splits)
  qed simp
  from this [of fmempty] show ?thesis
    by (cases "fmlookup (group_facts key fs) g") (auto simp: group_facts_def)
qed

section \<open>Single values\<close>

definition sole :: "'a list \<Rightarrow> 'a option" where
  "sole xs = (case remdups xs of [x] \<Rightarrow> Some x | _ \<Rightarrow> None)"

definition several :: "'a list \<Rightarrow> bool" where
  "several xs \<longleftrightarrow> length (remdups xs) > 1"

lemma several_iff: "several xs \<longleftrightarrow> (\<exists>x \<in> set xs. \<exists>y \<in> set xs. x \<noteq> y)"
proof -
  have "several xs \<longleftrightarrow> \<not> card (set xs) \<le> Suc 0" by (simp add: several_def length_remdups_card_conv not_le)
  then show ?thesis by (auto simp: card_le_Suc0_iff_eq)
qed

lemma length_remdups_1_iff: "length (remdups xs) = Suc 0 \<longleftrightarrow> (\<exists>x. set xs = {x})"
  by (simp add: length_remdups_card_conv card_1_singleton_iff)

lemma sole_iff: "sole xs = Some x \<longleftrightarrow> set xs = {x}"
proof
  assume "sole xs = Some x"
  then have "remdups xs = [x]" by (auto simp: sole_def split: list.splits)
  then have "set (remdups xs) = {x}" by simp
  then show "set xs = {x}" by simp
next
  assume x: "set xs = {x}"
  then obtain y where "remdups xs = [y]" using length_remdups_1_iff [of xs] by (metis length_0_conv length_Suc_conv)
  moreover from this have "set xs = {y}" by (metis empty_set list.simps(15) set_remdups)
  ultimately show "sole xs = Some x" using x by (simp add: sole_def)
qed

section \<open>Maximal members\<close>

definition maximal :: "FactId fset \<Rightarrow> 'r ReductionContext \<Rightarrow> FactId fset" where
  "maximal members ctx =
     ffilter (\<lambda>c. \<not> fBex members (\<lambda>other. other \<noteq> c \<and> context_usably_reaches ctx c other)) members"

lemma maximal_eq: "maximal M ctx = causal_maxima ctx M"
  by (simp add: maximal_def causal_maxima_def)

section \<open>Sound projections\<close>

lemma sound_append:
  assumes "sound_contributions ctx cs" and "sound_contributions ctx cs'"
    and "\<And>c c'. c \<in> set cs \<Longrightarrow> c' \<in> set cs' \<Longrightarrow> pc_key c \<noteq> pc_key c'"
  shows "sound_contributions ctx (cs @ cs')"
  using assms unfolding sound_contributions_def set_append by (metis Un_iff)

lemma sound_grouped:
  assumes "\<And>g M. fmlookup m g = Some M \<Longrightarrow> pc_key (h (g, M)) = K g \<and> pc_direct_support (h (g, M)) \<noteq> {||} \<and>
      (\<forall>i. i |\<in>| pc_direct_support (h (g, M)) \<longrightarrow> is_projected ctx i)"
    and "\<And>g g'. K g = K g' \<Longrightarrow> g = g'"
  shows "sound_contributions ctx (map h (sorted_list_of_fmap m))"
proof -
  have "pc_value (h (g, M)) = pc_value (h (g', M'))"
    if "fmlookup m g = Some M" "fmlookup m g' = Some M'" "pc_key (h (g, M)) = pc_key (h (g', M'))" for g M g' M'
  proof -
    have "g = g'" using that assms by metis
    then show ?thesis using that by simp
  qed
  note agree = this
  have shape: "\<exists>g M. c = h (g, M) \<and> fmlookup m g = Some M" if "c \<in> set (map h (sorted_list_of_fmap m))" for c
    using that by (auto simp: set_sorted_list_of_fmap)
  show ?thesis
    unfolding sound_contributions_def
  proof (intro conjI ballI impI)
    fix c c' assume "c \<in> set (map h (sorted_list_of_fmap m))" "c' \<in> set (map h (sorted_list_of_fmap m))"
      and key: "pc_key c = pc_key c'"
    then obtain g M g' M' where "c = h (g, M)" "fmlookup m g = Some M" "c' = h (g', M')" "fmlookup m g' = Some M'"
      using shape by blast
    with key agree show "pc_value c = pc_value c'" by blast
  qed (use shape assms(1) in blast)+
qed

lemma sound_mapped:
  assumes "\<And>x c. x \<in> set xs \<Longrightarrow> h x = Some c \<Longrightarrow> pc_key c = K x \<and> pc_direct_support c \<noteq> {||} \<and>
      (\<forall>i. i |\<in>| pc_direct_support c \<longrightarrow> is_projected ctx i)"
    and "\<And>x y. x \<in> set xs \<Longrightarrow> y \<in> set xs \<Longrightarrow> K x = K y \<Longrightarrow> x = y"
  shows "sound_contributions ctx (List.map_filter h xs)"
proof -
  have shape: "\<exists>x \<in> set xs. h x = Some c" if "c \<in> set (List.map_filter h xs)" for c
    using that by (auto simp: set_map_filter)
  show ?thesis
    unfolding sound_contributions_def
  proof (intro conjI ballI impI)
    fix c c' assume "c \<in> set (List.map_filter h xs)" "c' \<in> set (List.map_filter h xs)" and key: "pc_key c = pc_key c'"
    then obtain x y where "x \<in> set xs" "h x = Some c" "y \<in> set xs" "h y = Some c'" using shape by blast
    moreover from this key assms have "x = y" by metis
    ultimately show "pc_value c = pc_value c'" by simp
  qed (use shape assms(1) in blast)+
qed

lemma group_support:
  assumes "fmlookup (group_facts key (projected_facts (arrived fs ds))) g = Some xs"
  shows "fset_of_list (map fact_id xs) \<noteq> {||}" and "x \<in> set xs \<Longrightarrow> usable ds (fact_id x)"
    and "i |\<in>| fset_of_list (map fact_id xs) \<Longrightarrow> usable ds i"
proof -
  have xs: "xs = filter (\<lambda>f. key f = Some g) (projected_facts (arrived fs ds))" "xs \<noteq> []"
    using assms [unfolded fmlookup_group_facts] by blast+
  from xs(2) show "fset_of_list (map fact_id xs) \<noteq> {||}" by (cases xs) simp_all
  show *: "x \<in> set xs \<Longrightarrow> usable ds (fact_id x)" for x by (simp add: xs(1) set_projected_facts)
  show "i |\<in>| fset_of_list (map fact_id xs) \<Longrightarrow> usable ds i" using * by (auto simp: fset_of_list_elem)
qed

lemma sound_grouped_facts:
  fixes fs ds key
  defines "groups \<equiv> group_facts key (projected_facts (arrived fs ds))"
  assumes "\<And>g xs. pc_key (h (g, xs)) = K g" and "\<And>g g'. K g = K g' \<Longrightarrow> g = g'"
    and "\<And>g xs. fmlookup groups g = Some xs \<Longrightarrow> fset_of_list (map fact_id xs) |\<subseteq>| pc_direct_support (h (g, xs))"
    and "\<And>g xs i. fmlookup groups g = Some xs \<Longrightarrow> i |\<in>| pc_direct_support (h (g, xs)) \<Longrightarrow>
      i |\<in>| fset_of_list (map fact_id xs) \<or> usable ds i"
  shows "sound_contributions (arrived fs ds) (map h (sorted_list_of_fmap groups))"
proof (rule sound_grouped [where K = K])
  fix g xs assume g: "fmlookup groups g = Some xs"
  note support = group_support [OF g [unfolded groups_def]]
  have "pc_direct_support (h (g, xs)) \<noteq> {||}" using support(1) assms(4) [OF g] by fastforce
  moreover have "usable ds i" if "i |\<in>| pc_direct_support (h (g, xs))" for i
    using assms(5) [OF g that] support(3) [of i] by fastforce
  ultimately show "pc_key (h (g, xs)) = K g \<and> pc_direct_support (h (g, xs)) \<noteq> {||} \<and>
      (\<forall>i. i |\<in>| pc_direct_support (h (g, xs)) \<longrightarrow> is_projected (arrived fs ds) i)"
    by (simp add: assms(2))
qed (rule assms(3))

lemma sound_grouped_members:
  fixes fs ds key
  defines "groups \<equiv> group_members key (projected_facts (arrived fs ds))"
  assumes "\<And>g M. pc_key (h (g, M)) = K g" and "\<And>g g'. K g = K g' \<Longrightarrow> g = g'"
    and "\<And>g M. pc_direct_support (h (g, M)) = M"
  shows "sound_contributions (arrived fs ds) (map h (sorted_list_of_fmap groups))"
proof (rule sound_grouped [where K = K])
  fix g M assume g: "fmlookup groups g = Some M"
  show "pc_key (h (g, M)) = K g \<and> pc_direct_support (h (g, M)) \<noteq> {||} \<and>
      (\<forall>i. i |\<in>| pc_direct_support (h (g, M)) \<longrightarrow> is_projected (arrived fs ds) i)"
    using group_members_occupied [OF g [unfolded groups_def]] group_usable [OF g [unfolded groups_def]]
    by (simp add: assms(2,4))
qed (rule assms(3))

section \<open>Reading a report\<close>

lemma report_projected_facts:
  assumes "reduce_complete fs domain = Some (Ok r)"
  shows "f \<in> set (projected_facts (report_context r)) \<longleftrightarrow>
    fact_set_get (rr_facts r) (fact_id f) = Some f \<and> usable (rr_decisions r) (fact_id f)"
  by (simp add: report_context_round [OF assms] reduce_complete_OkD(1) [OF assms] set_projected_facts)

lemma report_view_iff:
  assumes "reduce_complete fs domain = Some (Ok r)"
  shows "fmlookup (rr_projections r) k = Some w \<longleftrightarrow>
    (\<exists>c \<in> set (domain_projections domain (report_context r)). pc_key c = k \<and> pc_value c = w)"
proof -
  note d = derive_projections_Ok(1,6) [OF reduce_complete_OkD(6) [OF assms]]
  have "\<exists>c \<in> set (domain_projections domain (report_context r)). pc_key c = k"
    if "fmlookup (rr_projections r) k = Some w"
    using fmdomI [OF that] unfolding d(1) by auto
  then show ?thesis using d(2) by force
qed

end
