(* ===== verification/Agent.thy ===== *)
theory Agent
  imports Policy_Support
begin

text \<open>
  The named-agent policy: \<open>hq-reducer/src/agent.rs\<close>. Agents claim permanent names for agent mailboxes,
  bind provider sessions, select one, rename sessions and retire; the policy validates these facts
  on top of the authority policy and projects the resulting registers.
\<close>

section \<open>Keys, views and reasons\<close>

datatype SessionIdentity = SessionIdentity (si_provider: ProviderId) (si_session: ProviderSessionId)

datatype AgentAggregateKey =
    NameKey ShortText
  | AgentKey AgentId
  | AgentMailboxKey MailboxAddress
  | SessionKey SessionIdentity
  | SelectionKey AgentId
  | RenameKey AgentId SessionIdentity
  | ContextKey MailboxAddress

datatype AgentProjectionKey =
    NameProjection ShortText
  | AgentStateProjection AgentId
  | SessionProjection SessionIdentity
  | ContextProjection MailboxAddress
  | SelectionProjection AgentId
  | RenameProjection AgentId SessionIdentity
  | DirectSessionProjection MailboxAddress SessionIdentity

datatype NameClaimSubject = NameClaimSubject (nc_agent_id: AgentId) (nc_mailbox: MailboxAddress)

record NameReservationView =
  nr_claims :: "(FactId, NameClaimSubject) fmap"
  nr_conflicted :: bool
  nr_retired :: bool

datatype AgentLifecycle = LifecycleActive | LifecycleConflicted | LifecycleRetired

record AgentView =
  av_claims :: "FactId fset"
  av_names :: "ShortText fset"
  av_mailboxes :: "MailboxAddress fset"
  av_retirements :: "FactId fset"
  av_lifecycle :: AgentLifecycle
  av_runnable :: bool
  av_selected_session :: "SessionIdentity option"
  av_name_reserved :: bool

record SessionBindingView =
  sb_bindings :: "(FactId, MailboxAddress) fmap"
  sb_conflicted :: bool
  sb_mailbox :: "MailboxAddress option"

record ContextHistoryView =
  ch_history :: "(FactId, RepositoryContext) fmap"
  ch_frontier :: "FactId fset"

datatype SelectionCandidate =
  SelectionCandidate (sc_session: SessionIdentity) (sc_context: RepositoryContext)

record SelectionView =
  sv_candidates :: "(FactId, SelectionCandidate) fmap"
  sv_frontier :: "FactId fset"
  sv_active :: "SelectionCandidate option"
  sv_conflicted :: bool

record RenameView =
  rn_candidates :: "(FactId, ShortText option) fmap"
  rn_frontier :: "FactId fset"
  rn_resolved :: bool
  rn_display_name :: "ShortText option"

record DirectSessionView =
  dv_binding_facts :: "FactId fset"
  dv_mailbox :: MailboxAddress
  dv_named_agent :: "AgentId option"
  dv_conflicted :: bool

datatype AgentProjection =
    NameValue NameReservationView
  | AgentValue AgentView
  | SessionValue SessionBindingView
  | ContextValue ContextHistoryView
  | SelectionValue SelectionView
  | RenameValue RenameView
  | DirectSessionValue DirectSessionView

datatype AgentReason =
    AgentAuthority AuthorityReason
  | InvalidName
  | AgentMailboxMismatch
  | AgentSubjectMismatch
  | RetiredAgent
  | NameConflict
  | AgentClaimConflict
  | SessionBindingConflict
  | SelectionConflict
  | RenameConflict

primrec session_rank :: "SessionIdentity \<Rightarrow> string \<times> string" where
  "session_rank (SessionIdentity p s) = (p, s)"

instantiation SessionIdentity :: linorder
begin
definition less_eq_SessionIdentity :: "SessionIdentity \<Rightarrow> SessionIdentity \<Rightarrow> bool" where
  "a \<le> b \<longleftrightarrow> session_rank a \<le> session_rank b"
definition less_SessionIdentity :: "SessionIdentity \<Rightarrow> SessionIdentity \<Rightarrow> bool" where
  "a < b \<longleftrightarrow> session_rank a < session_rank b"
instance
proof
  fix a b :: SessionIdentity
  show "a \<le> b \<Longrightarrow> b \<le> a \<Longrightarrow> a = b"
    by (cases a; cases b) (auto simp: less_eq_SessionIdentity_def)
qed (auto simp: less_eq_SessionIdentity_def less_SessionIdentity_def less_le_not_le linear intro: order.trans)
end

primrec agent_key_rank :: "AgentProjectionKey \<Rightarrow> nat \<times> 256 word \<times> 256 word \<times> string \<times> string" where
  "agent_key_rank (NameProjection n) = (0, 0, 0, n, [])"
| "agent_key_rank (AgentStateProjection a) = (1, a, 0, [], [])"
| "agent_key_rank (SessionProjection s) = (2, 0, 0, si_provider s, si_session s)"
| "agent_key_rank (ContextProjection m) = (3, ma_installation_id m, ma_mailbox_id m, [], [])"
| "agent_key_rank (SelectionProjection a) = (4, a, 0, [], [])"
| "agent_key_rank (RenameProjection a s) = (5, a, 0, si_provider s, si_session s)"
| "agent_key_rank (DirectSessionProjection m s) =
     (6, ma_installation_id m, ma_mailbox_id m, si_provider s, si_session s)"

lemma agent_key_rank_inj: "agent_key_rank a = agent_key_rank b \<Longrightarrow> a = b"
  by (cases a; cases b) (auto simp: MailboxAddress.expand SessionIdentity.expand)

instantiation AgentProjectionKey :: linorder
begin
definition less_eq_AgentProjectionKey :: "AgentProjectionKey \<Rightarrow> AgentProjectionKey \<Rightarrow> bool" where
  "a \<le> b \<longleftrightarrow> agent_key_rank a \<le> agent_key_rank b"
definition less_AgentProjectionKey :: "AgentProjectionKey \<Rightarrow> AgentProjectionKey \<Rightarrow> bool" where
  "a < b \<longleftrightarrow> agent_key_rank a < agent_key_rank b"
instance
  by standard (auto simp: less_eq_AgentProjectionKey_def less_AgentProjectionKey_def
      less_le_not_le linear intro: agent_key_rank_inj order.trans)
end

text \<open>The derived order of reasons and conflicts, as an injective rank.\<close>

definition role_rank :: "AuthorityRole \<Rightarrow> nat" where
  "role_rank role = length (takeWhile (\<lambda>r. r \<noteq> role) authority_role_all)"

primrec authority_reason_rank :: "AuthorityReason \<Rightarrow> nat \<times> nat" where
  "authority_reason_rank ScopeMismatch = (0, 0)"
| "authority_reason_rank SignerMismatch = (1, 0)"
| "authority_reason_rank SubjectMismatch = (2, 0)"
| "authority_reason_rank (MissingAuthority r) = (3, role_rank r)"
| "authority_reason_rank (AuthorityKindMismatch r) = (4, role_rank r)"
| "authority_reason_rank RootHasParents = (5, 0)"
| "authority_reason_rank UniqueRootConflict = (6, 0)"
| "authority_reason_rank ConcurrentRegisterConflict = (7, 0)"
| "authority_reason_rank IncompleteRevocationFrontier = (8, 0)"
| "authority_reason_rank RevokedMailboxGrant = (9, 0)"
| "authority_reason_rank InactiveAccountMembership = (10, 0)"

primrec agent_reason_rank :: "AgentReason \<Rightarrow> nat \<times> nat \<times> nat" where
  "agent_reason_rank (AgentAuthority r) = (0, authority_reason_rank r)"
| "agent_reason_rank InvalidName = (1, 0, 0)"
| "agent_reason_rank AgentMailboxMismatch = (2, 0, 0)"
| "agent_reason_rank AgentSubjectMismatch = (3, 0, 0)"
| "agent_reason_rank RetiredAgent = (4, 0, 0)"
| "agent_reason_rank NameConflict = (5, 0, 0)"
| "agent_reason_rank AgentClaimConflict = (6, 0, 0)"
| "agent_reason_rank SessionBindingConflict = (7, 0, 0)"
| "agent_reason_rank SelectionConflict = (8, 0, 0)"
| "agent_reason_rank RenameConflict = (9, 0, 0)"

definition agent_conflict_rank :: "AgentReason ConflictObservation \<Rightarrow> (nat \<times> nat \<times> nat \<times> nat) \<times> FactId list" where
  "agent_conflict_rank c =
     ((case co_reason c of CollisionConflict \<Rightarrow> (0, 0, 0, 0) | DomainConflict r \<Rightarrow> (1, agent_reason_rank r)),
      sorted_list_of_fset (co_participants c))"

section \<open>Classification\<close>

definition ascii_lowercase :: "char \<Rightarrow> bool" where
  "ascii_lowercase c \<longleftrightarrow> CHR ''a'' \<le> c \<and> c \<le> CHR ''z''"

definition ascii_digit :: "char \<Rightarrow> bool" where
  "ascii_digit c \<longleftrightarrow> CHR ''0'' \<le> c \<and> c \<le> CHR ''9''"

definition ascii_alphanumeric :: "char \<Rightarrow> bool" where
  "ascii_alphanumeric c \<longleftrightarrow> ascii_lowercase c \<or> (CHR ''A'' \<le> c \<and> c \<le> CHR ''Z'') \<or> ascii_digit c"

definition valid_agent_name :: "ShortText \<Rightarrow> bool" where
  "valid_agent_name name \<longleftrightarrow>
     name \<noteq> [] \<and> ascii_lowercase (hd name) \<and> ascii_alphanumeric (last name) \<and>
     list_all (\<lambda>byte. ascii_lowercase byte \<or> ascii_digit byte \<or> byte = CHR ''-'') name"

text \<open>The candidates every lookup below accepts: projected facts that the fact cites as parents.\<close>

definition cited_candidate :: "'r ReductionContext \<Rightarrow> SemanticFact \<Rightarrow> SemanticFact \<Rightarrow> bool" where
  "cited_candidate ctx f c \<longleftrightarrow> is_projected ctx (fact_id c) \<and> fact_id c |\<in>| fact_parents f"

definition find_cited ::
  "'r ReductionContext \<Rightarrow> SemanticFact \<Rightarrow> (SemanticFact \<Rightarrow> bool) \<Rightarrow> SemanticFact option" where
  "find_cited ctx f P = find (\<lambda>c. cited_candidate ctx f c \<and> P c) (fact_set_facts (ctx_facts ctx))"

definition creates_agent_mailbox :: "MailboxAddress \<Rightarrow> SemanticFact \<Rightarrow> bool" where
  "creates_agent_mailbox address c \<longleftrightarrow> author_id c = ma_installation_id address \<and>
     (case payload c of
        MailboxCreated candidate_id kind _ \<Rightarrow> kind = AgentMailbox \<and> candidate_id = ma_mailbox_id address
      | _ \<Rightarrow> False)"

definition require_agent_mailbox ::
  "SemanticFact \<Rightarrow> MailboxId \<Rightarrow> 'r ReductionContext \<Rightarrow> AgentReason + SemanticFact" where
  "require_agent_mailbox f mailbox_id ctx =
     ok_or AgentMailboxMismatch
       (find_cited ctx f (creates_agent_mailbox (MailboxAddress (author_id f) mailbox_id)))"

definition claims_agent :: "AgentId \<Rightarrow> MailboxId \<Rightarrow> SemanticFact \<Rightarrow> bool" where
  "claims_agent agent_id mailbox_id c =
     (case payload c of AgentNameClaimed a m _ \<Rightarrow> a = agent_id \<and> m = mailbox_id | _ \<Rightarrow> False)"

definition require_claim_parent ::
  "SemanticFact \<Rightarrow> AgentId \<Rightarrow> MailboxId \<Rightarrow> 'r ReductionContext \<Rightarrow> AgentReason + SemanticFact" where
  "require_claim_parent f agent_id mailbox_id ctx =
     ok_or AgentSubjectMismatch (find_cited ctx f (claims_agent agent_id mailbox_id))"

definition claimed_mailbox :: "AgentId \<Rightarrow> SemanticFact \<Rightarrow> (ShortText \<times> MailboxId) option" where
  "claimed_mailbox agent_id c =
     (case payload c of AgentNameClaimed a m name \<Rightarrow> if a = agent_id then Some (name, m) else None | _ \<Rightarrow> None)"

definition require_claim_for_agent_parent ::
  "SemanticFact \<Rightarrow> AgentId \<Rightarrow> 'r ReductionContext \<Rightarrow> AgentReason + ShortText \<times> MailboxId" where
  "require_claim_for_agent_parent f agent_id ctx =
     (case List.map_filter (\<lambda>c. if cited_candidate ctx f c then claimed_mailbox agent_id c else None)
             (fact_set_facts (ctx_facts ctx)) of
        [] \<Rightarrow> Err AgentSubjectMismatch
      | found # _ \<Rightarrow> Ok found)"

definition binds_session :: "MailboxId \<Rightarrow> ProviderId \<Rightarrow> ProviderSessionId \<Rightarrow> SemanticFact \<Rightarrow> bool" where
  "binds_session mailbox_id provider session c =
     (case payload c of
        MailboxSessionBound m p s \<Rightarrow> m = mailbox_id \<and> p = provider \<and> s = session | _ \<Rightarrow> False)"

definition require_binding_parent ::
  "SemanticFact \<Rightarrow> MailboxId \<Rightarrow> ProviderId \<Rightarrow> ProviderSessionId \<Rightarrow> 'r ReductionContext \<Rightarrow>
     AgentReason + SemanticFact" where
  "require_binding_parent f mailbox_id provider session ctx =
     ok_or AgentSubjectMismatch (find_cited ctx f (binds_session mailbox_id provider session))"

definition records_context :: "MailboxId \<Rightarrow> RepositoryContext \<Rightarrow> SemanticFact \<Rightarrow> bool" where
  "records_context mailbox_id selected c =
     (case payload c of MailboxContextRecorded m recorded \<Rightarrow> m = mailbox_id \<and> recorded = selected | _ \<Rightarrow> False)"

definition require_context_parent ::
  "SemanticFact \<Rightarrow> MailboxId \<Rightarrow> RepositoryContext \<Rightarrow> 'r ReductionContext \<Rightarrow> AgentReason + SemanticFact" where
  "require_context_parent f mailbox_id selected_context ctx =
     ok_or AgentSubjectMismatch (find_cited ctx f (records_context mailbox_id selected_context))"

definition retires_agent :: "AgentId \<Rightarrow> SemanticFact \<Rightarrow> bool" where
  "retires_agent agent_id c = (case payload c of AgentRetired a _ \<Rightarrow> a = agent_id | _ \<Rightarrow> False)"

definition retirement_before_claim :: "AgentId \<Rightarrow> SemanticFact \<Rightarrow> 'r ReductionContext \<Rightarrow> bool" where
  "retirement_before_claim agent_id f ctx =
     list_ex (\<lambda>c. is_projected ctx (fact_id c) \<and> retires_agent agent_id c
                 \<and> structurally_reaches (ctx_graph ctx) (fact_id c) (fact_id f))
       (fact_set_facts (ctx_facts ctx))"

definition reject_after_retirement ::
  "SemanticFact \<Rightarrow> AgentId \<Rightarrow> 'r ReductionContext \<Rightarrow> AgentReason + unit" where
  "reject_after_retirement f agent_id ctx =
     (let retired_before =
            list_ex (\<lambda>c. is_projected ctx (fact_id c) \<and> retires_agent agent_id c
                        \<and> structurally_reaches (ctx_graph ctx) (fact_id c) (fact_id f))
              (fact_set_facts (ctx_facts ctx))
      in check (\<not> retired_before) RetiredAgent)"

definition classify_agent_fact :: "SemanticFact \<Rightarrow> 'r ReductionContext \<Rightarrow> AgentReason + unit" where
  "classify_agent_fact f ctx =
     (case payload f of
        MailboxSessionBound mailbox_id _ _ \<Rightarrow> and_then (require_agent_mailbox f mailbox_id ctx) (\<lambda>_. Ok ())
      | MailboxContextRecorded mailbox_id _ \<Rightarrow> and_then (require_agent_mailbox f mailbox_id ctx) (\<lambda>_. Ok ())
      | AgentNameClaimed agent_id mailbox_id name \<Rightarrow>
          if \<not> valid_agent_name name then Err InvalidName
          else and_then (require_agent_mailbox f mailbox_id ctx) (\<lambda>_.
            if retirement_before_claim agent_id f ctx then Err RetiredAgent else Ok ())
      | AgentRetired agent_id mailbox_id \<Rightarrow>
          and_then (require_claim_parent f agent_id mailbox_id ctx) (\<lambda>_. Ok ())
      | ProviderSessionSelected agent_id mailbox_id provider session selected_context \<Rightarrow>
          and_then (require_claim_parent f agent_id mailbox_id ctx) (\<lambda>_.
          and_then (require_binding_parent f mailbox_id provider session ctx) (\<lambda>_.
          and_then (require_context_parent f mailbox_id selected_context ctx) (\<lambda>_.
            reject_after_retirement f agent_id ctx)))
      | ProviderSessionRenamed agent_id provider session _ \<Rightarrow>
          and_then (require_claim_for_agent_parent f agent_id ctx) (\<lambda>(_, mailbox_id).
          and_then (require_binding_parent f mailbox_id provider session ctx) (\<lambda>_.
            reject_after_retirement f agent_id ctx))
      | _ \<Rightarrow> Ok ())"

definition agent_classify ::
  "AuthorityPolicy \<Rightarrow> SemanticFact \<Rightarrow> AgentReason ReductionContext \<Rightarrow> AgentReason DomainDecision" where
  "agent_classify policy f ctx =
     (let authority = classify_fact policy f ctx in
      if authority \<noteq> DomainProjected then map_authority_decision AgentAuthority authority
      else (case classify_agent_fact f ctx of
              Ok _ \<Rightarrow> DomainProjected
            | Err reason \<Rightarrow> DomainInvalid reason))"

section \<open>Aggregates and groups\<close>

definition session_identity :: "ProviderId \<Rightarrow> ProviderSessionId \<Rightarrow> SessionIdentity" where
  "session_identity provider session = SessionIdentity provider session"

definition agent_mailbox_subject :: "SemanticFact \<Rightarrow> MailboxId \<Rightarrow> MailboxAddress" where
  "agent_mailbox_subject f mailbox_id = MailboxAddress (author_id f) mailbox_id"

definition agent_aggregate_keys :: "SemanticFact \<Rightarrow> AgentAggregateKey list" where
  "agent_aggregate_keys f =
     (case payload f of
        MailboxSessionBound _ provider session \<Rightarrow> [SessionKey (session_identity provider session)]
      | MailboxContextRecorded mailbox_id _ \<Rightarrow> [ContextKey (agent_mailbox_subject f mailbox_id)]
      | AgentNameClaimed agent_id mailbox_id name \<Rightarrow>
          [NameKey name, AgentKey agent_id, AgentMailboxKey (agent_mailbox_subject f mailbox_id)]
      | AgentRetired agent_id _ \<Rightarrow> [AgentKey agent_id]
      | ProviderSessionSelected agent_id _ _ _ _ \<Rightarrow> [SelectionKey agent_id]
      | ProviderSessionRenamed agent_id provider session _ \<Rightarrow> [RenameKey agent_id (session_identity provider session)]
      | _ \<Rightarrow> [])"

section \<open>Projections\<close>

type_synonym AgentContribution = "(AgentProjectionKey, AgentProjection) ProjectionContribution"

definition claimed_name :: "SemanticFact \<Rightarrow> ShortText option" where
  "claimed_name f = (case payload f of AgentNameClaimed _ _ name \<Rightarrow> Some name | _ \<Rightarrow> None)"

definition name_claim :: "SemanticFact \<Rightarrow> (FactId \<times> NameClaimSubject) option" where
  "name_claim f =
     (case payload f of
        AgentNameClaimed agent_id mailbox_id _ \<Rightarrow>
          Some (fact_id f, NameClaimSubject agent_id (agent_mailbox_subject f mailbox_id))
      | _ \<Rightarrow> None)"

definition retires_subject :: "NameClaimSubject \<Rightarrow> SemanticFact \<Rightarrow> bool" where
  "retires_subject subject c =
     (case payload c of
        AgentRetired agent_id mailbox_id \<Rightarrow>
          agent_id = nc_agent_id subject \<and> agent_mailbox_subject c mailbox_id = nc_mailbox subject
      | _ \<Rightarrow> False)"

definition name_contribution :: "'r ReductionContext \<Rightarrow> ShortText \<times> SemanticFact list \<Rightarrow> AgentContribution" where
  "name_contribution ctx grouped =
     (case grouped of (name, facts) \<Rightarrow>
        let claims = List.map_filter name_claim facts;
            retired = list_ex (\<lambda>subject. list_ex (retires_subject subject) (projected_facts ctx)) (map snd claims)
        in \<lparr>pc_key = NameProjection name,
            pc_value = NameValue \<lparr>nr_claims = fmap_of_list claims, nr_conflicted = several (map snd claims),
              nr_retired = retired\<rparr>,
            pc_direct_support = fset_of_list (map fact_id facts)\<rparr>)"

definition name_projections :: "'r ReductionContext \<Rightarrow> AgentContribution list" where
  "name_projections ctx =
     map (name_contribution ctx) (sorted_list_of_fmap (group_facts claimed_name (projected_facts ctx)))"

definition bound_session :: "SemanticFact \<Rightarrow> SessionIdentity option" where
  "bound_session f =
     (case payload f of MailboxSessionBound _ provider session \<Rightarrow> Some (session_identity provider session) | _ \<Rightarrow> None)"

definition session_binding :: "SemanticFact \<Rightarrow> (FactId \<times> MailboxAddress) option" where
  "session_binding f =
     (case payload f of
        MailboxSessionBound mailbox_id _ _ \<Rightarrow> Some (fact_id f, agent_mailbox_subject f mailbox_id) | _ \<Rightarrow> None)"

definition session_contribution :: "SessionIdentity \<times> SemanticFact list \<Rightarrow> AgentContribution" where
  "session_contribution grouped =
     (case grouped of (session, facts) \<Rightarrow>
        let bindings = List.map_filter session_binding facts
        in \<lparr>pc_key = SessionProjection session,
            pc_value = SessionValue \<lparr>sb_bindings = fmap_of_list bindings,
              sb_conflicted = several (map snd bindings), sb_mailbox = sole (map snd bindings)\<rparr>,
            pc_direct_support = fset_of_list (map fact_id facts)\<rparr>)"

definition session_projections :: "'r ReductionContext \<Rightarrow> AgentContribution list" where
  "session_projections ctx =
     map session_contribution (sorted_list_of_fmap (group_facts bound_session (projected_facts ctx)))"

definition recorded_mailbox :: "SemanticFact \<Rightarrow> MailboxAddress option" where
  "recorded_mailbox f =
     (case payload f of MailboxContextRecorded mailbox_id _ \<Rightarrow> Some (agent_mailbox_subject f mailbox_id) | _ \<Rightarrow> None)"

definition recorded_context :: "SemanticFact \<Rightarrow> (FactId \<times> RepositoryContext) option" where
  "recorded_context f =
     (case payload f of MailboxContextRecorded _ recorded \<Rightarrow> Some (fact_id f, recorded) | _ \<Rightarrow> None)"

definition context_contribution :: "'r ReductionContext \<Rightarrow> MailboxAddress \<times> SemanticFact list \<Rightarrow> AgentContribution" where
  "context_contribution ctx grouped =
     (case grouped of (mailbox, facts) \<Rightarrow>
        let history = fmap_of_list (List.map_filter recorded_context facts);
            members = fmdom history
        in \<lparr>pc_key = ContextProjection mailbox,
            pc_value = ContextValue \<lparr>ch_history = history, ch_frontier = maximal members ctx\<rparr>,
            pc_direct_support = members\<rparr>)"

definition context_projections :: "'r ReductionContext \<Rightarrow> AgentContribution list" where
  "context_projections ctx =
     map (context_contribution ctx) (sorted_list_of_fmap (group_facts recorded_mailbox (projected_facts ctx)))"

definition session_bindings :: "SessionIdentity \<Rightarrow> 'r ReductionContext \<Rightarrow> (FactId \<times> MailboxAddress) list" where
  "session_bindings identity ctx =
     List.map_filter (\<lambda>f. if bound_session f = Some identity then session_binding f else None) (projected_facts ctx)"

definition session_unconflicted :: "SessionIdentity \<Rightarrow> 'r ReductionContext \<Rightarrow> bool" where
  "session_unconflicted session ctx \<longleftrightarrow> length (remdups (map snd (session_bindings session ctx))) = 1"

definition agent_retired :: "AgentId \<Rightarrow> 'r ReductionContext \<Rightarrow> bool" where
  "agent_retired agent_id ctx = list_ex (retires_agent agent_id) (projected_facts ctx)"

definition selected_agent :: "SemanticFact \<Rightarrow> AgentId option" where
  "selected_agent f = (case payload f of ProviderSessionSelected agent_id _ _ _ _ \<Rightarrow> Some agent_id | _ \<Rightarrow> None)"

definition selection_candidate :: "SemanticFact \<Rightarrow> SelectionCandidate option" where
  "selection_candidate f =
     (case payload f of
        ProviderSessionSelected _ _ provider session recorded \<Rightarrow>
          Some (SelectionCandidate (session_identity provider session) recorded)
      | _ \<Rightarrow> None)"

text \<open>The facts of a frontier with a reading of each, in identity order.\<close>

definition frontier_values ::
  "'r ReductionContext \<Rightarrow> (SemanticFact \<Rightarrow> 'v option) \<Rightarrow> FactId fset \<Rightarrow> (FactId \<times> 'v) list" where
  "frontier_values ctx reading frontier =
     List.map_filter (\<lambda>i. case context_fact ctx i of
         Some f \<Rightarrow> map_option (Pair i) (reading f) | None \<Rightarrow> None) (sorted_list_of_fset frontier)"

definition agent_selection_contribution :: "'r ReductionContext \<Rightarrow> AgentId \<times> FactId fset \<Rightarrow> AgentContribution" where
  "agent_selection_contribution ctx grouped =
     (case grouped of (agent_id, members) \<Rightarrow>
        let frontier = maximal members ctx;
            candidates = frontier_values ctx selection_candidate frontier;
            retired = agent_retired agent_id ctx;
            active = (case sole (map snd candidates) of
                        Some candidate \<Rightarrow>
                          if \<not> retired \<and> session_unconflicted (sc_session candidate) ctx then Some candidate else None
                      | None \<Rightarrow> None)
        in \<lparr>pc_key = SelectionProjection agent_id,
            pc_value = SelectionValue \<lparr>sv_candidates = fmap_of_list candidates, sv_frontier = frontier,
              sv_active = active, sv_conflicted = several (map snd candidates)\<rparr>,
            pc_direct_support = members\<rparr>)"

definition agent_selection_projections :: "'r ReductionContext \<Rightarrow> AgentContribution list" where
  "agent_selection_projections ctx =
     map (agent_selection_contribution ctx) (sorted_list_of_fmap (group_members selected_agent (projected_facts ctx)))"

definition renamed_session :: "SemanticFact \<Rightarrow> (AgentId \<times> SessionIdentity) option" where
  "renamed_session f =
     (case payload f of
        ProviderSessionRenamed agent_id provider session _ \<Rightarrow> Some (agent_id, session_identity provider session)
      | _ \<Rightarrow> None)"

definition given_name :: "SemanticFact \<Rightarrow> ShortText option option" where
  "given_name f = (case payload f of ProviderSessionRenamed _ _ _ display_name \<Rightarrow> Some display_name | _ \<Rightarrow> None)"

definition rename_contribution ::
  "'r ReductionContext \<Rightarrow> (AgentId \<times> SessionIdentity) \<times> FactId fset \<Rightarrow> AgentContribution" where
  "rename_contribution ctx grouped =
     (case grouped of ((agent, session), members) \<Rightarrow>
        let frontier = maximal members ctx;
            candidates = frontier_values ctx given_name frontier;
            only_value = sole (map snd candidates);
            resolved = (only_value \<noteq> None \<and> \<not> agent_retired agent ctx);
            display_name = (if resolved then Option.bind only_value id else None)
        in \<lparr>pc_key = RenameProjection agent session,
            pc_value = RenameValue \<lparr>rn_candidates = fmap_of_list candidates, rn_frontier = frontier,
              rn_resolved = resolved, rn_display_name = display_name\<rparr>,
            pc_direct_support = members\<rparr>)"

definition rename_projections :: "'r ReductionContext \<Rightarrow> AgentContribution list" where
  "rename_projections ctx =
     map (rename_contribution ctx) (sorted_list_of_fmap (group_members renamed_session (projected_facts ctx)))"

definition claim_subject :: "SemanticFact \<Rightarrow> (AgentId \<times> MailboxAddress \<times> ShortText) option" where
  "claim_subject f =
     (case payload f of
        AgentNameClaimed agent_id mailbox_id name \<Rightarrow> Some (agent_id, agent_mailbox_subject f mailbox_id, name)
      | _ \<Rightarrow> None)"

definition claim_conflicted :: "SemanticFact \<Rightarrow> 'r ReductionContext \<Rightarrow> bool" where
  "claim_conflicted f ctx =
     (case claim_subject f of
        None \<Rightarrow> False
      | Some (agent_id, mailbox, name) \<Rightarrow>
          list_ex (\<lambda>c. case claim_subject c of
              None \<Rightarrow> False
            | Some (other_agent, other_mailbox, other_name) \<Rightarrow>
                (other_agent = agent_id \<or> other_mailbox = mailbox \<or> other_name = name)
                \<and> (other_agent, other_mailbox, other_name) \<noteq> (agent_id, mailbox, name))
            (projected_facts ctx))"

definition unique_agent_for_mailbox :: "MailboxAddress \<Rightarrow> 'r ReductionContext \<Rightarrow> AgentId option" where
  "unique_agent_for_mailbox mailbox ctx =
     sole (List.map_filter (\<lambda>f. case claim_subject f of
         Some (agent_id, claimed, _) \<Rightarrow>
           if claimed = mailbox \<and> \<not> claim_conflicted f ctx then Some agent_id else None
       | None \<Rightarrow> None) (projected_facts ctx))"

definition selection_members :: "AgentId \<Rightarrow> 'r ReductionContext \<Rightarrow> FactId fset" where
  "selection_members agent_id ctx =
     fset_of_list (map fact_id (filter (\<lambda>f. selected_agent f = Some agent_id) (projected_facts ctx)))"

definition selection_value :: "AgentId \<Rightarrow> 'r ReductionContext \<Rightarrow> SessionIdentity option" where
  "selection_value agent_id ctx =
     (let frontier = maximal (selection_members agent_id ctx) ctx in
      case sole (map (sc_session \<circ> snd) (frontier_values ctx selection_candidate frontier)) of
        Some session \<Rightarrow> if session_unconflicted session ctx then Some session else None
      | None \<Rightarrow> None)"

definition claimed_agent :: "SemanticFact \<Rightarrow> AgentId option" where
  "claimed_agent f = (case payload f of AgentNameClaimed agent_id _ _ \<Rightarrow> Some agent_id | _ \<Rightarrow> None)"

definition agent_contribution :: "'r ReductionContext \<Rightarrow> AgentId \<times> SemanticFact list \<Rightarrow> AgentContribution" where
  "agent_contribution ctx grouped =
     (case grouped of (agent_id, facts) \<Rightarrow>
        let claims = fset_of_list (map fact_id facts);
            subjects = List.map_filter claim_subject facts;
            names = map (snd \<circ> snd) subjects;
            mailboxes = map (fst \<circ> snd) subjects;
            retirements = fset_of_list (map fact_id (filter (retires_agent agent_id) (projected_facts ctx)));
            retired = (retirements \<noteq> {||});
            global_conflict = list_ex (\<lambda>claim. claim_conflicted claim ctx) facts;
            lifecycle = (if retired then LifecycleRetired
                         else if length (remdups names) = 1 \<and> length (remdups mailboxes) = 1 \<and> \<not> global_conflict
                         then LifecycleActive else LifecycleConflicted);
            selected = selection_value agent_id ctx;
            runnable = (lifecycle = LifecycleActive \<and> selected \<noteq> None)
        in \<lparr>pc_key = AgentStateProjection agent_id,
            pc_value = AgentValue \<lparr>av_claims = claims, av_names = fset_of_list names,
              av_mailboxes = fset_of_list mailboxes, av_retirements = retirements, av_lifecycle = lifecycle,
              av_runnable = runnable, av_selected_session = (if runnable then selected else None),
              av_name_reserved = True\<rparr>,
            pc_direct_support = claims |\<union>| retirements |\<union>| selection_members agent_id ctx\<rparr>)"

definition agent_projections :: "'r ReductionContext \<Rightarrow> AgentContribution list" where
  "agent_projections ctx =
     map (agent_contribution ctx) (sorted_list_of_fmap (group_facts claimed_agent (projected_facts ctx)))"

definition direct_binding :: "SemanticFact \<Rightarrow> (MailboxAddress \<times> SessionIdentity) option" where
  "direct_binding f =
     (case payload f of
        MailboxSessionBound mailbox_id provider session \<Rightarrow>
          Some (agent_mailbox_subject f mailbox_id, session_identity provider session)
      | _ \<Rightarrow> None)"

definition direct_session_contribution ::
  "'r ReductionContext \<Rightarrow> (MailboxAddress \<times> SessionIdentity) \<times> FactId fset \<Rightarrow> AgentContribution" where
  "direct_session_contribution ctx grouped =
     (case grouped of ((mailbox, identity), binding_facts) \<Rightarrow>
        \<lparr>pc_key = DirectSessionProjection mailbox identity,
         pc_value = DirectSessionValue \<lparr>dv_binding_facts = binding_facts, dv_mailbox = mailbox,
           dv_named_agent = unique_agent_for_mailbox mailbox ctx,
           dv_conflicted = several (map snd (session_bindings identity ctx))\<rparr>,
         pc_direct_support = binding_facts\<rparr>)"

definition direct_session_projections :: "'r ReductionContext \<Rightarrow> AgentContribution list" where
  "direct_session_projections ctx =
     map (direct_session_contribution ctx)
       (sorted_list_of_fmap (group_members direct_binding (projected_facts ctx)))"

definition derive_agent_projections :: "'r ReductionContext \<Rightarrow> AgentContribution list" where
  "derive_agent_projections ctx =
     name_projections ctx @ session_projections ctx @ context_projections ctx @ agent_selection_projections ctx
     @ rename_projections ctx @ agent_projections ctx @ direct_session_projections ctx"

section \<open>Conflicts and the policy\<close>

definition push_conflict :: "AgentReason \<Rightarrow> FactId fset \<Rightarrow> AgentReason ConflictObservation list" where
  "push_conflict reason participants =
     (if fcard participants > 1 then [ConflictObservation (DomainConflict reason) participants] else [])"

definition claim_subjects :: "FactId fset \<Rightarrow> 'r ReductionContext \<Rightarrow> (AgentId \<times> MailboxAddress \<times> ShortText) list" where
  "claim_subjects facts ctx = map snd (frontier_values ctx claim_subject facts)"

definition claim_conflicts :: "'r ReductionContext \<Rightarrow> SemanticFact \<Rightarrow> AgentReason ConflictObservation list" where
  "claim_conflicts ctx f =
     (case claim_subject f of
        None \<Rightarrow> []
      | Some (agent_id, mailbox, name) \<Rightarrow>
          let claims = filter (\<lambda>c. claim_subject c \<noteq> None) (projected_facts ctx);
              same_name = fset_of_list (map fact_id (filter (\<lambda>c. case claim_subject c of
                  Some (_, _, other) \<Rightarrow> other = name | None \<Rightarrow> False) claims));
              same_subject_axis = fset_of_list (map fact_id (filter (\<lambda>c. case claim_subject c of
                  Some (other_agent, other_mailbox, _) \<Rightarrow> other_agent = agent_id \<or> other_mailbox = mailbox
                | None \<Rightarrow> False) claims))
          in (if several (claim_subjects same_name ctx) then push_conflict NameConflict same_name else [])
             @ (if several (claim_subjects same_subject_axis ctx)
                then push_conflict AgentClaimConflict same_subject_axis else []))"

definition session_conflicts :: "'r ReductionContext \<Rightarrow> AgentReason ConflictObservation list" where
  "session_conflicts ctx =
     concat (map (\<lambda>session.
         let bindings = session_bindings session ctx in
         if several (map snd bindings)
         then push_conflict SessionBindingConflict (fset_of_list (map fst bindings)) else [])
       (sorted_list_of_fset (fset_of_list (List.map_filter bound_session (projected_facts ctx)))))"

definition selection_conflicts :: "'r ReductionContext \<Rightarrow> AgentReason ConflictObservation list" where
  "selection_conflicts ctx =
     concat (map (\<lambda>agent.
         let frontier = maximal (selection_members agent ctx) ctx in
         if several (map snd (frontier_values ctx selection_candidate frontier))
         then push_conflict SelectionConflict frontier else [])
       (sorted_list_of_fset (fset_of_list (List.map_filter selected_agent (projected_facts ctx)))))"

definition rename_conflicts :: "'r ReductionContext \<Rightarrow> AgentReason ConflictObservation list" where
  "rename_conflicts ctx =
     concat (map (\<lambda>(_, members).
         let frontier = maximal members ctx in
         if several (map snd (frontier_values ctx given_name frontier))
         then push_conflict RenameConflict frontier else [])
       (sorted_list_of_fmap (group_members renamed_session (projected_facts ctx))))"

definition derive_agent_conflicts :: "'r ReductionContext \<Rightarrow> AgentReason ConflictObservation list" where
  "derive_agent_conflicts ctx =
     remdups_adj (sort_key agent_conflict_rank
       (concat (map (claim_conflicts ctx) (filter (\<lambda>c. claim_subject c \<noteq> None) (projected_facts ctx)))
        @ session_conflicts ctx @ selection_conflicts ctx @ rename_conflicts ctx))"

definition agent_reducer ::
  "AuthorityPolicy \<Rightarrow> (AgentAggregateKey, AgentProjectionKey, AgentProjection, AgentReason) DomainReducer" where
  "agent_reducer policy =
     \<lparr>classify = agent_classify policy, aggregate_keys = (\<lambda>f _. agent_aggregate_keys f),
      domain_projections = derive_agent_projections, domain_conflicts = derive_agent_conflicts,
      presentation_entries = (\<lambda>_. [])\<rparr>"

end
