(* ===== verification/Agent_Rules.thy ===== *)
theory Agent_Rules
  imports Agent
begin

text \<open>
  What the agent policy accepts, and how its answers compare between rounds. The policy reads the
  parents a fact cites and the retirements among its ancestors, so its part of the policy
  contracts follows from the ancestors of stable facts.
\<close>

section \<open>Readings\<close>

lemma retires_agent_iff: "retires_agent a f \<longleftrightarrow> (\<exists>m. payload f = AgentRetired a m)"
  by (cases "payload f") (auto simp: retires_agent_def)

lemma creates_agent_mailbox_iff:
  "creates_agent_mailbox address f \<longleftrightarrow> author_id f = ma_installation_id address \<and>
     (\<exists>l. payload f = MailboxCreated (ma_mailbox_id address) AgentMailbox l)"
  by (cases "payload f") (auto simp: creates_agent_mailbox_def)

lemma claims_agent_iff: "claims_agent a m f \<longleftrightarrow> (\<exists>name. payload f = AgentNameClaimed a m name)"
  by (cases "payload f") (auto simp: claims_agent_def)

lemma claim_subject_iff:
  "claim_subject f = Some (a, b, name) \<longleftrightarrow>
     (\<exists>m. payload f = AgentNameClaimed a m name \<and> b = MailboxAddress (author_id f) m)"
  by (cases "payload f") (auto simp: claim_subject_def agent_mailbox_subject_def)

text \<open>The agent on whose behalf a claim, a selection or a rename acts.\<close>

definition acts_for :: "SemanticFact \<Rightarrow> AgentId option" where
  "acts_for f =
     (case payload f of
        AgentNameClaimed a _ _ \<Rightarrow> Some a
      | ProviderSessionSelected a _ _ _ _ \<Rightarrow> Some a
      | ProviderSessionRenamed a _ _ _ \<Rightarrow> Some a
      | _ \<Rightarrow> None)"

lemma find_cited_Some:
  assumes "fact_set_wf (ctx_facts ctx)" and "find_cited ctx f P = Some c"
  shows "context_fact ctx (fact_id c) = Some c" and "is_projected ctx (fact_id c)"
    and "fact_id c |\<in>| fact_parents f" and "P c"
proof -
  have "c \<in> set (fact_set_facts (ctx_facts ctx)) \<and> cited_candidate ctx f c \<and> P c"
    using assms(2) unfolding find_cited_def find_Some_iff by (metis nth_mem)
  then show "context_fact ctx (fact_id c) = Some c" "is_projected ctx (fact_id c)"
    "fact_id c |\<in>| fact_parents f" "P c"
    by (simp_all add: set_fact_set_facts [OF assms(1)] context_fact_def cited_candidate_def)
qed

lemma reject_after_retirement_Ok_iff:
  "reject_after_retirement f a ctx = Ok () \<longleftrightarrow> \<not> retirement_before_claim a f ctx"
  by (simp add: reject_after_retirement_def retirement_before_claim_def check_def)

section \<open>The policy as a layer\<close>

lemma agent_reducer_fields [simp]:
  "classify (agent_reducer policy) = agent_classify policy"
  "domain_projections (agent_reducer policy) = derive_agent_projections"
  "presentation_entries (agent_reducer policy) ctx = []"
  by (simp_all add: agent_reducer_def)

lemma agent_classify_projected_iff:
  "agent_classify policy f ctx = DomainProjected \<longleftrightarrow>
     validate_fact policy f ctx = Ok () \<and> classify_agent_fact f ctx = Ok ()"
  by (auto simp: agent_classify_def Let_def classify_fact_projected_iff split: sum.splits)

interpretation agent_layer: authority_layer "agent_reducer policy" policy for policy
  by unfold_locales (simp add: agent_classify_projected_iff)

section \<open>Comparing rounds\<close>

lemma cited_candidate_same:
  assumes "\<And>p. p |\<in>| fact_parents f \<Longrightarrow> usable S p" and "\<And>p. p |\<in>| fact_parents f \<Longrightarrow> usable ds p"
  shows "cited_candidate (round_context s S) f = cited_candidate (round_context s ds) f"
  using assms by (auto simp: cited_candidate_def fun_eq_iff)

lemma citations_same:
  assumes "cited_candidate (round_context s S) f = cited_candidate (round_context s ds) f"
  shows "require_agent_mailbox f m (round_context s S) = require_agent_mailbox f m (round_context s ds)"
    and "require_claim_parent f a m (round_context s S) = require_claim_parent f a m (round_context s ds)"
    and "require_claim_for_agent_parent f a (round_context s S) = require_claim_for_agent_parent f a (round_context s ds)"
    and "require_binding_parent f m p n (round_context s S) = require_binding_parent f m p n (round_context s ds)"
    and "require_context_parent f m c (round_context s S) = require_context_parent f m c (round_context s ds)"
  by (simp_all only: require_agent_mailbox_def require_claim_parent_def require_claim_for_agent_parent_def
      require_binding_parent_def require_context_parent_def find_cited_def assms ReductionContext.select_convs)

lemma classify_agent_keep:
  assumes cited: "cited_candidate (round_context s S) f = cited_candidate (round_context s ds) f"
    and retire: "\<And>a. acts_for f = Some a \<Longrightarrow> retirement_before_claim a f (round_context s ds) \<Longrightarrow>
      retirement_before_claim a f (round_context s S)"
    and ok: "classify_agent_fact f (round_context s S) = Ok ()"
  shows "classify_agent_fact f (round_context s ds) = Ok ()"
  using ok retire
  by (cases "payload f")
    (auto simp: classify_agent_fact_def citations_same [OF cited] and_then_Ok_iff reject_after_retirement_Ok_iff
      acts_for_def split: if_splits)

interpretation agents: conservative_policy "agent_reducer policy" "\<lambda>_. True" for policy
proof
  fix s f
  fix S ds :: "AgentReason Decisions"
  assume wf: "fact_set_wf s" and stable: "round_of s (graph_of s) (agent_reducer policy) S = S"
    and within: "usable_within S ds" and get: "fact_set_get s (fact_id f) = Some f"
    and usable: "usable S (fact_id f)"
  have parents: "p |\<in>| fact_parents f \<Longrightarrow> usable S p" for p
    using stable_usable_iff [OF wf stable, of "fact_id f"] get usable by auto
  have "classify_agent_fact f (round_context s S) = Ok ()"
    using stable_usable_iff [OF wf stable, of "fact_id f"] get usable by (auto simp: agent_classify_projected_iff)
  then have "classify_agent_fact f (round_context s ds) = Ok ()"
  proof (rule classify_agent_keep [rotated 2])
    show "cited_candidate (round_context s S) f = cited_candidate (round_context s ds) f"
      using within parents by (intro cited_candidate_same) (auto simp: usable_within_def)
    show "retirement_before_claim a f (round_context s S)" if "retirement_before_claim a f (round_context s ds)" for a
      using that stable_ancestor_usable [OF wf stable usable] by (auto simp: retirement_before_claim_def list_ex_iff)
  qed
  with agent_layer.authority_keeps [OF wf stable within get usable]
  show "classify (agent_reducer policy) f (round_context s ds) = DomainProjected"
    by (simp add: agent_classify_projected_iff)
qed

text \<open>Fact sets in which, besides, no agent acts after one of its retirements.\<close>

definition agents_act_before_retirement :: "FactSet \<Rightarrow> bool" where
  "agents_act_before_retirement s =
     list_all (\<lambda>f. case acts_for f of
         Some a \<Rightarrow> list_all (\<lambda>r. \<not> retires_agent a r \<or> \<not> structurally_reaches (graph_of s) (fact_id r) (fact_id f))
                     (fact_set_facts s)
       | None \<Rightarrow> True) (fact_set_facts s)"

definition orderly_agents :: "FactSet \<Rightarrow> bool" where
  "orderly_agents s \<longleftrightarrow> acceptances_precede_revokes s \<and> agents_act_before_retirement s"

lemma classify_agent_same:
  assumes "usable S = usable ds"
  shows "agent_classify policy f (round_context s S) = agent_classify policy f (round_context s ds)"
proof -
  have cited: "cited_candidate (round_context s S) f = cited_candidate (round_context s ds) f"
    by (simp add: cited_candidate_def assms fun_eq_iff)
  have "retirement_before_claim a f (round_context s S) = retirement_before_claim a f (round_context s ds)" for a
    by (simp add: retirement_before_claim_def assms)
  moreover have "reject_after_retirement f a (round_context s S) = reject_after_retirement f a (round_context s ds)" for a
    by (simp add: reject_after_retirement_def assms)
  ultimately have "classify_agent_fact f (round_context s S) = classify_agent_fact f (round_context s ds)"
    by (simp only: classify_agent_fact_def citations_same [OF cited])
  moreover note classify_fact_same [OF assms, of policy f s]
  ultimately show ?thesis by (simp only: agent_classify_def)
qed

interpretation ordered_agents: monotone_policy "agent_reducer policy" orderly_agents for policy
proof
  fix s f
  fix ds ds' :: "AgentReason Decisions"
  show "classify (agent_reducer policy) f (round_context s ds) = classify (agent_reducer policy) f (round_context s ds')"
    if "usable_within ds ds'" and "usable_within ds' ds"
  proof -
    have "usable ds = usable ds'" using that by (auto simp: usable_within_def fun_eq_iff)
    from classify_agent_same [OF this] show ?thesis by (simp only: agent_reducer_fields)
  qed
  assume wf: "fact_set_wf s" and good: "orderly_agents s" and get: "fact_set_get s (fact_id f) = Some f"
    and within: "usable_within ds ds'" and parents: "\<And>p. p |\<in>| fact_parents f \<Longrightarrow> usable ds p"
    and ok: "classify (agent_reducer policy) f (round_context s ds) = DomainProjected"
  have "classify_agent_fact f (round_context s ds') = Ok ()"
  proof (rule classify_agent_keep)
    show "cited_candidate (round_context s ds) f = cited_candidate (round_context s ds') f"
      using within parents by (intro cited_candidate_same) (auto simp: usable_within_def)
    show "classify_agent_fact f (round_context s ds) = Ok ()" using ok by (simp add: agent_classify_projected_iff)
    have "f \<in> set (fact_set_facts s)" using get by (simp add: set_fact_set_facts [OF wf])
    then show "retirement_before_claim a f (round_context s ds)"
      if "acts_for f = Some a" "retirement_before_claim a f (round_context s ds')" for a
      using that good
      by (auto simp: orderly_agents_def agents_act_before_retirement_def retirement_before_claim_def list_all_iff list_ex_iff)
  qed
  moreover have "validate_fact policy f (round_context s ds') = Ok ()"
    using good agent_layer.authority_monotone [OF wf _ get within ok] by (simp add: orderly_agents_def)
  ultimately show "classify (agent_reducer policy) f (round_context s ds') = DomainProjected"
    by (simp add: agent_classify_projected_iff)
qed

end
