(* ===== verification/Agent_Reduction.thy ===== *)
theory Agent_Reduction
  imports Agent_Rules
begin

text \<open>
  Properties of complete agent reduction: it always produces a report unless its decisions fail to
  settle, claims and selections rest on projected citations, retirement is final, and an agent is
  runnable only when nothing about its name, mailbox or session is contested.
\<close>

section \<open>Sound contributions\<close>

lemma agent_contribution_fields:
  "pc_key (name_contribution ctx (g, xs)) = NameProjection g"
  "pc_key (session_contribution (s, xs)) = SessionProjection s"
  "pc_key (context_contribution ctx (b, xs)) = ContextProjection b"
  "pc_key (agent_selection_contribution ctx (a, M)) = SelectionProjection a"
  "pc_key (rename_contribution ctx (as, M)) = RenameProjection (fst as) (snd as)"
  "pc_key (agent_contribution ctx (a, xs)) = AgentStateProjection a"
  "pc_key (direct_session_contribution ctx (bs, M)) = DirectSessionProjection (fst bs) (snd bs)"
  "pc_direct_support (name_contribution ctx (g, xs)) = fset_of_list (map fact_id xs)"
  "pc_direct_support (session_contribution (s, xs)) = fset_of_list (map fact_id xs)"
  "pc_direct_support (context_contribution ctx (b, xs)) = fmdom (fmap_of_list (List.map_filter recorded_context xs))"
  "pc_direct_support (agent_selection_contribution ctx (a, M)) = M"
  "pc_direct_support (rename_contribution ctx (as, M)) = M"
  "pc_direct_support (direct_session_contribution ctx (bs, M)) = M"
  by (simp_all add: name_contribution_def session_contribution_def context_contribution_def
      agent_selection_contribution_def rename_contribution_def agent_contribution_def
      direct_session_contribution_def Let_def split: prod.split)

lemma recorded_context_ids:
  assumes "\<And>x. x \<in> set xs \<Longrightarrow> recorded_mailbox x \<noteq> None"
  shows "fmdom (fmap_of_list (List.map_filter recorded_context xs)) = fset_of_list (map fact_id xs)"
proof -
  have "\<exists>c. recorded_context x = Some (fact_id x, c)" if "x \<in> set xs" for x
    using assms [OF that] by (cases "payload x") (auto simp: recorded_mailbox_def recorded_context_def)
  then have "map fst (List.map_filter recorded_context xs) = map fact_id xs"
    by (induction xs) (fastforce simp: map_filter_simps)+
  then show ?thesis by simp
qed

lemma agent_contributions_parts:
  fixes fs ds
  defines "ctx \<equiv> arrived fs ds"
  shows "sound_contributions ctx (name_projections ctx)" and "sound_contributions ctx (session_projections ctx)"
    and "sound_contributions ctx (context_projections ctx)"
    and "sound_contributions ctx (agent_selection_projections ctx)"
    and "sound_contributions ctx (rename_projections ctx)" and "sound_contributions ctx (agent_projections ctx)"
    and "sound_contributions ctx (direct_session_projections ctx)"
proof -
  show "sound_contributions ctx (name_projections ctx)"
    unfolding ctx_def name_projections_def
    by (rule sound_grouped_facts [where K = NameProjection]) (simp_all add: agent_contribution_fields)
  show "sound_contributions ctx (session_projections ctx)"
    unfolding ctx_def session_projections_def
    by (rule sound_grouped_facts [where K = SessionProjection]) (simp_all add: agent_contribution_fields)
  have ids: "pc_direct_support (context_contribution ctx (b, xs)) = fset_of_list (map fact_id xs)"
    if "fmlookup (group_facts recorded_mailbox (projected_facts ctx)) b = Some xs" for b xs
    unfolding agent_contribution_fields
    using that [unfolded fmlookup_group_facts] by (intro recorded_context_ids) auto
  show "sound_contributions ctx (context_projections ctx)"
    unfolding ctx_def context_projections_def
    by (rule sound_grouped_facts [where K = ContextProjection])
      (simp_all only: agent_contribution_fields(3) ids [unfolded ctx_def], simp_all)
  show "sound_contributions ctx (agent_selection_projections ctx)"
    unfolding ctx_def agent_selection_projections_def
    by (rule sound_grouped_members [where K = SelectionProjection]) (simp_all add: agent_contribution_fields)
  show "sound_contributions ctx (rename_projections ctx)"
    unfolding ctx_def rename_projections_def
    by (rule sound_grouped_members [where K = "\<lambda>g. RenameProjection (fst g) (snd g)"])
      (simp_all add: agent_contribution_fields prod_eq_iff)
  show "sound_contributions ctx (agent_projections ctx)"
    unfolding ctx_def agent_projections_def
    by (rule sound_grouped_facts [where K = AgentStateProjection])
      (auto simp: agent_contribution_fields agent_contribution_def Let_def selection_members_def
        fset_of_list_elem set_projected_facts)
  show "sound_contributions ctx (direct_session_projections ctx)"
    unfolding ctx_def direct_session_projections_def
    by (rule sound_grouped_members [where K = "\<lambda>g. DirectSessionProjection (fst g) (snd g)"])
      (simp_all add: agent_contribution_fields prod_eq_iff)
qed

lemma agent_contribution_keys:
  "c \<in> set (name_projections ctx) \<Longrightarrow> \<exists>g. pc_key c = NameProjection g"
  "c \<in> set (session_projections ctx) \<Longrightarrow> \<exists>g. pc_key c = SessionProjection g"
  "c \<in> set (context_projections ctx) \<Longrightarrow> \<exists>g. pc_key c = ContextProjection g"
  "c \<in> set (agent_selection_projections ctx) \<Longrightarrow> \<exists>g. pc_key c = SelectionProjection g"
  "c \<in> set (rename_projections ctx) \<Longrightarrow> \<exists>g s. pc_key c = RenameProjection g s"
  "c \<in> set (agent_projections ctx) \<Longrightarrow> \<exists>g. pc_key c = AgentStateProjection g"
  "c \<in> set (direct_session_projections ctx) \<Longrightarrow> \<exists>g s. pc_key c = DirectSessionProjection g s"
  by (auto simp: name_projections_def session_projections_def context_projections_def
      agent_selection_projections_def rename_projections_def agent_projections_def
      direct_session_projections_def agent_contribution_fields)

lemma agent_contributions_sound:
  "sound_contributions (arrived fs ds) (derive_agent_projections (arrived fs ds))"
  unfolding derive_agent_projections_def
  by (intro sound_append agent_contributions_parts) (auto dest!: agent_contribution_keys)

lemma agent_reduction_succeeds:
  assumes "stabilize_decisions (from_facts fs) (graph_of (from_facts fs)) (agent_reducer policy) = Ok ds"
  shows "\<exists>r. reduce_complete fs (agent_reducer policy) = Some (Ok r)"
  using agent_contributions_sound by (intro reduce_complete_succeeds [OF assms]) simp_all

section \<open>Reading a report\<close>

lemma projected_agent_fact:
  assumes "reduce_complete fs (agent_reducer policy) = Some (Ok r)"
    and "fact_set_get (rr_facts r) i = Some f" and "usable (rr_decisions r) i"
  shows "fact_id f = i" and "classify_agent_fact f (report_context r) = Ok ()"
    and "f \<in> set (projected_facts (report_context r))"
proof -
  note r = report_context_round [OF assms(1)] reduce_complete_OkD(1) [OF assms(1)]
  from agent_layer.projected_valid [OF report_stable [OF assms(1)] assms(3)] assms(2)
  show id: "fact_id f = i" and "classify_agent_fact f (report_context r) = Ok ()"
    by (auto simp: r agent_classify_projected_iff)
  show "f \<in> set (projected_facts (report_context r))"
    using assms(2,3) id by (simp add: r set_projected_facts)
qed

lemma report_cited:
  assumes "reduce_complete fs (agent_reducer policy) = Some (Ok r)" and "find_cited (report_context r) f P = Some c"
  shows "fact_set_get (rr_facts r) (fact_id c) = Some c" "usable (rr_decisions r) (fact_id c)"
    "fact_id c |\<in>| fact_parents f" "P c"
  using find_cited_Some [OF _ assms(2)] fact_set_wf_from_facts [of fs]
  by (simp_all add: reduce_complete_OkD(1) [OF assms(1)] context_fact_def)

lemma agent_view_shape:
  assumes run: "reduce_complete fs (agent_reducer policy) = Some (Ok r)"
    and view: "fmlookup (rr_projections r) (AgentStateProjection a) = Some w"
  obtains xs where "xs = filter (\<lambda>f. claimed_agent f = Some a) (projected_facts (report_context r))" "xs \<noteq> []"
    "w = pc_value (agent_contribution (report_context r) (a, xs))"
proof -
  let ?ctx = "report_context r"
  obtain c where c: "c \<in> set (derive_agent_projections ?ctx)" "pc_key c = AgentStateProjection a" "pc_value c = w"
    using view unfolding report_view_iff [OF run] agent_reducer_fields by blast
  then have "c \<in> set (agent_projections ?ctx)"
    using agent_contribution_keys [of c ?ctx] by (auto simp: derive_agent_projections_def)
  then obtain xs where "c = agent_contribution ?ctx (a, xs)"
      "fmlookup (group_facts claimed_agent (projected_facts ?ctx)) a = Some xs"
    using c(2) by (auto simp: agent_projections_def set_sorted_list_of_fmap agent_contribution_fields)
  moreover note c(3)
  ultimately show thesis using that [of xs] unfolding fmlookup_group_facts by blast
qed

lemma claim_conflicted_iff:
  assumes "claim_subject f = Some (a, b, name)"
  shows "claim_conflicted f ctx \<longleftrightarrow>
    (\<exists>h \<in> set (projected_facts ctx). \<exists>a' b' name'. claim_subject h = Some (a', b', name') \<and>
       (a' = a \<or> b' = b \<or> name' = name) \<and> (a', b', name') \<noteq> (a, b, name))"
  unfolding claim_conflicted_def assms list_ex_iff option.case prod.case
  by (rule bex_cong [OF refl]) (auto split: option.splits)

lemma claimed_agent_iff: "claimed_agent f = Some a \<longleftrightarrow> (\<exists>b name. claim_subject f = Some (a, b, name))"
  by (cases "payload f") (auto simp: claimed_agent_def claim_subject_def)

lemma session_unconflicted_iff:
  "session_unconflicted s ctx \<longleftrightarrow> (\<exists>b. {b. \<exists>f \<in> set (projected_facts ctx). direct_binding f = Some (b, s)} = {b})"
proof -
  have "set (map snd (session_bindings s ctx)) = {b. \<exists>f \<in> set (projected_facts ctx). direct_binding f = Some (b, s)}"
  proof -
    have "(if bound_session f = Some s then session_binding f else None) =
        (case direct_binding f of Some (b, t) \<Rightarrow> if t = s then Some (fact_id f, b) else None | None \<Rightarrow> None)" for f
      by (cases "payload f") (simp_all add: bound_session_def session_binding_def direct_binding_def)
    then show ?thesis
      by (force simp: session_bindings_def set_map_filter split: option.splits if_splits)
  qed
  then show ?thesis by (simp add: session_unconflicted_def length_remdups_1_iff)
qed

lemma runnable_reading:
  assumes "AgentValue v = pc_value (agent_contribution ctx (a, xs))" and "av_runnable v"
    and "xs = filter (\<lambda>f. claimed_agent f = Some a) (projected_facts ctx)"
  obtains s where "\<forall>f \<in> set (projected_facts ctx). \<not> retires_agent a f"
    and "\<exists>name. set (map (snd \<circ> snd) (List.map_filter claim_subject xs)) = {name} \<and> av_names v = {|name|}"
    and "\<exists>b. set (map (fst \<circ> snd) (List.map_filter claim_subject xs)) = {b} \<and> av_mailboxes v = {|b|}"
    and "\<forall>f \<in> set xs. \<not> claim_conflicted f ctx"
    and "av_selected_session v = Some s" and "session_unconflicted s ctx"
proof -
  let ?names = "map (snd \<circ> snd) (List.map_filter claim_subject xs)"
  let ?mailboxes = "map (fst \<circ> snd) (List.map_filter claim_subject xs)"
  have v: "av_names v = fset_of_list ?names" "av_mailboxes v = fset_of_list ?mailboxes"
    "av_runnable v \<longrightarrow> fset_of_list (map fact_id (filter (retires_agent a) (projected_facts ctx))) = {||} \<and>
       length (remdups ?names) = 1 \<and> length (remdups ?mailboxes) = 1 \<and>
       \<not> list_ex (\<lambda>claim. claim_conflicted claim ctx) xs \<and> selection_value a ctx \<noteq> None"
    "av_selected_session v = (if av_runnable v then selection_value a ctx else None)"
    using assms(1) by (simp_all add: agent_contribution_def Let_def)
  have retire: "\<forall>f \<in> set (projected_facts ctx). \<not> retires_agent a f"
  proof (intro ballI notI)
    fix f assume "f \<in> set (projected_facts ctx)" "retires_agent a f"
    then have "fact_id f |\<in>| fset_of_list (map fact_id (filter (retires_agent a) (projected_facts ctx)))"
      by (auto simp: fset_of_list_elem)
    moreover have "fset_of_list (map fact_id (filter (retires_agent a) (projected_facts ctx))) = {||}"
      using v(3) assms(2) by blast
    ultimately show False by (metis fempty_iff)
  qed
  have single: "\<exists>x. set ys = {x} \<and> fset_of_list ys = {|x|}" if "length (remdups ys) = 1" for ys :: "'b list"
    using that by (auto simp: length_remdups_1_iff fset_of_list.rep_eq fset_inject [symmetric])
  obtain s where s: "selection_value a ctx = Some s" using v(3) assms(2) by auto
  then have "session_unconflicted s ctx"
    by (auto simp: selection_value_def Let_def split: option.splits if_splits)
  with s that [of s] retire single [of ?names] single [of ?mailboxes] v assms(2) show thesis
    by (auto simp: list_ex_iff)
qed

lemma runnable_agent:
  assumes run: "reduce_complete fs (agent_reducer policy) = Some (Ok r)"
    and view: "fmlookup (rr_projections r) (AgentStateProjection a) = Some (AgentValue v)" and "av_runnable v"
  shows "\<exists>b name s.
    (\<forall>f \<in> set (projected_facts (report_context r)). \<not> retires_agent a f) \<and>
    av_names v = {|name|} \<and> av_mailboxes v = {|b|} \<and>
    (\<forall>f \<in> set (projected_facts (report_context r)). \<forall>a' b' name'. claim_subject f = Some (a', b', name') \<longrightarrow>
       a' = a \<or> b' = b \<or> name' = name \<longrightarrow> (a', b', name') = (a, b, name)) \<and>
    av_selected_session v = Some s \<and> session_unconflicted s (report_context r)"
proof -
  let ?ctx = "report_context r"
  obtain xs where xs: "xs = filter (\<lambda>f. claimed_agent f = Some a) (projected_facts ?ctx)" "xs \<noteq> []"
      "AgentValue v = pc_value (agent_contribution ?ctx (a, xs))"
    using agent_view_shape [OF run view] by blast
  obtain s where s: "\<forall>f \<in> set (projected_facts ?ctx). \<not> retires_agent a f"
      "\<exists>name. set (map (snd \<circ> snd) (List.map_filter claim_subject xs)) = {name} \<and> av_names v = {|name|}"
      "\<exists>b. set (map (fst \<circ> snd) (List.map_filter claim_subject xs)) = {b} \<and> av_mailboxes v = {|b|}"
      "\<forall>f \<in> set xs. \<not> claim_conflicted f ?ctx"
      "av_selected_session v = Some s" "session_unconflicted s ?ctx"
    using runnable_reading [OF xs(3) assms(3) xs(1)] by blast
  obtain name b where nb: "set (map (snd \<circ> snd) (List.map_filter claim_subject xs)) = {name}" "av_names v = {|name|}"
      "set (map (fst \<circ> snd) (List.map_filter claim_subject xs)) = {b}" "av_mailboxes v = {|b|}"
    using s(2,3) by blast
  obtain f where f: "f \<in> set xs" using xs(2) by (cases xs) auto
  then obtain b' name' where c: "claim_subject f = Some (a, b', name')" by (auto simp: xs(1) claimed_agent_iff)
  with f have t: "(a, b', name') \<in> set (List.map_filter claim_subject xs)" by (auto simp: set_map_filter)
  have "b' = b" using imageI [OF t, of "fst \<circ> snd"] nb(3) unfolding set_map by simp
  moreover have "name' = name" using imageI [OF t, of "snd \<circ> snd"] nb(1) unfolding set_map by simp
  ultimately have f': "claim_subject f = Some (a, b, name)" using c by simp
  with s(4) f have "\<not> claim_conflicted f ?ctx" by blast
  then have "\<forall>h \<in> set (projected_facts ?ctx). \<forall>a' b' name'. claim_subject h = Some (a', b', name') \<longrightarrow>
      a' = a \<or> b' = b \<or> name' = name \<longrightarrow> (a', b', name') = (a, b, name)"
    unfolding claim_conflicted_iff [OF f'] by blast
  then show ?thesis using s(1,5,6) nb(2,4) by blast
qed

lemma claim_conflict_observed:
  assumes "f \<in> set (projected_facts ctx)" and "claim_subject f \<noteq> None" and "c \<in> set (claim_conflicts ctx f)"
  shows "c \<in> set (derive_agent_conflicts ctx)"
  using assms unfolding derive_agent_conflicts_def remdups_adj_set set_sort set_append set_concat set_map set_filter
  by blast

lemma set_frontier_values:
  "set (map snd (frontier_values ctx reading M)) =
     {v. \<exists>i f. i |\<in>| M \<and> context_fact ctx i = Some f \<and> reading f = Some v}"
  by (force simp: frontier_values_def set_map_filter split: option.splits)

lemma name_conflict_observed:
  assumes stored: "\<And>x. x \<in> set (projected_facts ctx) \<Longrightarrow> context_fact ctx (fact_id x) = Some x"
    and f: "f \<in> set (projected_facts ctx)" "claim_subject f = Some (a, b, name)"
    and h: "h \<in> set (projected_facts ctx)" "claim_subject h = Some (a', b', name)"
    and differ: "(a, b) \<noteq> (a', b')"
  shows "\<exists>P. ConflictObservation (DomainConflict NameConflict) P \<in> set (derive_agent_conflicts ctx) \<and>
    fact_id f |\<in>| P \<and> fact_id h |\<in>| P"
proof -
  define P where "P = fset_of_list (map fact_id (filter (\<lambda>c. case claim_subject c of
      Some (_, _, other) \<Rightarrow> other = name | None \<Rightarrow> False)
    (filter (\<lambda>c. claim_subject c \<noteq> None) (projected_facts ctx))))"
  have P: "fact_id f |\<in>| P" "fact_id h |\<in>| P" using f h by (auto simp: P_def fset_of_list_elem)
  have "(a, b, name) \<in> set (claim_subjects P ctx)" "(a', b', name) \<in> set (claim_subjects P ctx)"
    unfolding claim_subjects_def set_frontier_values using P f h stored by blast+
  then have "several (claim_subjects P ctx)" using differ unfolding several_iff by blast
  moreover have "fact_id f \<noteq> fact_id h"
  proof
    assume "fact_id f = fact_id h"
    then have "f = h" using stored [OF f(1)] stored [OF h(1)] by (metis option.inject)
    then show False using f(2) h(2) differ by simp
  qed
  then have "card (fset P) > 1"
    using P card_mono [of "fset P" "{fact_id f, fact_id h}"] by auto
  ultimately have "ConflictObservation (DomainConflict NameConflict) P \<in> set (claim_conflicts ctx f)"
    unfolding claim_conflicts_def f(2) option.case prod.case Let_def P_def [symmetric] push_conflict_def fcard.rep_eq
    by simp
  then show ?thesis using P claim_conflict_observed [OF f(1)] f(2) by blast
qed

section \<open>Sample batches\<close>

text \<open>
  Installation 1 creates agent mailbox 7, claims the name \<open>bot\<close> for agent 20, binds a session,
  records a context and selects the session in that context.
\<close>

definition sample_repository :: RepositoryContext where
  "sample_repository = RepositoryContext (ResourceLocator WorkingTree ''/w'') None None None"

definition sample_agent_facts :: "SemanticFact list" where
  "sample_agent_facts =
    [sample_root,
     sample_local 2 [] (MailboxCreated 7 AgentMailbox None),
     sample_local 3 [2] (AgentNameClaimed 20 7 ''bot''),
     sample_local 4 [2] (MailboxSessionBound 7 ''codex'' ''s1''),
     sample_local 5 [2] (MailboxContextRecorded 7 sample_repository),
     sample_local 6 [3, 4, 5] (ProviderSessionSelected 20 7 ''codex'' ''s1'' sample_repository)]"

lemma sample_agent_run:
  obtains r v where "reduce_complete sample_agent_facts (agent_reducer sample_authority_policy) = Some (Ok r)"
    "list_all (usable (rr_decisions r)) [1, 2, 3, 4, 5, 6]"
    "fmlookup (rr_projections r) (AgentStateProjection 20) = Some (AgentValue v)" "av_runnable v"
proof -
  let ?s = "from_facts sample_agent_facts" and ?domain = "agent_reducer sample_authority_policy"
  have "(case stabilize_decisions ?s (graph_of ?s) ?domain of
      Inr ds \<Rightarrow> list_all (usable ds) [1, 2, 3, 4, 5, 6] \<and>
        (case agent_projections (round_context ?s ds) of
           [c] \<Rightarrow> pc_key c = AgentStateProjection 20 \<and> (case pc_value c of AgentValue v \<Rightarrow> av_runnable v | _ \<Rightarrow> False)
         | _ \<Rightarrow> False)
    | Inl _ \<Rightarrow> False)"
    by code_simp
  then obtain ds c where ds: "stabilize_decisions ?s (graph_of ?s) ?domain = Ok ds"
      "list_all (usable ds) [1, 2, 3, 4, 5, 6]" and c: "agent_projections (round_context ?s ds) = [c]"
      "pc_key c = AgentStateProjection 20" "case pc_value c of AgentValue v \<Rightarrow> av_runnable v | _ \<Rightarrow> False"
    by (auto split: sum.splits list.splits)
  obtain r where r: "reduce_complete sample_agent_facts ?domain = Some (Ok r)"
    using agent_reduction_succeeds [OF ds(1)] by blast
  have d: "rr_decisions r = ds" using reduce_complete_OkD(3) [OF r] ds(1) by simp
  obtain v where v: "pc_value c = AgentValue v" "av_runnable v" using c(3) by (cases "pc_value c") auto
  have "c \<in> set (domain_projections ?domain (report_context r))"
    by (simp add: derive_agent_projections_def report_context_round [OF r] d c(1))
  then have "fmlookup (rr_projections r) (AgentStateProjection 20) = Some (AgentValue v)"
    using c(2) v(1) unfolding report_view_iff [OF r] by blast
  then show thesis using that [OF r, of v] ds(2) v(2) by (simp add: d)
qed

text \<open>Agents 20 and 21 claim the same name for different mailboxes, and agent 20 retires.\<close>

definition sample_contested_facts :: "SemanticFact list" where
  "sample_contested_facts =
    [sample_root,
     sample_local 2 [] (MailboxCreated 7 AgentMailbox None),
     sample_local 3 [] (MailboxCreated 8 AgentMailbox None),
     sample_local 4 [2] (AgentNameClaimed 20 7 ''bot''),
     sample_local 5 [3] (AgentNameClaimed 21 8 ''bot''),
     sample_local 6 [4] (AgentRetired 20 7)]"

lemma sample_contested_run:
  obtains r where "reduce_complete sample_contested_facts (agent_reducer sample_authority_policy) = Some (Ok r)"
    "list_all (usable (rr_decisions r)) [1, 2, 3, 4, 5, 6]"
proof -
  let ?s = "from_facts sample_contested_facts" and ?domain = "agent_reducer sample_authority_policy"
  have "(case stabilize_decisions ?s (graph_of ?s) ?domain of
      Inr ds \<Rightarrow> list_all (usable ds) [1, 2, 3, 4, 5, 6] | Inl _ \<Rightarrow> False)"
    by code_simp
  then obtain ds where ds: "stabilize_decisions ?s (graph_of ?s) ?domain = Ok ds"
      "list_all (usable ds) [1, 2, 3, 4, 5, 6]"
    by (auto split: sum.splits)
  obtain r where r: "reduce_complete sample_contested_facts ?domain = Some (Ok r)"
    using agent_reduction_succeeds [OF ds(1)] by blast
  have "rr_decisions r = ds" using reduce_complete_OkD(3) [OF r] ds(1) by simp
  then show thesis using that [OF r] ds(2) by simp
qed

lemma sample_agent_stored:
  "fact_set_get (from_facts sample_agent_facts) 3 = Some (sample_local 3 [2] (AgentNameClaimed 20 7 ''bot''))"
  "fact_set_get (from_facts sample_agent_facts) 6 =
     Some (sample_local 6 [3, 4, 5] (ProviderSessionSelected 20 7 ''codex'' ''s1'' sample_repository))"
  "fact_set_get (from_facts sample_contested_facts) 4 = Some (sample_local 4 [2] (AgentNameClaimed 20 7 ''bot''))"
  "fact_set_get (from_facts sample_contested_facts) 5 = Some (sample_local 5 [3] (AgentNameClaimed 21 8 ''bot''))"
  "fact_set_get (from_facts sample_contested_facts) 6 = Some (sample_local 6 [4] (AgentRetired 20 7))"
  by code_simp+

section \<open>Properties\<close>

text \<open>
  C13. Agent reduction returns a report for every batch in which no device acceptance follows a
  revocation of the device and no agent acts after its own retirement. For every other batch it
  returns a report or the error that its decisions did not settle, and nothing else: the
  projections of names, sessions, contexts, selections, renames and agents never disagree on a
  key, never lack support and never cite a fact that is not projected.
\<close>

theorem agent_reduction_outcome:
  "if orderly_agents (from_facts fs) \<and> 2 * length fs + 2 < 2 ^ 64
   then \<exists>r. reduce_complete fs (agent_reducer policy) = Some (Ok r)
   else reduce_complete fs (agent_reducer policy) = Some (Err NonConvergentDomainDecisions) \<or>
     (\<exists>r. reduce_complete fs (agent_reducer policy) = Some (Ok r))"
proof (cases "stabilize_decisions (from_facts fs) (graph_of (from_facts fs)) (agent_reducer policy)")
  case (Inl e)
  have "\<not> (orderly_agents (from_facts fs) \<and> 2 * length fs + 2 < 2 ^ 64)"
    using ordered_agents.converges [OF fact_set_wf_from_facts, of fs policy] stored_card [of fs] Inl by fastforce
  then show ?thesis using reduction_fails [OF Inl] by (simp only: if_False simp_thms)
next
  case (Inr ds)
  then show ?thesis using agent_reduction_succeeds by (metis (full_types))
qed

text \<open>
  C14. The report of the agent policy projects as much as consistency allows: whatever other
  decision map is stable for the same facts and policy, the facts it projects are projected in the
  report, even though the policy withdraws what follows a retirement.
\<close>

theorem agent_report_largest:
  assumes "reduce_complete fs (agent_reducer policy) = Some (Ok r)" and "stable_decisions (agent_reducer policy) fs S"
    and "usable S i"
  shows "usable (rr_decisions r) i"
  using agents.greatest [OF fact_set_wf_from_facts _ assms(2) reduce_complete_OkD(3) [OF assms(1)]] assms(3)
  by (simp add: usable_within_def)

theorem agent_report_largest_witness:
  "\<exists>r S. reduce_complete sample_contested_facts (agent_reducer sample_authority_policy) = Some (Ok r) \<and>
     stable_decisions (agent_reducer sample_authority_policy) sample_contested_facts S \<and> usable S 6 \<and>
     usable (rr_decisions r) 6"
proof -
  obtain r where r: "reduce_complete sample_contested_facts (agent_reducer sample_authority_policy) = Some (Ok r)"
    "usable (rr_decisions r) 6" by (rule sample_contested_run) simp
  then show ?thesis using agent_report_largest [OF r(1) report_stable [OF r(1)] r(2)] report_stable [OF r(1)] by blast
qed

text \<open>
  A projected claim is well founded: its name is a slug that starts with a lower-case letter and
  does not end in a hyphen, and it cites the projected creation, by its own author, of the agent
  mailbox it claims.
\<close>

lemma projected_claim_founded:
  assumes run: "reduce_complete fs (agent_reducer policy) = Some (Ok r)"
    and get: "fact_set_get (rr_facts r) i = Some f" and usable: "usable (rr_decisions r) i"
    and claim: "payload f = AgentNameClaimed a m name"
  shows "name \<noteq> [] \<and> ascii_lowercase (hd name) \<and> last name \<noteq> CHR ''-'' \<and>
    (\<exists>j created l. j |\<in>| fact_parents f \<and> fact_set_get (rr_facts r) j = Some created \<and>
       usable (rr_decisions r) j \<and> author_id created = author_id f \<and> payload created = MailboxCreated m AgentMailbox l)"
proof -
  have "valid_agent_name name" and "\<exists>c. require_agent_mailbox f m (report_context r) = Ok c"
    using projected_agent_fact(2) [OF run get usable]
    by (auto simp: classify_agent_fact_def claim and_then_Ok_iff split: if_splits)
  then obtain c where "find_cited (report_context r) f (creates_agent_mailbox (MailboxAddress (author_id f) m)) = Some c"
    by (auto simp: require_agent_mailbox_def)
  from report_cited [OF run this] show ?thesis
    using \<open>valid_agent_name name\<close>
    by (auto simp: valid_agent_name_def creates_agent_mailbox_iff ascii_alphanumeric_def ascii_lowercase_def ascii_digit_def)
qed

text \<open>
  C15. A projected selection only names what its causes already established: it cites a projected
  claim of the agent's mailbox, a projected binding of the session to that mailbox and a projected
  record of the very context it selects.
\<close>

theorem projected_selection_founded:
  assumes run: "reduce_complete fs (agent_reducer policy) = Some (Ok r)"
    and get: "fact_set_get (rr_facts r) i = Some f" and usable: "usable (rr_decisions r) i"
    and selection: "payload f = ProviderSessionSelected a m provider session context"
  shows "\<exists>j claim name k binding l recorded.
    {|j, k, l|} |\<subseteq>| fact_parents f \<and>
    usable (rr_decisions r) j \<and> usable (rr_decisions r) k \<and> usable (rr_decisions r) l \<and>
    fact_set_get (rr_facts r) j = Some claim \<and> payload claim = AgentNameClaimed a m name \<and>
    fact_set_get (rr_facts r) k = Some binding \<and> payload binding = MailboxSessionBound m provider session \<and>
    fact_set_get (rr_facts r) l = Some recorded \<and> payload recorded = MailboxContextRecorded m context"
proof -
  let ?ctx = "report_context r"
  obtain claim binding recorded where
      claim: "find_cited ?ctx f (claims_agent a m) = Some claim" and
      binding: "find_cited ?ctx f (binds_session m provider session) = Some binding" and
      recorded: "find_cited ?ctx f (records_context m context) = Some recorded"
    using projected_agent_fact(2) [OF run get usable]
    by (auto simp: classify_agent_fact_def selection and_then_Ok_iff require_claim_parent_def
        require_binding_parent_def require_context_parent_def)
  have "payload binding = MailboxSessionBound m provider session"
    using report_cited(4) [OF run binding] by (cases "payload binding") (auto simp: binds_session_def)
  moreover have "payload recorded = MailboxContextRecorded m context"
    using report_cited(4) [OF run recorded] by (cases "payload recorded") (auto simp: records_context_def)
  moreover obtain name where "payload claim = AgentNameClaimed a m name"
    using report_cited(4) [OF run claim] by (auto simp: claims_agent_iff)
  ultimately show ?thesis
    using report_cited(1-3) [OF run claim] report_cited(1-3) [OF run binding] report_cited(1-3) [OF run recorded]
    by (intro exI [of _ "fact_id claim"] exI [of _ claim] exI [of _ name] exI [of _ "fact_id binding"]
        exI [of _ binding] exI [of _ "fact_id recorded"] exI [of _ recorded]) simp
qed

theorem projected_selection_founded_witness:
  "\<exists>r j claim name. reduce_complete sample_agent_facts (agent_reducer sample_authority_policy) = Some (Ok r) \<and>
     usable (rr_decisions r) 6 \<and> usable (rr_decisions r) j \<and> fact_set_get (rr_facts r) j = Some claim \<and>
     payload claim = AgentNameClaimed 20 7 name"
proof -
  obtain r where r: "reduce_complete sample_agent_facts (agent_reducer sample_authority_policy) = Some (Ok r)"
    "usable (rr_decisions r) 6" by (rule sample_agent_run) simp
  have "fact_set_get (rr_facts r) 6 =
      Some (sample_local 6 [3, 4, 5] (ProviderSessionSelected 20 7 ''codex'' ''s1'' sample_repository))"
    by (simp add: reduce_complete_OkD(1) [OF r(1)] sample_agent_stored)
  from projected_selection_founded [OF r(1) this r(2) sample_local_payload] r show ?thesis by blast
qed

text \<open>
  C7. Retirement is final: no projected claim, selection or rename of an agent causally follows a
  projected retirement of that agent.
\<close>

theorem retirement_final:
  assumes run: "reduce_complete fs (agent_reducer policy) = Some (Ok r)"
    and f: "fact_set_get (rr_facts r) i = Some f" "usable (rr_decisions r) i" "acts_for f = Some a"
    and h: "fact_set_get (rr_facts r) j = Some h" "usable (rr_decisions r) j" "payload h = AgentRetired a m"
  shows "\<not> structurally_reaches (rr_graph r) j i"
proof -
  have "h \<in> set (fact_set_facts (rr_facts r))" "fact_id h = j"
    using h(1) fact_set_get_id [OF fact_set_wf_from_facts]
    by (auto simp: reduce_complete_OkD(1) [OF run] set_fact_set_facts)
  moreover have "\<not> retirement_before_claim a f (report_context r)"
    using projected_agent_fact(2) [OF run f(1,2)] f(3)
    by (cases "payload f") (auto simp: acts_for_def classify_agent_fact_def and_then_Ok_iff
        reject_after_retirement_Ok_iff split: if_splits)
  ultimately show ?thesis
    using h(2,3) projected_agent_fact(1) [OF run f(1,2)]
    by (auto simp: retirement_before_claim_def list_ex_iff retires_agent_def)
qed

theorem retirement_final_witness:
  "\<exists>r. reduce_complete sample_contested_facts (agent_reducer sample_authority_policy) = Some (Ok r) \<and>
     usable (rr_decisions r) 4 \<and> usable (rr_decisions r) 6 \<and> \<not> structurally_reaches (rr_graph r) 6 4"
proof -
  obtain r where r: "reduce_complete sample_contested_facts (agent_reducer sample_authority_policy) = Some (Ok r)"
    "usable (rr_decisions r) 4" "usable (rr_decisions r) 6" by (rule sample_contested_run) simp
  have "fact_set_get (rr_facts r) 4 = Some (sample_local 4 [2] (AgentNameClaimed 20 7 ''bot''))"
    "fact_set_get (rr_facts r) 6 = Some (sample_local 6 [4] (AgentRetired 20 7))"
    by (simp_all add: reduce_complete_OkD(1) [OF r(1)] sample_agent_stored)
  moreover have "acts_for (sample_local 4 [2] (AgentNameClaimed 20 7 ''bot'')) = Some 20" by (simp add: acts_for_def)
  ultimately show ?thesis using retirement_final [OF r(1) _ r(2) _ _ r(3) sample_local_payload] r by blast
qed

text \<open>
  C6. A runnable agent is uncontested. It is not retired; it has one name and one mailbox; every
  projected claim that shares its identity, its mailbox or its name is a claim of exactly this
  agent, mailbox and name; and the session it runs is bound to a single mailbox.
\<close>

theorem runnable_agent_uncontested:
  assumes "reduce_complete fs (agent_reducer policy) = Some (Ok r)"
    and "fmlookup (rr_projections r) (AgentStateProjection a) = Some (AgentValue v)" and "av_runnable v"
  shows "\<exists>b name s.
    (\<forall>f \<in> set (projected_facts (report_context r)). \<not> retires_agent a f) \<and>
    av_names v = {|name|} \<and> av_mailboxes v = {|b|} \<and>
    (\<forall>f \<in> set (projected_facts (report_context r)). \<forall>a' b' name'. claim_subject f = Some (a', b', name') \<longrightarrow>
       a' = a \<or> b' = b \<or> name' = name \<longrightarrow> (a', b', name') = (a, b, name)) \<and>
    av_selected_session v = Some s \<and>
    (\<exists>bound. {b. \<exists>f \<in> set (projected_facts (report_context r)). direct_binding f = Some (b, s)} = {bound})"
  using runnable_agent [OF assms] unfolding session_unconflicted_iff .

theorem runnable_agent_uncontested_witness:
  "\<exists>r v b name. reduce_complete sample_agent_facts (agent_reducer sample_authority_policy) = Some (Ok r) \<and>
     fmlookup (rr_projections r) (AgentStateProjection 20) = Some (AgentValue v) \<and> av_runnable v \<and>
     av_names v = {|name|} \<and> av_mailboxes v = {|b|}"
proof -
  obtain r v where r: "reduce_complete sample_agent_facts (agent_reducer sample_authority_policy) = Some (Ok r)"
    "fmlookup (rr_projections r) (AgentStateProjection 20) = Some (AgentValue v)" "av_runnable v"
    by (rule sample_agent_run)
  with runnable_agent_uncontested [OF r] show ?thesis by blast
qed

text \<open>
  C8. A name belongs to one agent. Two projected claims of one name by different agents or for
  different mailboxes are reported as a name conflict that lists both, and neither agent is
  runnable while the conflict stands.
\<close>

theorem contested_name_reported:
  assumes run: "reduce_complete fs (agent_reducer policy) = Some (Ok r)"
    and f: "fact_set_get (rr_facts r) i = Some f" "usable (rr_decisions r) i" "claim_subject f = Some (a, b, name)"
    and h: "fact_set_get (rr_facts r) j = Some h" "usable (rr_decisions r) j" "claim_subject h = Some (a', b', name)"
    and differ: "(a, b) \<noteq> (a', b')"
  shows "(\<exists>P. ConflictObservation (DomainConflict NameConflict) P |\<in>| rr_conflicts r \<and> i |\<in>| P \<and> j |\<in>| P) \<and>
    (\<forall>v. fmlookup (rr_projections r) (AgentStateProjection a) = Some (AgentValue v) \<longrightarrow> \<not> av_runnable v)"
proof
  note f' = projected_agent_fact(1,3) [OF run f(1,2)] and h' = projected_agent_fact(1,3) [OF run h(1,2)]
  have "context_fact (report_context r) (fact_id x) = Some x" if "x \<in> set (projected_facts (report_context r))" for x
    using that by (simp add: report_projected_facts [OF run] context_fact_def)
  from name_conflict_observed [OF this f'(2) f(3) h'(2) h(3) differ] f'(1) h'(1)
  show "\<exists>P. ConflictObservation (DomainConflict NameConflict) P |\<in>| rr_conflicts r \<and> i |\<in>| P \<and> j |\<in>| P"
    by (auto simp: reduce_complete_OkD(7) [OF run] derive_conflicts_def agent_reducer_def fset_of_list_elem)
  show "\<forall>v. fmlookup (rr_projections r) (AgentStateProjection a) = Some (AgentValue v) \<longrightarrow> \<not> av_runnable v"
  proof (intro allI impI notI)
    fix v assume v: "fmlookup (rr_projections r) (AgentStateProjection a) = Some (AgentValue v)" "av_runnable v"
    from runnable_agent [OF run v] f(3) f'(2) h(3) h'(2) differ show False by (metis prod.inject)
  qed
qed

theorem contested_name_reported_witness:
  "\<exists>r P. reduce_complete sample_contested_facts (agent_reducer sample_authority_policy) = Some (Ok r) \<and>
     ConflictObservation (DomainConflict NameConflict) P |\<in>| rr_conflicts r \<and> 4 |\<in>| P \<and> 5 |\<in>| P"
proof -
  obtain r where r: "reduce_complete sample_contested_facts (agent_reducer sample_authority_policy) = Some (Ok r)"
    "usable (rr_decisions r) 4" "usable (rr_decisions r) 5" by (rule sample_contested_run) simp
  let ?f = "sample_local 4 [2] (AgentNameClaimed 20 7 ''bot'')" and ?h = "sample_local 5 [3] (AgentNameClaimed 21 8 ''bot'')"
  have get: "fact_set_get (rr_facts r) 4 = Some ?f" "fact_set_get (rr_facts r) 5 = Some ?h"
    by (simp_all add: reduce_complete_OkD(1) [OF r(1)] sample_agent_stored)
  have subjects: "claim_subject ?f = Some (20, MailboxAddress (author_id ?f) 7, ''bot'')"
    "claim_subject ?h = Some (21, MailboxAddress (author_id ?h) 8, ''bot'')"
    by (simp_all add: claim_subject_iff)
  from contested_name_reported [OF r(1) get(1) r(2) subjects(1) get(2) r(3) subjects(2)] r(1) show ?thesis by auto
qed

end
