(* ===== verification/Conversation.thy ===== *)
theory Conversation
  imports Policy_Support
begin

text \<open>
  The conversation policy, first part: the keys, views and reasons of
  \<open>hq-reducer/src/conversation.rs\<close>, and its classification of messages, thread answers and
  cancellations, message states, archives and provider activity on top of the authority policy.
\<close>

section \<open>Keys\<close>

datatype ActivityKey =
  ActivityKey (ak_source: MailboxAddress) (ak_correlation: OperationCorrelation) (ak_item: "ShortText option")
    (ak_kind: ActivityKind) (ak_logical_key: ShortText) (ak_runtime: ShortText)

datatype ActivitySessionKey =
  ActivitySessionKey (as_source: MailboxAddress) (as_provider: ProviderId) (as_session: ProviderSessionId)

datatype ConversationAggregateKey =
    MessageIdentityKey MessageId
  | ThreadKey ThreadId
  | MessageStateKey MessageId
  | ConversationStateKey ConversationId
  | ActivityAggregateKey ActivityKey

datatype ConversationProjectionKey =
    ThreadProjection ThreadId
  | MessageProjection MessageId
  | ArchiveProjection ConversationId
  | ActionGroupProjection OperationCorrelation
  | ActivityProjection ActivityKey
  | ActivityRecordProjection FactId
  | ActivityRetentionProjection ActivitySessionKey

text \<open>The derived orders: the variant's position, then the fields from left to right.\<close>

definition correlation_rank :: "OperationCorrelation \<Rightarrow> string \<times> string \<times> OperationId" where
  "correlation_rank c = (correlation_provider c, correlation_session c, correlation_operation c)"

instantiation OperationCorrelation :: linorder
begin
definition less_eq_OperationCorrelation :: "OperationCorrelation \<Rightarrow> OperationCorrelation \<Rightarrow> bool" where
  "a \<le> b \<longleftrightarrow> correlation_rank a \<le> correlation_rank b"
definition less_OperationCorrelation :: "OperationCorrelation \<Rightarrow> OperationCorrelation \<Rightarrow> bool" where
  "a < b \<longleftrightarrow> correlation_rank a < correlation_rank b"
instance
proof
  fix a b :: OperationCorrelation
  show "a \<le> b \<Longrightarrow> b \<le> a \<Longrightarrow> a = b"
    by (auto simp: less_eq_OperationCorrelation_def correlation_rank_def intro: OperationCorrelation.expand)
qed (auto simp: less_eq_OperationCorrelation_def less_OperationCorrelation_def less_le_not_le linear intro: order.trans)
end

primrec conversation_rank :: "ConversationId \<Rightarrow> nat \<times> MailboxAddress option \<times> ProjectId \<times> ThreadId \<times> string \<times> string" where
  "conversation_rank (ProjectThreadId p t) = (0, None, p, t, [], [])"
| "conversation_rank (PeerThreadId m t) = (1, Some m, 0, t, [], [])"
| "conversation_rank (ProviderSessionConversation m p s) = (2, Some m, 0, 0, p, s)"

lemma conversation_rank_inj: "conversation_rank a = conversation_rank b \<Longrightarrow> a = b"
  by (cases a; cases b) simp_all

instantiation ConversationId :: linorder
begin
definition less_eq_ConversationId :: "ConversationId \<Rightarrow> ConversationId \<Rightarrow> bool" where
  "a \<le> b \<longleftrightarrow> conversation_rank a \<le> conversation_rank b"
definition less_ConversationId :: "ConversationId \<Rightarrow> ConversationId \<Rightarrow> bool" where
  "a < b \<longleftrightarrow> conversation_rank a < conversation_rank b"
instance
  by standard (auto simp: less_eq_ConversationId_def less_ConversationId_def less_le_not_le linear
      intro: conversation_rank_inj order.trans)
end

primrec activity_kind_rank :: "ActivityKind \<Rightarrow> nat" where
  "activity_kind_rank StatusActivity = 0"
| "activity_kind_rank AgentTurn = 1"
| "activity_kind_rank Progress = 2"
| "activity_kind_rank Plan = 3"
| "activity_kind_rank Diff = 4"
| "activity_kind_rank CompletedItem = 5"

lemma activity_kind_rank_inj: "activity_kind_rank a = activity_kind_rank b \<Longrightarrow> a = b"
  by (cases a; cases b) simp_all

definition activity_rank ::
  "ActivityKey \<Rightarrow> MailboxAddress \<times> OperationCorrelation \<times> string option \<times> nat \<times> string \<times> string" where
  "activity_rank k = (ak_source k, ak_correlation k, ak_item k, activity_kind_rank (ak_kind k), ak_logical_key k,
     ak_runtime k)"

lemma activity_rank_inj: "activity_rank a = activity_rank b \<Longrightarrow> a = b"
  by (auto simp: activity_rank_def intro: ActivityKey.expand activity_kind_rank_inj)

instantiation ActivityKey :: linorder
begin
definition less_eq_ActivityKey :: "ActivityKey \<Rightarrow> ActivityKey \<Rightarrow> bool" where
  "a \<le> b \<longleftrightarrow> activity_rank a \<le> activity_rank b"
definition less_ActivityKey :: "ActivityKey \<Rightarrow> ActivityKey \<Rightarrow> bool" where
  "a < b \<longleftrightarrow> activity_rank a < activity_rank b"
instance
  by standard (auto simp: less_eq_ActivityKey_def less_ActivityKey_def less_le_not_le linear
      intro: activity_rank_inj order.trans)
end

definition activity_session_rank :: "ActivitySessionKey \<Rightarrow> MailboxAddress \<times> string \<times> string" where
  "activity_session_rank k = (as_source k, as_provider k, as_session k)"

lemma activity_session_rank_inj: "activity_session_rank a = activity_session_rank b \<Longrightarrow> a = b"
  by (auto simp: activity_session_rank_def intro: ActivitySessionKey.expand)

instantiation ActivitySessionKey :: linorder
begin
definition less_eq_ActivitySessionKey :: "ActivitySessionKey \<Rightarrow> ActivitySessionKey \<Rightarrow> bool" where
  "a \<le> b \<longleftrightarrow> activity_session_rank a \<le> activity_session_rank b"
definition less_ActivitySessionKey :: "ActivitySessionKey \<Rightarrow> ActivitySessionKey \<Rightarrow> bool" where
  "a < b \<longleftrightarrow> activity_session_rank a < activity_session_rank b"
instance
  by standard (auto simp: less_eq_ActivitySessionKey_def less_ActivitySessionKey_def less_le_not_le linear
      intro: activity_session_rank_inj order.trans)
end

primrec conversation_key_rank ::
  "ConversationProjectionKey \<Rightarrow> nat \<times> 256 word \<times> ConversationId option \<times> OperationCorrelation option
     \<times> ActivityKey option \<times> ActivitySessionKey option" where
  "conversation_key_rank (ThreadProjection t) = (0, t, None, None, None, None)"
| "conversation_key_rank (MessageProjection m) = (1, m, None, None, None, None)"
| "conversation_key_rank (ArchiveProjection c) = (2, 0, Some c, None, None, None)"
| "conversation_key_rank (ActionGroupProjection c) = (3, 0, None, Some c, None, None)"
| "conversation_key_rank (ActivityProjection k) = (4, 0, None, None, Some k, None)"
| "conversation_key_rank (ActivityRecordProjection i) = (5, i, None, None, None, None)"
| "conversation_key_rank (ActivityRetentionProjection k) = (6, 0, None, None, None, Some k)"

lemma conversation_key_rank_inj: "conversation_key_rank a = conversation_key_rank b \<Longrightarrow> a = b"
  by (cases a; cases b) simp_all

instantiation ConversationProjectionKey :: linorder
begin
definition less_eq_ConversationProjectionKey :: "ConversationProjectionKey \<Rightarrow> ConversationProjectionKey \<Rightarrow> bool" where
  "a \<le> b \<longleftrightarrow> conversation_key_rank a \<le> conversation_key_rank b"
definition less_ConversationProjectionKey :: "ConversationProjectionKey \<Rightarrow> ConversationProjectionKey \<Rightarrow> bool" where
  "a < b \<longleftrightarrow> conversation_key_rank a < conversation_key_rank b"
instance
  by standard (auto simp: less_eq_ConversationProjectionKey_def less_ConversationProjectionKey_def
      less_le_not_le linear intro: conversation_key_rank_inj order.trans)
end

section \<open>Views and reasons\<close>

datatype CausalRelation = Before | After | Concurrent

record ThreadView =
  tv_root_fact :: FactId
  tv_root_message :: MessageId
  tv_answers :: "FactId fset"
  tv_cancellations :: "FactId fset"
  tv_relations :: "(FactId \<times> FactId, CausalRelation) fmap"
  tv_ready_answers :: "FactId list"
  tv_cancelled :: bool

record MessageView =
  mv_fact_id :: FactId
  mv_authored_at :: Timestamp
  mv_account_id :: "AccountId option"
  mv_thread_id :: ThreadId
  mv_content :: MessageContent
  mv_open :: bool
  mv_rejected :: bool
  mv_state_frontier :: "FactId fset"
  mv_peer_received_by :: "FactId fset"

record ConversationArchiveView =
  ca_archive_facts :: "FactId fset"

record ActionGroupView =
  ag_entries :: "FactId list"
  ag_final_answer :: "FactId option"

record ActivityView =
  acv_fact_id :: FactId
  acv_source :: MailboxAddress
  acv_correlation :: OperationCorrelation
  acv_item :: "ShortText option"
  acv_kind :: ActivityKind
  acv_sequence :: nat
  acv_logical_key :: ShortText
  acv_runtime :: ShortText
  acv_occurred_at :: Timestamp
  acv_status :: ActivityStatus
  acv_content :: ContentText
  acv_truncated :: bool
  acv_completed :: "CompletedItemPresentation option"

record ActivityRetentionView =
  rt_retained_progress :: "FactId list"
  rt_total_progress :: nat

datatype ConversationProjection =
    ThreadValue ThreadView
  | MessageValue MessageView
  | ArchiveValue ConversationArchiveView
  | ActionGroupValue ActionGroupView
  | ActivityValue ActivityView
  | ActivityRetentionValue ActivityRetentionView

datatype ConversationReason =
    ConversationAuthority AuthorityReason
  | AddressMismatch
  | ThreadMismatch
  | TargetNotAncestor
  | RejectedMessage
  | ConversationMismatch
  | MessageIdentityConflict
  | ActivitySourceMismatch
  | ActivitySequenceConflict
  | ActivityRuntimeConflict

section \<open>Readings of facts\<close>

definition message_content :: "SemanticFact \<Rightarrow> MessageContent option" where
  "message_content f =
     (case payload f of
        QuestionAsked message \<Rightarrow> Some message
      | AsynchronousMessageSent _ message \<Rightarrow> Some message
      | AnswerGiven _ message \<Rightarrow> Some message
      | ProjectOutputRecorded _ _ _ _ _ message \<Rightarrow> Some message
      | _ \<Rightarrow> None)"

definition thread_id :: "SemanticFact \<Rightarrow> ThreadId" where
  "thread_id f =
     (case payload f of
        AsynchronousMessageSent (Some thread) _ \<Rightarrow> thread
      | AnswerGiven thread _ \<Rightarrow> thread
      | ProjectOutputRecorded _ _ _ _ thread _ \<Rightarrow> thread
      | _ \<Rightarrow> fact_id f)"

definition state_target :: "SemanticFact \<Rightarrow> MessageId option" where
  "state_target f =
     (case payload f of
        MessageArchived message_id \<Rightarrow> Some message_id
      | MessageRestored message_id \<Rightarrow> Some message_id
      | MessageRejected message_id _ \<Rightarrow> Some message_id
      | _ \<Rightarrow> None)"

definition activity_key :: "SemanticFact \<Rightarrow> ActivityKey option" where
  "activity_key f =
     (case payload f of
        HarnessActivityRecorded _ source correlation item kind logical_key runtime _ _ _ _ _ _ \<Rightarrow>
          Some (ActivityKey source correlation item kind logical_key runtime)
      | _ \<Rightarrow> None)"

definition activity_session_key :: "SemanticFact \<Rightarrow> ActivitySessionKey option" where
  "activity_session_key f =
     (case payload f of
        HarnessActivityRecorded _ source correlation _ _ _ _ _ _ _ _ _ _ \<Rightarrow>
          Some (ActivitySessionKey source (correlation_provider correlation) (correlation_session correlation))
      | _ \<Rightarrow> None)"

definition activity_sequence :: "SemanticFact \<Rightarrow> nat option" where
  "activity_sequence f =
     (case payload f of HarnessActivityRecorded _ _ _ _ _ _ _ sequence _ _ _ _ _ \<Rightarrow> Some sequence | _ \<Rightarrow> None)"

definition activity_kind :: "SemanticFact \<Rightarrow> ActivityKind option" where
  "activity_kind f =
     (case payload f of HarnessActivityRecorded _ _ _ _ kind _ _ _ _ _ _ _ _ \<Rightarrow> Some kind | _ \<Rightarrow> None)"

definition same_scope :: "FactScope \<Rightarrow> FactScope \<Rightarrow> bool" where
  "same_scope left right =
     (case (left, right) of (PeerAddressed _, PeerAddressed _) \<Rightarrow> True | _ \<Rightarrow> left = right)"

definition conversation_of ::
  "MailboxAddress \<Rightarrow> MessageContent \<Rightarrow> ThreadId \<Rightarrow> ConversationId option" where
  "conversation_of local message thread =
     (case mc_project_id message of
        Some project_id \<Rightarrow> Some (ProjectThreadId project_id thread)
      | None \<Rightarrow>
          (let counterparty =
                 (if mc_sender message = local then mc_recipient message
                  else if mc_recipient message = Some local \<or> mc_recipient message = None
                  then Some (mc_sender message) else None)
           in map_option (\<lambda>other. case mc_correlation message of
                  Some correlation \<Rightarrow>
                    ProviderSessionConversation other (correlation_provider correlation) (correlation_session correlation)
                | None \<Rightarrow> PeerThreadId other thread) counterparty))"

definition activity_conversation :: "SemanticFact \<Rightarrow> ConversationId option" where
  "activity_conversation f =
     (case payload f of
        HarnessActivityRecorded project source correlation _ _ _ _ _ _ _ _ _ _ \<Rightarrow>
          Some (case project of
              None \<Rightarrow>
                ProviderSessionConversation source (correlation_provider correlation) (correlation_session correlation)
            | Some project \<Rightarrow> ProjectThreadId (pa_project_id project) (pa_thread_id project))
      | _ \<Rightarrow> None)"

definition fact_conversation_id :: "SemanticFact \<Rightarrow> MailboxAddress \<Rightarrow> ConversationId option" where
  "fact_conversation_id f local_human =
     (case message_content f of
        Some message \<Rightarrow> conversation_of local_human message (thread_id f)
      | None \<Rightarrow> activity_conversation f)"

section \<open>Classification\<close>

definition message_identity_participants :: "MessageId \<Rightarrow> 'r ReductionContext \<Rightarrow> FactId fset" where
  "message_identity_participants message_id ctx =
     fset_of_list (map fact_id (filter (\<lambda>f. case message_content f of
         Some message \<Rightarrow> mc_message_id message = message_id | None \<Rightarrow> False) (fact_set_facts (ctx_facts ctx))))"

definition validate_message_identity :: "MessageId \<Rightarrow> 'r ReductionContext \<Rightarrow> ConversationReason + unit" where
  "validate_message_identity message_id ctx =
     check (fcard (message_identity_participants message_id ctx) = 1) MessageIdentityConflict"

definition validate_message_purpose :: "MessageContent \<Rightarrow> MessagePurpose \<Rightarrow> ConversationReason + unit" where
  "validate_message_purpose message expected = check (mc_purpose message = expected) AddressMismatch"

definition validate_message_address :: "SemanticFact \<Rightarrow> MessageContent \<Rightarrow> ConversationReason + unit" where
  "validate_message_address f message =
     (if ma_installation_id (mc_sender message) \<noteq> author_id f then Err AddressMismatch
      else check
        (case scope f of
           InstallationPrivate installation \<Rightarrow>
             installation = author_id f \<and>
             (case mc_recipient message of
                Some recipient \<Rightarrow> ma_installation_id recipient = installation | None \<Rightarrow> False)
         | PeerAddressed target \<Rightarrow> mc_recipient message = Some target
         | AccountAddressed _ \<Rightarrow> (mc_recipient message \<noteq> None) = (mc_project_id message \<noteq> None)
         | RemoteControl _ _ \<Rightarrow> False)
        AddressMismatch)"

definition is_question :: "SemanticFact \<Rightarrow> bool" where
  "is_question f = (case payload f of QuestionAsked _ \<Rightarrow> True | _ \<Rightarrow> False)"

definition is_asynchronous_root :: "SemanticFact \<Rightarrow> bool" where
  "is_asynchronous_root f = (case payload f of AsynchronousMessageSent None _ \<Rightarrow> True | _ \<Rightarrow> False)"

definition question_root :: "ThreadId \<Rightarrow> 'r ReductionContext \<Rightarrow> SemanticFact option" where
  "question_root thread ctx =
     find (\<lambda>f. is_projected ctx (fact_id f) \<and> is_question f \<and> thread_id f = thread) (fact_set_facts (ctx_facts ctx))"

definition asynchronous_root :: "ThreadId \<Rightarrow> 'r ReductionContext \<Rightarrow> SemanticFact option" where
  "asynchronous_root thread ctx =
     find (\<lambda>f. is_projected ctx (fact_id f) \<and> is_asynchronous_root f \<and> fact_id f = thread)
       (fact_set_facts (ctx_facts ctx))"

definition validate_answer ::
  "SemanticFact \<Rightarrow> ThreadId \<Rightarrow> MessageContent \<Rightarrow> 'r ReductionContext \<Rightarrow> ConversationReason + unit" where
  "validate_answer f thread answer ctx =
     and_then (ok_or ThreadMismatch (question_root thread ctx)) (\<lambda>root.
       if fact_id root |\<notin>| fact_parents f then Err ThreadMismatch
       else (case payload root of
               QuestionAsked question \<Rightarrow>
                 if mc_purpose question \<noteq> Question \<or> mc_purpose answer \<noteq> Question \<or> \<not> same_scope (scope root) (scope f)
                 then Err ThreadMismatch
                 else check
                   (case scope root of
                      AccountAddressed _ \<Rightarrow> mc_recipient answer = None
                    | _ \<Rightarrow> mc_recipient question = Some (mc_sender answer)
                           \<and> mc_recipient answer = Some (mc_sender question))
                   AddressMismatch
             | _ \<Rightarrow> Err ThreadMismatch))"

definition validate_asynchronous_continuation ::
  "SemanticFact \<Rightarrow> ThreadId \<Rightarrow> MessageContent \<Rightarrow> 'r ReductionContext \<Rightarrow> ConversationReason + unit" where
  "validate_asynchronous_continuation f thread message ctx =
     and_then (ok_or ThreadMismatch (asynchronous_root thread ctx)) (\<lambda>root.
       case payload root of
         AsynchronousMessageSent None root_message \<Rightarrow>
           let same_direction = (mc_sender message = mc_sender root_message
                                 \<and> mc_recipient message = mc_recipient root_message);
               reversed_private = (mc_project_id root_message = None
                                   \<and> (case scope root of InstallationPrivate _ \<Rightarrow> True | _ \<Rightarrow> False)
                                   \<and> mc_recipient root_message = Some (mc_sender message)
                                   \<and> mc_recipient message = Some (mc_sender root_message))
           in check
             (fact_id root |\<in>| fact_parents f
              \<and> same_scope (scope root) (scope f)
              \<and> mc_purpose root_message = Asynchronous
              \<and> mc_recipient root_message \<noteq> None
              \<and> mc_purpose message = Asynchronous
              \<and> (same_direction \<or> reversed_private)
              \<and> mc_project_id message = mc_project_id root_message
              \<and> mc_correlation message = mc_correlation root_message)
             ThreadMismatch
       | _ \<Rightarrow> Err ThreadMismatch)"

definition validate_cancellation ::
  "SemanticFact \<Rightarrow> ThreadId \<Rightarrow> 'r ReductionContext \<Rightarrow> ConversationReason + unit" where
  "validate_cancellation f thread ctx =
     and_then (ok_or ThreadMismatch (question_root thread ctx)) (\<lambda>root.
       case payload root of
         QuestionAsked question \<Rightarrow>
           check (fact_id root |\<in>| fact_parents f \<and> same_scope (scope root) (scope f)
                  \<and> author_id f = ma_installation_id (mc_sender question)) ThreadMismatch
       | _ \<Rightarrow> Err ThreadMismatch)"

definition rejects_message :: "MessageId \<Rightarrow> SemanticFact \<Rightarrow> bool" where
  "rejects_message message_id c = (case payload c of MessageRejected i _ \<Rightarrow> i = message_id | _ \<Rightarrow> False)"

definition rejected_before :: "SemanticFact \<Rightarrow> MessageId \<Rightarrow> 'r ReductionContext \<Rightarrow> bool" where
  "rejected_before f message_id ctx =
     list_ex (\<lambda>c. is_projected ctx (fact_id c) \<and> rejects_message message_id c
                 \<and> structurally_reaches (ctx_graph ctx) (fact_id c) (fact_id f))
       (fact_set_facts (ctx_facts ctx))"

definition is_restore :: "SemanticFact \<Rightarrow> bool" where
  "is_restore f = (case payload f of MessageRestored _ \<Rightarrow> True | _ \<Rightarrow> False)"

definition validate_message_state ::
  "SemanticFact \<Rightarrow> MessageId \<Rightarrow> 'r ReductionContext \<Rightarrow> ConversationReason + unit" where
  "validate_message_state f message_id ctx =
     (case sorted_list_of_fset (message_identity_participants message_id ctx) of
        [target] \<Rightarrow>
          if \<not> structurally_reaches (ctx_graph ctx) target (fact_id f) \<or> \<not> is_projected ctx target
          then Err TargetNotAncestor
          else if is_restore f \<and> rejected_before f message_id ctx then Err RejectedMessage
          else Ok ()
      | _ \<Rightarrow> Err MessageIdentityConflict)"

definition validate_conversation_archive ::
  "SemanticFact \<Rightarrow> ConversationId \<Rightarrow> 'r ReductionContext \<Rightarrow> AuthorityPolicy \<Rightarrow> ConversationReason + unit" where
  "validate_conversation_archive f conversation ctx policy =
     (let local_human = MailboxAddress (local_installation policy) (local_human_mailbox policy) in
      check
        (list_ex (\<lambda>c. fact_conversation_id c local_human = Some conversation
                     \<and> structurally_reaches (ctx_graph ctx) (fact_id c) (fact_id f)
                     \<and> same_scope (scope c) (scope f)) (projected_facts ctx))
        ConversationMismatch)"

definition creates_source_mailbox :: "MailboxAddress \<Rightarrow> SemanticFact \<Rightarrow> bool" where
  "creates_source_mailbox source c \<longleftrightarrow> author_id c = ma_installation_id source \<and>
     (case payload c of
        MailboxCreated mailbox_id kind _ \<Rightarrow> kind = AgentMailbox \<and> mailbox_id = ma_mailbox_id source
      | _ \<Rightarrow> False)"

definition validate_activity_source ::
  "SemanticFact \<Rightarrow> MailboxAddress \<Rightarrow> 'r ReductionContext \<Rightarrow> ConversationReason + unit" where
  "validate_activity_source f source ctx =
     (let valid_mailbox = list_ex (\<lambda>c. is_projected ctx (fact_id c) \<and> creates_source_mailbox source c)
                            (fact_set_facts (ctx_facts ctx))
      in check (ma_installation_id source = author_id f \<and> valid_mailbox) ActivitySourceMismatch)"

definition activity_sequence_participants :: "SemanticFact \<Rightarrow> 'r ReductionContext \<Rightarrow> FactId fset" where
  "activity_sequence_participants f ctx =
     (case activity_key f of
        None \<Rightarrow> {||}
      | Some key \<Rightarrow>
          (case Option.bind (context_fact ctx (fact_id f)) activity_sequence of
             None \<Rightarrow> {||}
           | Some sequence \<Rightarrow>
               let candidates = filter (\<lambda>c. activity_key c = Some key \<and> activity_sequence c = Some sequence)
                     (fact_set_facts (ctx_facts ctx));
                   unequal = list_ex (\<lambda>c. payload c \<noteq> payload f) candidates
               in if unequal then fset_of_list (map fact_id candidates) else {||}))"

definition validate_activity_sequence :: "SemanticFact \<Rightarrow> 'r ReductionContext \<Rightarrow> ConversationReason + unit" where
  "validate_activity_sequence f ctx =
     check (fcard (activity_sequence_participants f ctx) \<le> 1) ActivitySequenceConflict"

definition dispatches_exactly ::
  "ProjectId \<Rightarrow> DispatchId \<Rightarrow> AssignmentBinding \<Rightarrow> ThreadId \<Rightarrow> SemanticFact \<Rightarrow> bool" where
  "dispatches_exactly project_id dispatch_id binding thread c =
     (case payload c of
        ProjectInputDispatched p _ _ d b t \<Rightarrow> p = project_id \<and> d = dispatch_id \<and> b = binding \<and> t = thread
      | _ \<Rightarrow> False)"

definition claims_source :: "AgentId \<Rightarrow> MailboxAddress \<Rightarrow> SemanticFact \<Rightarrow> bool" where
  "claims_source agent source c \<longleftrightarrow> author_id c = ma_installation_id source \<and>
     (case payload c of AgentNameClaimed a m _ \<Rightarrow> a = agent \<and> m = ma_mailbox_id source | _ \<Rightarrow> False)"

definition validate_project_runtime_parent ::
  "SemanticFact \<Rightarrow> ProjectId \<Rightarrow> DispatchId \<Rightarrow> AssignmentBinding \<Rightarrow> ThreadId \<Rightarrow> MailboxAddress \<Rightarrow>
     'r ReductionContext \<Rightarrow> ConversationReason + unit" where
  "validate_project_runtime_parent f project_id dispatch_id binding thread source ctx =
     (let exact_dispatch_parent = fBex (fact_parents f) (\<lambda>parent.
            case context_fact ctx parent of
              Some c \<Rightarrow> is_projected ctx (fact_id c) \<and> dispatches_exactly project_id dispatch_id binding thread c
            | None \<Rightarrow> False);
          source_claimed_for_agent = list_ex (\<lambda>c. is_projected ctx (fact_id c) \<and> claims_source (ab_agent_id binding) source c)
            (fact_set_facts (ctx_facts ctx))
      in check (exact_dispatch_parent \<and> source_claimed_for_agent) ActivitySourceMismatch)"

definition validate_project_activity ::
  "SemanticFact \<Rightarrow> ProjectActivityAttribution \<Rightarrow> MailboxAddress \<Rightarrow> OperationCorrelation \<Rightarrow> 'r ReductionContext \<Rightarrow>
     ConversationReason + unit" where
  "validate_project_activity f project source correlation ctx =
     (if ab_provider (pa_binding project) \<noteq> correlation_provider correlation
         \<or> ab_session (pa_binding project) \<noteq> correlation_session correlation
      then Err ActivitySourceMismatch
      else validate_project_runtime_parent f (pa_project_id project) (pa_dispatch_id project) (pa_binding project)
             (pa_thread_id project) source ctx)"

definition validate_conversation ::
  "SemanticFact \<Rightarrow> 'r ReductionContext \<Rightarrow> AuthorityPolicy \<Rightarrow> ConversationReason + unit" where
  "validate_conversation f ctx policy =
     (case payload f of
        QuestionAsked message \<Rightarrow>
          and_then (validate_message_purpose message Question) (\<lambda>_.
          and_then (validate_message_address f message) (\<lambda>_.
            validate_message_identity (mc_message_id message) ctx))
      | AsynchronousMessageSent thread message \<Rightarrow>
          and_then (validate_message_purpose message Asynchronous) (\<lambda>_.
          and_then (validate_message_address f message) (\<lambda>_.
          and_then (case thread of None \<Rightarrow> Ok ()
                    | Some thread \<Rightarrow> validate_asynchronous_continuation f thread message ctx) (\<lambda>_.
            validate_message_identity (mc_message_id message) ctx)))
      | ProjectOutputRecorded project_id _ dispatch_id binding thread message \<Rightarrow>
          and_then (validate_message_purpose message ProjectOutput) (\<lambda>_.
          and_then (validate_message_address f message) (\<lambda>_.
          and_then (validate_project_runtime_parent f project_id dispatch_id binding thread (mc_sender message) ctx) (\<lambda>_.
            validate_message_identity (mc_message_id message) ctx)))
      | AnswerGiven thread message \<Rightarrow>
          and_then (validate_message_purpose message Question) (\<lambda>_.
          and_then (validate_message_address f message) (\<lambda>_.
          and_then (validate_answer f thread message ctx) (\<lambda>_.
            validate_message_identity (mc_message_id message) ctx)))
      | ThreadCancelled thread _ \<Rightarrow> validate_cancellation f thread ctx
      | MessageArchived message_id \<Rightarrow> validate_message_state f message_id ctx
      | MessageRestored message_id \<Rightarrow> validate_message_state f message_id ctx
      | MessageRejected message_id _ \<Rightarrow> validate_message_state f message_id ctx
      | ConversationArchived conversation \<Rightarrow> validate_conversation_archive f conversation ctx policy
      | HarnessActivityRecorded project source correlation _ _ _ _ _ _ _ _ _ _ \<Rightarrow>
          and_then (validate_activity_source f source ctx) (\<lambda>_.
          and_then (case project of None \<Rightarrow> Ok ()
                    | Some project \<Rightarrow> validate_project_activity f project source correlation ctx) (\<lambda>_.
            validate_activity_sequence f ctx))
      | _ \<Rightarrow> Ok ())"

definition classify_conversation ::
  "SemanticFact \<Rightarrow> 'r ReductionContext \<Rightarrow> AuthorityPolicy \<Rightarrow> ConversationReason DomainDecision" where
  "classify_conversation f ctx policy =
     (case validate_conversation f ctx policy of
        Ok _ \<Rightarrow> DomainProjected
      | Err reason \<Rightarrow>
          (case reason of
             MessageIdentityConflict \<Rightarrow>
               DomainConflicted reason
                 (case message_content f of
                    Some message \<Rightarrow> message_identity_participants (mc_message_id message) ctx
                  | None \<Rightarrow>
                      (case state_target f of
                         Some message_id \<Rightarrow> message_identity_participants message_id ctx | None \<Rightarrow> {||}))
           | ActivitySequenceConflict \<Rightarrow> DomainConflicted reason (activity_sequence_participants f ctx)
           | _ \<Rightarrow> DomainInvalid reason))"

definition conversation_classify ::
  "AuthorityPolicy \<Rightarrow> SemanticFact \<Rightarrow> ConversationReason ReductionContext \<Rightarrow> ConversationReason DomainDecision" where
  "conversation_classify policy f ctx =
     (let authority = classify_fact policy f ctx in
      if authority \<noteq> DomainProjected then map_authority_decision ConversationAuthority authority
      else classify_conversation f ctx policy)"

end
