(* ===== verification/Conversation_Views.thy ===== *)
theory Conversation_Views
  imports Conversation
begin

text \<open>
  The conversation policy, second part: presentation entries, thread, message, archive, action
  group and activity projections with the progress budget, conflicts, the policy record, and the
  two derivations from a finished report: the order of each conversation and the observations of
  messages whose history is incomplete.

  \<open>canonical_presentation_order(..).unwrap_or_default()\<close> is \<open>ordered_or_default\<close>; the arithmetic panic of the
  traversal, an outer \<open>None\<close>, never occurs on the graphs a context carries
  (\<open>canonical_presentation_order_cases\<close>).
\<close>

section \<open>Presentation entries\<close>

definition presentation_entry :: "SemanticFact \<Rightarrow> PresentationEntry option" where
  "presentation_entry f =
     (case message_content f of
        Some message \<Rightarrow>
          let correlation = mc_correlation message in
          Some \<lparr>pe_fact_id = fact_id f,
            pe_key = PresentationKey (authored_at f) (authored_at f) MessageFamily (author_id f)
              (Some (ma_mailbox_id (mc_sender message))) (map_option correlation_provider correlation)
              (map_option correlation_session correlation) (map_option correlation_operation correlation)
              (Some (ItemMessage (mc_message_id message))) None None (Some (PublicMessage (mc_message_id message)))\<rparr>
      | None \<Rightarrow>
          (case payload f of
             HarnessActivityRecorded _ source correlation item _ _ runtime sequence occurred_at _ _ _ _ \<Rightarrow>
               Some \<lparr>pe_fact_id = fact_id f,
                 pe_key = PresentationKey (authored_at f) occurred_at ActivityFamily (author_id f)
                   (Some (ma_mailbox_id source)) (Some (correlation_provider correlation))
                   (Some (correlation_session correlation)) (Some (correlation_operation correlation))
                   (Some (case item of Some text \<Rightarrow> ItemActivity text | None \<Rightarrow> ItemFact (fact_id f)))
                   (Some runtime) (Some sequence) None\<rparr>
           | _ \<Rightarrow> None))"

definition ordered_or_default :: "'r ReductionContext \<Rightarrow> PresentationEntry list \<Rightarrow> FactId list" where
  "ordered_or_default ctx es =
     (case canonical_presentation_order (ctx_graph ctx) es of Some (Ok order) \<Rightarrow> order | _ \<Rightarrow> [])"

definition presented :: "'r ReductionContext \<Rightarrow> FactId list \<Rightarrow> FactId list" where
  "presented ctx ids =
     ordered_or_default ctx (List.map_filter (\<lambda>i. Option.bind (context_fact ctx i) presentation_entry) ids)"

section \<open>Threads, messages and archives\<close>

type_synonym ConversationContribution = "(ConversationProjectionKey, ConversationProjection) ProjectionContribution"

definition archives_conversation :: "SemanticFact \<Rightarrow> ConversationId option" where
  "archives_conversation f =
     (case payload f of ConversationArchived conversation \<Rightarrow> Some conversation | _ \<Rightarrow> None)"

definition archive_contribution :: "ConversationId \<times> FactId fset \<Rightarrow> ConversationContribution" where
  "archive_contribution grouped =
     (case grouped of (conversation, archive_facts) \<Rightarrow>
        \<lparr>pc_key = ArchiveProjection conversation, pc_value = ArchiveValue \<lparr>ca_archive_facts = archive_facts\<rparr>,
         pc_direct_support = archive_facts\<rparr>)"

definition conversation_archive_projections :: "'r ReductionContext \<Rightarrow> ConversationContribution list" where
  "conversation_archive_projections ctx =
     map archive_contribution (sorted_list_of_fmap (group_members archives_conversation (projected_facts ctx)))"

definition answers_thread :: "ThreadId \<Rightarrow> SemanticFact \<Rightarrow> bool" where
  "answers_thread thread f =
     (case payload f of
        AnswerGiven t _ \<Rightarrow> t = thread
      | AsynchronousMessageSent (Some t) _ \<Rightarrow> t = thread
      | _ \<Rightarrow> False)"

definition cancels_thread :: "ThreadId \<Rightarrow> SemanticFact \<Rightarrow> bool" where
  "cancels_thread thread f = (case payload f of ThreadCancelled t _ \<Rightarrow> t = thread | _ \<Rightarrow> False)"

definition causal_relation :: "'r ReductionContext \<Rightarrow> FactId \<Rightarrow> FactId \<Rightarrow> CausalRelation" where
  "causal_relation ctx answer cancel =
     (if context_usably_reaches ctx answer cancel then Before
      else if context_usably_reaches ctx cancel answer then After
      else Concurrent)"

definition ids_where :: "'r ReductionContext \<Rightarrow> (SemanticFact \<Rightarrow> bool) \<Rightarrow> FactId fset" where
  "ids_where ctx P = fset_of_list (map fact_id (filter P (projected_facts ctx)))"

definition thread_contribution :: "'r ReductionContext \<Rightarrow> SemanticFact \<Rightarrow> ConversationContribution option" where
  "thread_contribution ctx root =
     map_option (\<lambda>root_message.
       let i = thread_id root;
           answers = ids_where ctx (answers_thread i);
           cancellations = ids_where ctx (cancels_thread i);
           relations = fmap_of_list (concat (map (\<lambda>answer.
               map (\<lambda>cancel. ((answer, cancel), causal_relation ctx answer cancel)) (sorted_list_of_fset cancellations))
             (sorted_list_of_fset answers)))
       in \<lparr>pc_key = ThreadProjection i,
           pc_value = ThreadValue \<lparr>tv_root_fact = fact_id root, tv_root_message = mc_message_id root_message,
             tv_answers = answers, tv_cancellations = cancellations, tv_relations = relations,
             tv_ready_answers = presented ctx (sorted_list_of_fset answers), tv_cancelled = (cancellations \<noteq> {||})\<rparr>,
           pc_direct_support = finsert (fact_id root) (answers |\<union>| cancellations)\<rparr>)
     (message_content root)"

definition thread_projections :: "'r ReductionContext \<Rightarrow> ConversationContribution list" where
  "thread_projections ctx =
     List.map_filter (thread_contribution ctx)
       (filter (\<lambda>f. is_question f \<or> is_asynchronous_root f) (projected_facts ctx))"

definition archives_message :: "SemanticFact \<Rightarrow> bool" where
  "archives_message f = (case payload f of MessageArchived _ \<Rightarrow> True | _ \<Rightarrow> False)"

definition is_rejection :: "SemanticFact \<Rightarrow> bool" where
  "is_rejection f = (case payload f of MessageRejected _ _ \<Rightarrow> True | _ \<Rightarrow> False)"

definition message_contribution ::
  "'r ReductionContext \<Rightarrow> SemanticFact \<times> MessageContent \<Rightarrow> ConversationContribution" where
  "message_contribution ctx pair =
     (case pair of (f, message) \<Rightarrow>
        let states = ids_where ctx (\<lambda>s. state_target s = Some (mc_message_id message));
            frontier = maximal states ctx;
            rejected = fBex states (\<lambda>s. case context_fact ctx s of Some c \<Rightarrow> is_rejection c | None \<Rightarrow> False);
            archived = fBex frontier (\<lambda>s. case context_fact ctx s of Some c \<Rightarrow> archives_message c | None \<Rightarrow> False);
            peer_received_by = ids_where ctx (\<lambda>child. author_id child \<noteq> author_id f \<and> fact_id f |\<in>| fact_parents child)
        in \<lparr>pc_key = MessageProjection (mc_message_id message),
            pc_value = MessageValue \<lparr>mv_fact_id = fact_id f, mv_authored_at = authored_at f,
              mv_account_id = (case scope f of AccountAddressed account_id \<Rightarrow> Some account_id | _ \<Rightarrow> None),
              mv_thread_id = thread_id f, mv_content = message, mv_open = (\<not> rejected \<and> \<not> archived),
              mv_rejected = rejected, mv_state_frontier = frontier, mv_peer_received_by = peer_received_by\<rparr>,
            pc_direct_support = finsert (fact_id f) (states |\<union>| peer_received_by)\<rparr>)"

definition message_projections :: "'r ReductionContext \<Rightarrow> ConversationContribution list" where
  "message_projections ctx =
     map (message_contribution ctx)
       (filter (\<lambda>(_, message). fcard (message_identity_participants (mc_message_id message) ctx) = 1)
         (List.map_filter (\<lambda>f. map_option (Pair f) (message_content f)) (projected_facts ctx)))"

section \<open>Action groups\<close>

definition correlated :: "SemanticFact \<Rightarrow> OperationCorrelation option" where
  "correlated f = Option.bind (message_content f) mc_correlation"

definition is_final_answer :: "SemanticFact \<Rightarrow> bool" where
  "is_final_answer f =
     (case message_content f of Some message \<Rightarrow> mc_presentation message = FinalAnswer | None \<Rightarrow> False)"

definition action_group_contribution ::
  "'r ReductionContext \<Rightarrow> OperationCorrelation \<times> SemanticFact list \<Rightarrow> ConversationContribution" where
  "action_group_contribution ctx grouped =
     (case grouped of (correlation, facts) \<Rightarrow>
        let ordered = ordered_or_default ctx (List.map_filter presentation_entry facts);
            final_answer = find (\<lambda>i. case context_fact ctx i of Some f \<Rightarrow> is_final_answer f | None \<Rightarrow> False) (rev ordered)
        in \<lparr>pc_key = ActionGroupProjection correlation,
            pc_value = ActionGroupValue \<lparr>ag_entries = ordered, ag_final_answer = final_answer\<rparr>,
            pc_direct_support = fset_of_list ordered\<rparr>)"

definition action_group_projections :: "'r ReductionContext \<Rightarrow> ConversationContribution list" where
  "action_group_projections ctx =
     map (action_group_contribution ctx) (sorted_list_of_fmap (group_facts correlated (projected_facts ctx)))"

section \<open>Activity\<close>

text \<open>\<open>Iterator::max_by_key\<close>: the last element with the greatest key.\<close>

definition last_max :: "('f \<Rightarrow> 'k::linorder) \<Rightarrow> 'f list \<Rightarrow> 'f option" where
  "last_max key xs =
     fold (\<lambda>x best. case best of None \<Rightarrow> Some x | Some b \<Rightarrow> if key b \<le> key x then Some x else Some b) xs None"

definition is_completed :: "SemanticFact \<Rightarrow> bool" where
  "is_completed f \<longleftrightarrow> activity_kind f = Some CompletedItem"

definition is_progress :: "SemanticFact \<Rightarrow> bool" where
  "is_progress f \<longleftrightarrow> activity_kind f = Some Progress"

definition coalesced_key :: "SemanticFact \<Rightarrow> ActivityKey option" where
  "coalesced_key f = (if is_completed f then None else activity_key f)"

definition sequence_of :: "SemanticFact \<Rightarrow> nat" where
  "sequence_of f = (case activity_sequence f of Some sequence \<Rightarrow> sequence | None \<Rightarrow> 1)"

definition activity_winners :: "'r ReductionContext \<Rightarrow> (ActivityKey \<times> FactId) list" where
  "activity_winners ctx =
     List.map_filter (\<lambda>(key, facts). map_option (\<lambda>winner. (key, fact_id winner)) (last_max sequence_of facts))
       (sorted_list_of_fmap (group_facts coalesced_key (projected_facts ctx)))
     @ List.map_filter (\<lambda>f. if is_completed f then map_option (\<lambda>key. (key, fact_id f)) (activity_key f) else None)
         (projected_facts ctx)"

definition progress_session :: "'r ReductionContext \<Rightarrow> FactId \<Rightarrow> ActivitySessionKey option" where
  "progress_session ctx i =
     (case context_fact ctx i of
        Some f \<Rightarrow> if is_progress f then activity_session_key f else None
      | None \<Rightarrow> None)"

definition PROGRESS_BUDGET :: nat where "PROGRESS_BUDGET = 200"

definition over_budget :: "'r ReductionContext \<Rightarrow> (nat \<times> ActivityKey \<times> FactId) list \<Rightarrow> nat list" where
  "over_budget ctx indexed =
     (if length indexed \<le> PROGRESS_BUDGET then []
      else
        let retained = take PROGRESS_BUDGET (rev (presented ctx (map (snd \<circ> snd) indexed)))
        in map fst (filter (\<lambda>(_, _, i). i \<notin> set retained) indexed))"

definition selected_activity :: "'r ReductionContext \<Rightarrow> (ActivityKey \<times> FactId) list" where
  "selected_activity ctx =
     (let selected = enumerate 0 (activity_winners ctx);
          progress_by_session = group_facts (\<lambda>(_, _, i). progress_session ctx i) selected;
          remove = concat (map (\<lambda>(_, indexed). over_budget ctx indexed) (sorted_list_of_fmap progress_by_session))
      in map snd (filter (\<lambda>(index, _). index \<notin> set remove) selected))"

definition activity_contribution ::
  "'r ReductionContext \<Rightarrow> ActivityKey \<times> FactId \<Rightarrow> ConversationContribution option" where
  "activity_contribution ctx entry =
     (case entry of (key, i) \<Rightarrow>
        (case context_fact ctx i of
           None \<Rightarrow> None
         | Some winner \<Rightarrow>
             (case payload winner of
                HarnessActivityRecorded _ source correlation item kind logical_key runtime sequence occurred_at status
                    content truncated completed \<Rightarrow>
                  Some
                    \<lparr>pc_key = (if kind = CompletedItem then ActivityRecordProjection (fact_id winner)
                               else ActivityProjection key),
                     pc_value = ActivityValue \<lparr>acv_fact_id = fact_id winner, acv_source = source,
                       acv_correlation = correlation, acv_item = item, acv_kind = kind, acv_sequence = sequence,
                       acv_logical_key = logical_key, acv_runtime = runtime, acv_occurred_at = occurred_at,
                       acv_status = status, acv_content = content, acv_truncated = truncated,
                       acv_completed = completed\<rparr>,
                     pc_direct_support =
                       (if kind = CompletedItem then {|fact_id winner|}
                        else ids_where ctx (\<lambda>f. activity_key f = Some key))\<rparr>
              | _ \<Rightarrow> None)))"

definition retention_contribution ::
  "'r ReductionContext \<Rightarrow> ActivitySessionKey \<times> FactId list \<Rightarrow> ConversationContribution" where
  "retention_contribution ctx grouped =
     (case grouped of (session, ids) \<Rightarrow>
        let ordered = presented ctx ids;
            retained = drop (length ordered - PROGRESS_BUDGET) ordered
        in \<lparr>pc_key = ActivityRetentionProjection session,
            pc_value = ActivityRetentionValue \<lparr>rt_retained_progress = retained, rt_total_progress = length ordered\<rparr>,
            pc_direct_support = fset_of_list retained\<rparr>)"

definition activity_projections :: "'r ReductionContext \<Rightarrow> ConversationContribution list" where
  "activity_projections ctx =
     List.map_filter (activity_contribution ctx) (selected_activity ctx)
     @ map (retention_contribution ctx)
         (sorted_list_of_fmap (group_facts (progress_session ctx) (map snd (activity_winners ctx))))"

section \<open>Aggregates, conflicts and the policy\<close>

definition conversation_aggregate_keys :: "SemanticFact \<Rightarrow> ConversationAggregateKey list" where
  "conversation_aggregate_keys f =
     (case message_content f of Some message \<Rightarrow> [MessageIdentityKey (mc_message_id message)] | None \<Rightarrow> [])
     @ (case payload f of
          QuestionAsked _ \<Rightarrow> [ThreadKey (thread_id f)]
        | AsynchronousMessageSent _ _ \<Rightarrow> [ThreadKey (thread_id f)]
        | AnswerGiven thread _ \<Rightarrow> [ThreadKey thread]
        | ThreadCancelled thread _ \<Rightarrow> [ThreadKey thread]
        | _ \<Rightarrow> [])
     @ (case state_target f of Some target \<Rightarrow> [MessageStateKey target] | None \<Rightarrow> [])
     @ (case archives_conversation f of Some conversation \<Rightarrow> [ConversationStateKey conversation] | None \<Rightarrow> [])
     @ (case activity_key f of Some key \<Rightarrow> [ActivityAggregateKey key] | None \<Rightarrow> [])"

definition derive_conversation_projections :: "'r ReductionContext \<Rightarrow> ConversationContribution list" where
  "derive_conversation_projections ctx =
     thread_projections ctx @ message_projections ctx @ conversation_archive_projections ctx
     @ action_group_projections ctx @ activity_projections ctx"

definition message_conflicts :: "'r ReductionContext \<Rightarrow> ConversationReason ConflictObservation list" where
  "message_conflicts ctx =
     List.map_filter (\<lambda>(_, participants).
         if fcard participants > 1 then Some (ConflictObservation (DomainConflict MessageIdentityConflict) participants)
         else None)
       (sorted_list_of_fmap (group_members (\<lambda>f. map_option mc_message_id (message_content f))
         (fact_set_facts (ctx_facts ctx))))"

text \<open>The logical key of an activity is its key without the runtime.\<close>

definition without_runtime :: "ActivityKey \<Rightarrow> ActivityKey" where
  "without_runtime key =
     ActivityKey (ak_source key) (ak_correlation key) (ak_item key) (ak_kind key) (ak_logical_key key) []"

definition activity_runtime_conflicts :: "'r ReductionContext \<Rightarrow> ConversationReason ConflictObservation list" where
  "activity_runtime_conflicts ctx =
     List.map_filter (\<lambda>(_, facts).
         let frontier = maximal (fset_of_list (map fact_id facts)) ctx;
             runtimes = List.map_filter (\<lambda>i. map_option ak_runtime (Option.bind (context_fact ctx i) activity_key))
               (sorted_list_of_fset frontier)
         in if several runtimes
            then Some (ConflictObservation (DomainConflict ActivityRuntimeConflict) frontier) else None)
       (sorted_list_of_fmap (group_facts (\<lambda>f. map_option without_runtime (activity_key f)) (projected_facts ctx)))"

definition conversation_presentation_entries :: "'r ReductionContext \<Rightarrow> PresentationEntry list" where
  "conversation_presentation_entries ctx =
     List.map_filter presentation_entry (filter (\<lambda>f. message_content f \<noteq> None) (projected_facts ctx))
     @ List.map_filter (\<lambda>(_, i). Option.bind (context_fact ctx i) presentation_entry) (selected_activity ctx)"

definition conversation_reducer ::
  "AuthorityPolicy \<Rightarrow> (ConversationAggregateKey, ConversationProjectionKey, ConversationProjection, ConversationReason)
     DomainReducer" where
  "conversation_reducer policy =
     \<lparr>classify = conversation_classify policy, aggregate_keys = (\<lambda>f _. conversation_aggregate_keys f),
      domain_projections = derive_conversation_projections,
      domain_conflicts = (\<lambda>ctx. message_conflicts ctx @ activity_runtime_conflicts ctx),
      presentation_entries = conversation_presentation_entries\<rparr>"

section \<open>Derivations from a report\<close>

type_synonym ConversationReport =
  "(ConversationAggregateKey, ConversationProjectionKey, ConversationProjection, ConversationReason) ReductionReport"

definition message_conversation_key :: "MessageView \<Rightarrow> AuthorityPolicy \<Rightarrow> ConversationId option" where
  "message_conversation_key message policy =
     conversation_of (MailboxAddress (local_installation policy) (local_human_mailbox policy)) (mv_content message)
       (mv_thread_id message)"

definition conversation_entry ::
  "ConversationReport \<Rightarrow> AuthorityPolicy \<Rightarrow> ConversationProjectionKey \<times> ConversationProjection \<Rightarrow>
     (ConversationId \<times> PresentationEntry) option" where
  "conversation_entry report policy projection =
     (case projection of
        (MessageProjection _, MessageValue message) \<Rightarrow>
          (case (message_conversation_key message policy,
                 Option.bind (fact_set_get (rr_facts report) (mv_fact_id message)) presentation_entry) of
             (Some conversation, Some entry) \<Rightarrow> Some (conversation, entry)
           | _ \<Rightarrow> None)
      | (ActivityProjection _, ActivityValue activity) \<Rightarrow>
          Option.bind (fact_set_get (rr_facts report) (acv_fact_id activity)) (\<lambda>f.
            case (activity_conversation f, presentation_entry f) of
              (Some conversation, Some entry) \<Rightarrow> Some (conversation, entry) | _ \<Rightarrow> None)
      | (ActivityRecordProjection _, ActivityValue activity) \<Rightarrow>
          Option.bind (fact_set_get (rr_facts report) (acv_fact_id activity)) (\<lambda>f.
            case (activity_conversation f, presentation_entry f) of
              (Some conversation, Some entry) \<Rightarrow> Some (conversation, entry) | _ \<Rightarrow> None)
      | _ \<Rightarrow> None)"

fun collect_orders ::
  "CausalGraph \<Rightarrow> (ConversationId \<times> PresentationEntry list) list \<Rightarrow> (ConversationId, FactId list) fmap \<Rightarrow>
     (PresentationError + (ConversationId, FactId list) fmap) option" where
  "collect_orders graph [] orders = Some (Ok orders)"
| "collect_orders graph ((key, selected) # rest) orders =
     (case canonical_presentation_order graph selected of
        None \<Rightarrow> None
      | Some (Err e) \<Rightarrow> Some (Err e)
      | Some (Ok order) \<Rightarrow> collect_orders graph rest (fmupd key order orders))"

definition conversation_orders ::
  "ConversationReport \<Rightarrow> AuthorityPolicy \<Rightarrow> (PresentationError + (ConversationId, FactId list) fmap) option" where
  "conversation_orders report policy =
     (let found = List.map_filter (conversation_entry report policy) (sorted_list_of_fmap (rr_projections report));
          entries = fmmap (map snd) (group_facts (\<lambda>(conversation, _). Some conversation) found)
      in collect_orders (rr_graph report) (sorted_list_of_fmap entries) fmempty)"

record IncompleteMessageObservation =
  im_fact_id :: FactId
  im_content :: MessageContent
  im_missing_dependencies :: "FactId fset"
  im_unusable_dependencies :: "FactId fset"

definition incomplete_addressed_observations :: "ConversationReport \<Rightarrow> IncompleteMessageObservation list" where
  "incomplete_addressed_observations report =
     List.map_filter (\<lambda>f.
         Option.bind (fmlookup (rr_decisions report) (fact_id f)) (\<lambda>decision.
           if fd_status decision = Unresolved \<and>
              (case scope f of PeerAddressed _ \<Rightarrow> True | AccountAddressed _ \<Rightarrow> True | _ \<Rightarrow> False)
           then map_option (\<lambda>content.
               \<lparr>im_fact_id = fact_id f, im_content = content,
                im_missing_dependencies = fd_missing_dependencies decision,
                im_unusable_dependencies = fmdom (fd_unusable_dependencies decision)\<rparr>) (message_content f)
           else None))
       (fact_set_facts (rr_facts report))"

end
