(* ===== verification/Conversation_Rules.thy ===== *)
theory Conversation_Rules
  imports Conversation_Views
begin

text \<open>
  What the conversation policy accepts, and how its answers compare between rounds. Apart from the
  rule that nothing restores a message after its rejection, projecting more facts never makes the
  policy reject one; that rule looks at ancestors only.
\<close>

section \<open>Roots of threads\<close>

lemma find_unique:
  assumes "\<And>x y. x \<in> set xs \<Longrightarrow> y \<in> set xs \<Longrightarrow> P x \<Longrightarrow> P y \<Longrightarrow> x = y"
  shows "find P xs = Some x \<longleftrightarrow> x \<in> set xs \<and> P x"
proof
  assume "find P xs = Some x"
  then show "x \<in> set xs \<and> P x" unfolding find_Some_iff by (metis nth_mem)
next
  assume x: "x \<in> set xs \<and> P x"
  then obtain y where "find P xs = Some y" using find_None_iff [of P xs] by (cases "find P xs") auto
  moreover from this have "y \<in> set xs \<and> P y" unfolding find_Some_iff by (metis nth_mem)
  ultimately show "find P xs = Some x" using x assms by blast
qed

lemma find_by_identity:
  assumes wf: "fact_set_wf s" and unique: "\<And>f. P f \<Longrightarrow> fact_id f = i"
  shows "find P (fact_set_facts s) = Some f \<longleftrightarrow> fact_set_get s i = Some f \<and> P f"
proof -
  have "find P (fact_set_facts s) = Some f \<longleftrightarrow> f \<in> set (fact_set_facts s) \<and> P f"
  proof (rule find_unique)
    fix x y assume "x \<in> set (fact_set_facts s)" "y \<in> set (fact_set_facts s)" "P x" "P y"
    moreover from this unique have "fact_id x = fact_id y" by metis
    ultimately show "x = y" by (simp add: set_fact_set_facts [OF wf])
  qed
  also have "\<dots> \<longleftrightarrow> fact_set_get s i = Some f \<and> P f"
    using unique [of f] fact_set_get_id [OF wf, of i f] by (auto simp: set_fact_set_facts [OF wf])
  finally show ?thesis .
qed

lemma question_thread: "is_question f \<Longrightarrow> thread_id f = fact_id f"
  by (cases "payload f") (simp_all add: is_question_def thread_id_def)

lemma question_root_iff:
  assumes "fact_set_wf s"
  shows "question_root thread (round_context s ds) = Some root \<longleftrightarrow>
    fact_set_get s thread = Some root \<and> usable ds thread \<and> is_question root"
proof -
  have "question_root thread (round_context s ds) = Some root \<longleftrightarrow>
      fact_set_get s thread = Some root \<and> usable ds (fact_id root) \<and> is_question root \<and> thread_id root = thread"
    unfolding question_root_def ReductionContext.select_convs round_context_simps
    by (rule find_by_identity [OF assms]) (auto simp: question_thread)
  then show ?thesis using fact_set_get_id [OF assms, of thread root] question_thread [of root] by auto
qed

lemma asynchronous_root_iff:
  assumes "fact_set_wf s"
  shows "asynchronous_root thread (round_context s ds) = Some root \<longleftrightarrow>
    fact_set_get s thread = Some root \<and> usable ds thread \<and> is_asynchronous_root root"
proof -
  have "asynchronous_root thread (round_context s ds) = Some root \<longleftrightarrow>
      fact_set_get s thread = Some root \<and> usable ds (fact_id root) \<and> is_asynchronous_root root \<and> fact_id root = thread"
    unfolding asynchronous_root_def ReductionContext.select_convs round_context_simps
    by (rule find_by_identity [OF assms]) simp
  then show ?thesis using fact_set_get_id [OF assms, of thread root] by auto
qed

section \<open>The policy as a layer\<close>

lemma conversation_reducer_fields [simp]:
  "classify (conversation_reducer policy) = conversation_classify policy"
  "domain_projections (conversation_reducer policy) = derive_conversation_projections"
  "presentation_entries (conversation_reducer policy) = conversation_presentation_entries"
  by (simp_all add: conversation_reducer_def)

lemma classify_conversation_projected_iff:
  "classify_conversation f ctx policy = DomainProjected \<longleftrightarrow> validate_conversation f ctx policy = Ok ()"
  by (auto simp: classify_conversation_def split: sum.splits ConversationReason.splits)

lemma conversation_classify_projected_iff:
  "conversation_classify policy f ctx = DomainProjected \<longleftrightarrow>
     validate_fact policy f ctx = Ok () \<and> validate_conversation f ctx policy = Ok ()"
  by (auto simp: conversation_classify_def Let_def classify_fact_projected_iff classify_conversation_projected_iff)

interpretation conversation_layer: authority_layer "conversation_reducer policy" policy for policy
  by unfold_locales (simp add: conversation_classify_projected_iff)

section \<open>Comparing rounds\<close>

lemmas conversation_checks =
  validate_message_identity_def message_identity_participants_def validate_activity_sequence_def
  activity_sequence_participants_def validate_message_state_def validate_conversation_archive_def
  validate_activity_source_def validate_project_activity_def validate_project_runtime_parent_def
  validate_answer_def validate_asynchronous_continuation_def validate_cancellation_def
  question_root_def asynchronous_root_def rejected_before_def projected_facts_def

lemma static_conversation_checks:
  "message_identity_participants i (round_context s S) = message_identity_participants i (round_context s ds)"
  "validate_message_identity i (round_context s S) = validate_message_identity i (round_context s ds)"
  "validate_activity_sequence f (round_context s S) = validate_activity_sequence f (round_context s ds)"
  by (simp_all only: validate_message_identity_def message_identity_participants_def validate_activity_sequence_def
      activity_sequence_participants_def round_context_simps ReductionContext.select_convs)

lemma conversation_parts_mono:
  assumes wf: "fact_set_wf s" and within: "usable_within S ds"
  shows "validate_answer f t m (round_context s S) = Ok () \<Longrightarrow> validate_answer f t m (round_context s ds) = Ok ()"
    and "validate_asynchronous_continuation f t m (round_context s S) = Ok () \<Longrightarrow>
      validate_asynchronous_continuation f t m (round_context s ds) = Ok ()"
    and "validate_cancellation f t (round_context s S) = Ok () \<Longrightarrow> validate_cancellation f t (round_context s ds) = Ok ()"
    and "validate_conversation_archive f c (round_context s S) policy = Ok () \<Longrightarrow>
      validate_conversation_archive f c (round_context s ds) policy = Ok ()"
    and "validate_activity_source f b (round_context s S) = Ok () \<Longrightarrow>
      validate_activity_source f b (round_context s ds) = Ok ()"
    and "validate_project_runtime_parent f p d a t b (round_context s S) = Ok () \<Longrightarrow>
      validate_project_runtime_parent f p d a t b (round_context s ds) = Ok ()"
proof -
  have root: "question_root t (round_context s S) = Some root \<Longrightarrow> question_root t (round_context s ds) = Some root"
    and async: "asynchronous_root t (round_context s S) = Some root \<Longrightarrow>
      asynchronous_root t (round_context s ds) = Some root" for root
    using within by (auto simp: question_root_iff [OF wf] asynchronous_root_iff [OF wf] usable_within_def)
  show "validate_answer f t m (round_context s S) = Ok () \<Longrightarrow> validate_answer f t m (round_context s ds) = Ok ()"
    using root unfolding validate_answer_def and_then_Ok_iff ok_or_Ok_iff by blast
  show "validate_asynchronous_continuation f t m (round_context s S) = Ok () \<Longrightarrow>
      validate_asynchronous_continuation f t m (round_context s ds) = Ok ()"
    using async unfolding validate_asynchronous_continuation_def and_then_Ok_iff ok_or_Ok_iff by blast
  show "validate_cancellation f t (round_context s S) = Ok () \<Longrightarrow> validate_cancellation f t (round_context s ds) = Ok ()"
    using root unfolding validate_cancellation_def and_then_Ok_iff ok_or_Ok_iff by blast
  show "validate_conversation_archive f c (round_context s S) policy = Ok () \<Longrightarrow>
      validate_conversation_archive f c (round_context s ds) policy = Ok ()"
    using within by (auto simp: validate_conversation_archive_def check_Ok_iff list_ex_iff projected_facts_def usable_within_def Let_def)
  show "validate_activity_source f b (round_context s S) = Ok () \<Longrightarrow>
      validate_activity_source f b (round_context s ds) = Ok ()"
    using within by (auto simp: validate_activity_source_def check_Ok_iff list_ex_iff usable_within_def Let_def)
  show "validate_project_runtime_parent f p d a t b (round_context s S) = Ok () \<Longrightarrow>
      validate_project_runtime_parent f p d a t b (round_context s ds) = Ok ()"
    using within
    by (fastforce simp: validate_project_runtime_parent_def check_Ok_iff list_ex_iff usable_within_def Let_def
        split: option.splits)
qed

lemma validate_message_state_Ok_iff:
  "validate_message_state f i ctx = Ok () \<longleftrightarrow>
     (\<exists>target. message_identity_participants i ctx = {|target|} \<and>
        structurally_reaches (ctx_graph ctx) target (fact_id f) \<and> is_projected ctx target) \<and>
     \<not> (is_restore f \<and> rejected_before f i ctx)"
proof -
  have single: "sorted_list_of_fset M = [x] \<longleftrightarrow> M = {|x|}" for M and x :: FactId
  proof
    assume "sorted_list_of_fset M = [x]"
    then have "set (sorted_list_of_fset M) = {x}" by simp
    then show "M = {|x|}" by (simp add: sorted_list_of_fset.rep_eq fset_inject [symmetric])
  qed (simp add: sorted_list_of_fset.rep_eq)
  show ?thesis
    by (auto simp: validate_message_state_def single simp flip: single split: list.splits if_splits)
qed

lemma validate_conversation_keep:
  assumes wf: "fact_set_wf s" and within: "usable_within S ds"
    and restore: "\<And>i. payload f = MessageRestored i \<Longrightarrow> rejected_before f i (round_context s ds) \<Longrightarrow>
      rejected_before f i (round_context s S)"
    and ok: "validate_conversation f (round_context s S) policy = Ok ()"
  shows "validate_conversation f (round_context s ds) policy = Ok ()"
proof -
  note mono = conversation_parts_mono [OF wf within]
  have state: "validate_message_state f i (round_context s S) = Ok () \<Longrightarrow>
      validate_message_state f i (round_context s ds) = Ok ()" if "is_restore f \<longrightarrow> payload f = MessageRestored i" for i
    using within restore [of i] that
    by (auto simp: validate_message_state_Ok_iff static_conversation_checks(1) [of i s S ds] usable_within_def)
  have project: "validate_project_activity f p b c (round_context s S) = Ok () \<Longrightarrow>
      validate_project_activity f p b c (round_context s ds) = Ok ()" for p b c
    using mono(6) by (auto simp: validate_project_activity_def split: if_splits)
  show ?thesis
    using ok
    by (cases "payload f")
      (auto simp: validate_conversation_def and_then_Ok_iff static_conversation_checks(2,3) [of _ s S ds]
        mono state project is_restore_def split: option.splits)
qed

interpretation conversations: conservative_policy "conversation_reducer policy" "\<lambda>_. True" for policy
proof
  fix s f
  fix S ds :: "ConversationReason Decisions"
  assume wf: "fact_set_wf s" and stable: "round_of s (graph_of s) (conversation_reducer policy) S = S"
    and within: "usable_within S ds" and get: "fact_set_get s (fact_id f) = Some f" and usable: "usable S (fact_id f)"
  have "validate_conversation f (round_context s S) policy = Ok ()"
    using stable_usable_iff [OF wf stable, of "fact_id f"] get usable by (auto simp: conversation_classify_projected_iff)
  then have "validate_conversation f (round_context s ds) policy = Ok ()"
    by (rule validate_conversation_keep [OF wf within, rotated])
      (use stable_ancestor_usable [OF wf stable usable] in \<open>auto simp: rejected_before_def list_ex_iff\<close>)
  with conversation_layer.authority_keeps [OF wf stable within get usable]
  show "classify (conversation_reducer policy) f (round_context s ds) = DomainProjected"
    by (simp add: conversation_classify_projected_iff)
qed

text \<open>Fact sets in which, besides, no message is restored after a rejection of it.\<close>

definition restores_precede_rejections :: "FactSet \<Rightarrow> bool" where
  "restores_precede_rejections s =
     list_all (\<lambda>f. case payload f of
         MessageRestored i \<Rightarrow>
           list_all (\<lambda>r. \<not> rejects_message i r \<or> \<not> structurally_reaches (graph_of s) (fact_id r) (fact_id f))
             (fact_set_facts s)
       | _ \<Rightarrow> True) (fact_set_facts s)"

definition orderly_conversations :: "FactSet \<Rightarrow> bool" where
  "orderly_conversations s \<longleftrightarrow> acceptances_precede_revokes s \<and> restores_precede_rejections s"

lemma conversation_classify_same:
  assumes "usable S = usable ds"
  shows "conversation_classify policy f (round_context s S) = conversation_classify policy f (round_context s ds)"
proof -
  have "validate_conversation f (round_context s S) policy = validate_conversation f (round_context s ds) policy"
    by (simp only: validate_conversation_def conversation_checks round_context_simps ReductionContext.select_convs assms)
  moreover have "activity_sequence_participants f (round_context s S) = activity_sequence_participants f (round_context s ds)"
    by (simp only: activity_sequence_participants_def round_context_simps ReductionContext.select_convs)
  ultimately have "classify_conversation f (round_context s S) policy = classify_conversation f (round_context s ds) policy"
    by (simp only: classify_conversation_def static_conversation_checks(1) [of _ s S ds])
  moreover note classify_fact_same [OF assms, of policy f s]
  ultimately show ?thesis by (simp only: conversation_classify_def)
qed

interpretation ordered_conversations: monotone_policy "conversation_reducer policy" orderly_conversations for policy
proof
  fix s f
  fix ds ds' :: "ConversationReason Decisions"
  show "classify (conversation_reducer policy) f (round_context s ds) =
      classify (conversation_reducer policy) f (round_context s ds')"
    if "usable_within ds ds'" and "usable_within ds' ds"
  proof -
    have "usable ds = usable ds'" using that by (auto simp: usable_within_def fun_eq_iff)
    from conversation_classify_same [OF this] show ?thesis by (simp only: conversation_reducer_fields)
  qed
  assume wf: "fact_set_wf s" and good: "orderly_conversations s" and get: "fact_set_get s (fact_id f) = Some f"
    and within: "usable_within ds ds'"
    and ok: "classify (conversation_reducer policy) f (round_context s ds) = DomainProjected"
  have "f \<in> set (fact_set_facts s)" using get by (simp add: set_fact_set_facts [OF wf])
  moreover have "validate_conversation f (round_context s ds) policy = Ok ()"
    using ok by (simp add: conversation_classify_projected_iff)
  ultimately have "validate_conversation f (round_context s ds') policy = Ok ()"
    using good
    by (intro validate_conversation_keep [OF wf within])
      (auto simp: orderly_conversations_def restores_precede_rejections_def list_all_iff rejected_before_def list_ex_iff)
  moreover have "validate_fact policy f (round_context s ds') = Ok ()"
    using good conversation_layer.authority_monotone [OF wf _ get within ok] by (simp add: orderly_conversations_def)
  ultimately show "classify (conversation_reducer policy) f (round_context s ds') = DomainProjected"
    by (simp add: conversation_classify_projected_iff)
qed

end
