(* ===== verification/Conversation_Reduction.thy ===== *)
theory Conversation_Reduction
  imports Conversation_Rules
begin

text \<open>
  Complete conversation reduction always produces a report unless its decisions fail to settle:
  the projections and the presentation entries it derives are sound.
\<close>

section \<open>Orders of projected facts\<close>

lemma presentation_entry_id: "presentation_entry f = Some e \<Longrightarrow> pe_fact_id e = fact_id f"
  by (cases "payload f") (auto simp: presentation_entry_def message_content_def Let_def)

lemma presentation_entry_iff:
  "presentation_entry f \<noteq> None \<longleftrightarrow> message_content f \<noteq> None \<or> activity_key f \<noteq> None"
  by (cases "payload f") (simp_all add: presentation_entry_def message_content_def activity_key_def Let_def)

lemma message_not_activity: "message_content f \<noteq> None \<Longrightarrow> activity_key f = None"
  by (cases "payload f") (simp_all add: message_content_def activity_key_def)

lemma thread_root:
  assumes "is_question f \<or> is_asynchronous_root f"
  shows "thread_id f = fact_id f" and "message_content f \<noteq> None"
proof -
  show "thread_id f = fact_id f"
    using assms by (cases "payload f") (auto simp: is_question_def is_asynchronous_root_def thread_id_def split: option.splits)
  show "message_content f \<noteq> None"
    using assms by (cases "payload f") (simp_all add: is_question_def is_asynchronous_root_def message_content_def)
qed

lemma map_filter_entries:
  assumes "\<And>x. x \<in> set xs \<Longrightarrow> \<exists>e. h x = Some e \<and> pe_fact_id e = g x"
  shows "map pe_fact_id (List.map_filter h xs) = map g xs"
  using assms by (induction xs) (fastforce simp: map_filter_simps)+

lemma ordered_facts:
  assumes stable: "stable_decisions domain fs ds" and "distinct (map pe_fact_id es)"
    and "\<And>e. e \<in> set es \<Longrightarrow> usable ds (pe_fact_id e)"
  shows "set (ordered_or_default (arrived fs ds) es) = pe_fact_id ` set es"
    and "distinct (ordered_or_default (arrived fs ds) es)"
    and "canonical_order (ready_entry (entry_map es)) (\<lambda>v. fset (graph_parents (graph_of (from_facts fs)) v))
      (pe_fact_id ` set es) (ordered_or_default (arrived fs ds) es)"
proof -
  obtain xs where "canonical_presentation_order (graph_of (from_facts fs)) es = Some (Ok xs)"
      "distinct xs" "set xs = pe_fact_id ` set es"
      "canonical_order (ready_entry (entry_map es)) (\<lambda>v. fset (graph_parents (graph_of (from_facts fs)) v))
        (pe_fact_id ` set es) xs"
    by (rule usable_presentation [OF assms])
  then show "set (ordered_or_default (arrived fs ds) es) = pe_fact_id ` set es"
    and "distinct (ordered_or_default (arrived fs ds) es)"
    and "canonical_order (ready_entry (entry_map es)) (\<lambda>v. fset (graph_parents (graph_of (from_facts fs)) v))
      (pe_fact_id ` set es) (ordered_or_default (arrived fs ds) es)"
    by (simp_all add: ordered_or_default_def)
qed

lemma presented_facts:
  assumes stable: "stable_decisions domain fs ds" and dist: "distinct ids"
    and usable: "\<And>i. i \<in> set ids \<Longrightarrow> usable ds i"
    and entry: "\<And>i. i \<in> set ids \<Longrightarrow> \<exists>f. fact_set_get (from_facts fs) i = Some f \<and> presentation_entry f \<noteq> None"
  shows "set (presented (arrived fs ds) ids) = set ids" and "distinct (presented (arrived fs ds) ids)"
proof -
  let ?es = "List.map_filter (\<lambda>i. Option.bind (context_fact (arrived fs ds) i) presentation_entry) ids"
  have es: "map pe_fact_id ?es = map id ids"
  proof (rule map_filter_entries)
    fix i assume "i \<in> set ids"
    then obtain f e where f: "fact_set_get (from_facts fs) i = Some f" "presentation_entry f = Some e"
      using entry by blast
    then have "pe_fact_id e = i" using presentation_entry_id fact_set_get_id [OF fact_set_wf_from_facts f(1)] by simp
    then show "\<exists>e. Option.bind (context_fact (arrived fs ds) i) presentation_entry = Some e \<and> pe_fact_id e = id i"
      using f by simp
  qed
  then have ids: "pe_fact_id ` set ?es = set ids" by (metis list.map_id set_map)
  have "distinct (map pe_fact_id ?es)" using es dist by simp
  moreover have "usable ds (pe_fact_id e)" if "e \<in> set ?es" for e using that ids usable by blast
  ultimately show "set (presented (arrived fs ds) ids) = set ids" and "distinct (presented (arrived fs ds) ids)"
    unfolding presented_def using ordered_facts [OF stable, of ?es] ids by simp_all
qed

lemma distinct_projected: "distinct (map fact_id (projected_facts (arrived fs ds)))"
  using distinct_fact_set_facts [OF fact_set_wf_from_facts]
  by (simp add: projected_facts_def distinct_map_filter)

lemma projected_unique:
  assumes "f \<in> set (projected_facts (arrived fs ds))" and "g \<in> set (projected_facts (arrived fs ds))"
    and "fact_id f = fact_id g"
  shows "f = g"
  using assms by (simp add: set_projected_facts)

section \<open>Activity winners\<close>

lemma last_max_Some: "xs \<noteq> [] \<Longrightarrow> \<exists>x. last_max key xs = Some x"
  unfolding last_max_def by (induction xs rule: rev_induct) (auto split: option.splits)

lemma last_max_in: "last_max key xs = Some x \<Longrightarrow> x \<in> set xs"
  unfolding last_max_def by (induction xs arbitrary: x rule: rev_induct) (auto split: option.splits if_splits)

lemma last_max_greatest: "last_max key xs = Some x \<Longrightarrow> y \<in> set xs \<Longrightarrow> key y \<le> key x"
  unfolding last_max_def
proof (induction xs arbitrary: x y rule: rev_induct)
  case (snoc z xs)
  let ?best = "fold (\<lambda>x best. case best of None \<Rightarrow> Some x | Some b \<Rightarrow> if key b \<le> key x then Some x else Some b) xs None"
  show ?case
  proof (cases ?best)
    case None
    then have "xs = []" using last_max_Some [of xs key] unfolding last_max_def by force
    then show ?thesis using snoc.prems by simp
  next
    case (Some b)
    then have "w \<in> set xs \<Longrightarrow> key w \<le> key b" for w using snoc.IH by blast
    then show ?thesis using snoc.prems Some by (auto split: if_splits dest: order.trans)
  qed
qed simp

definition coalesced_winners :: "'r ReductionContext \<Rightarrow> (ActivityKey \<times> FactId) list" where
  "coalesced_winners ctx =
     List.map_filter (\<lambda>(key, facts). map_option (\<lambda>winner. (key, fact_id winner)) (last_max sequence_of facts))
       (sorted_list_of_fmap (group_facts coalesced_key (projected_facts ctx)))"

definition completed_items :: "'r ReductionContext \<Rightarrow> (ActivityKey \<times> FactId) list" where
  "completed_items ctx =
     List.map_filter (\<lambda>f. if is_completed f then map_option (\<lambda>key. (key, fact_id f)) (activity_key f) else None)
       (projected_facts ctx)"

lemma activity_winners_parts: "activity_winners ctx = coalesced_winners ctx @ completed_items ctx"
  by (simp add: activity_winners_def coalesced_winners_def completed_items_def)

lemma coalesced_winner_iff:
  "(key, i) \<in> set (coalesced_winners ctx) \<longleftrightarrow>
     (\<exists>f. last_max sequence_of (filter (\<lambda>f. coalesced_key f = Some key) (projected_facts ctx)) = Some f \<and> fact_id f = i)"
proof -
  have "(key, i) \<in> set (coalesced_winners ctx) \<longleftrightarrow>
      (\<exists>facts f. fmlookup (group_facts coalesced_key (projected_facts ctx)) key = Some facts \<and>
         last_max sequence_of facts = Some f \<and> fact_id f = i)"
    by (force simp: coalesced_winners_def set_map_filter set_sorted_list_of_fmap)
  then show ?thesis by (auto simp: fmlookup_group_facts last_max_def)
qed

lemma completed_item_iff:
  "(key, i) \<in> set (completed_items ctx) \<longleftrightarrow>
     (\<exists>f \<in> set (projected_facts ctx). is_completed f \<and> activity_key f = Some key \<and> fact_id f = i)"
  by (force simp: completed_items_def set_map_filter split: if_splits)

lemma winner_fact:
  assumes "(key, i) \<in> set (activity_winners (arrived fs ds))"
  obtains f where "f \<in> set (projected_facts (arrived fs ds))" "fact_id f = i" "activity_key f = Some key"
    "fact_set_get (from_facts fs) i = Some f" "usable ds i"
proof -
  obtain f where f: "f \<in> set (projected_facts (arrived fs ds))" "fact_id f = i" "activity_key f = Some key"
    using assms
    by (auto simp: activity_winners_parts coalesced_winner_iff completed_item_iff coalesced_key_def
        dest!: last_max_in split: if_splits)
  then show thesis using that by (auto simp: set_projected_facts)
qed

lemma distinct_map_filter_by:
  assumes "distinct (map fst ps)" and "\<And>p q. p \<in> set ps \<Longrightarrow> h p = Some q \<Longrightarrow> K (g q) = Some (fst p)"
  shows "distinct (map g (List.map_filter h ps))"
  using assms
proof (induction ps)
  case (Cons p ps)
  have old: "\<exists>p' \<in> set ps. K (g q) = Some (fst p')" if q: "q \<in> set (List.map_filter h ps)" for q
  proof -
    obtain p' where "p' \<in> set ps" "h p' = Some q" using q by (auto simp: set_map_filter)
    then show ?thesis using Cons.prems(2) [of p' q] by auto
  qed
  have rest: "distinct (map g (List.map_filter h ps))" using Cons by simp
  show ?case
  proof (cases "h p")
    case (Some q)
    then have "K (g q) = Some (fst p)" using Cons.prems(2) [of p q] by simp
    moreover have "fst p \<notin> fst ` set ps" using Cons.prems(1) by simp
    ultimately have "g q \<notin> set (map g (List.map_filter h ps))" using old by (auto simp: image_iff) (metis option.inject)
    then show ?thesis using rest Some by (simp add: map_filter_simps)
  qed (use rest in \<open>simp add: map_filter_simps\<close>)
qed (simp add: map_filter_simps)

lemma distinct_winner_keys: "distinct (map fst (coalesced_winners ctx))"
  unfolding coalesced_winners_def
  by (rule distinct_map_filter_by [OF distinct_sorted_fmap, where K = Some]) auto

lemma distinct_winners: "distinct (map snd (activity_winners (arrived fs ds)))"
proof -
  let ?ctx = "arrived fs ds"
  have same: "key = key'" if "(key, i) \<in> set (activity_winners ?ctx)" "(key', i) \<in> set (activity_winners ?ctx)" for key key' i
    using that by (elim winner_fact) simp
  have "distinct (coalesced_winners ?ctx)" using distinct_winner_keys by (metis distinct_map)
  moreover have "inj_on snd (set (coalesced_winners ?ctx))"
    using same by (force simp: inj_on_def activity_winners_parts)
  ultimately have "distinct (map snd (coalesced_winners ?ctx))" by (simp add: distinct_map)
  moreover have "map snd (List.map_filter (\<lambda>f. if is_completed f
        then map_option (\<lambda>key. (key, fact_id f)) (activity_key f) else None) xs) =
      map fact_id (filter (\<lambda>f. is_completed f \<and> activity_key f \<noteq> None) xs)" for xs
    by (induction xs) (auto simp: map_filter_simps)
  then have "map snd (completed_items ?ctx) =
      map fact_id (filter (\<lambda>f. is_completed f \<and> activity_key f \<noteq> None) (projected_facts ?ctx))"
    by (simp add: completed_items_def)
  then have "distinct (map snd (completed_items ?ctx))"
    by (simp add: distinct_map_filter distinct_projected)
  moreover have "snd p \<noteq> snd q" if pq: "p \<in> set (coalesced_winners ?ctx)" "q \<in> set (completed_items ?ctx)" for p q
  proof
    assume eq: "snd p = snd q"
    obtain key i where p: "p = (key, i)" by (cases p)
    obtain key' where q: "q = (key', i)" using eq p by (cases q) auto
    obtain f where f: "last_max sequence_of (filter (\<lambda>f. coalesced_key f = Some key) (projected_facts ?ctx)) = Some f"
        "fact_id f = i"
      using pq(1) unfolding p coalesced_winner_iff by blast
    obtain h where h: "h \<in> set (projected_facts ?ctx)" "is_completed h" "fact_id h = i"
      using pq(2) unfolding q completed_item_iff by blast
    have "f \<in> set (projected_facts ?ctx)" "coalesced_key f = Some key" using last_max_in [OF f(1)] by simp_all
    moreover from this h f(2) have "f = h" by (simp add: set_projected_facts)
    ultimately show False using h(2) by (simp add: coalesced_key_def)
  qed
  then have "set (map snd (coalesced_winners ?ctx)) \<inter> set (map snd (completed_items ?ctx)) = {}" by fastforce
  ultimately show ?thesis unfolding activity_winners_parts map_append distinct_append by blast
qed

lemma selected_winners:
  "set (selected_activity ctx) \<subseteq> set (activity_winners ctx)"
  "distinct (map snd (activity_winners ctx)) \<Longrightarrow> distinct (map snd (selected_activity ctx))"
proof -
  obtain P where s: "selected_activity ctx = map snd (filter P (enumerate 0 (activity_winners ctx)))"
    by (simp add: selected_activity_def Let_def)
  show "set (selected_activity ctx) \<subseteq> set (activity_winners ctx)"
    unfolding s by (auto simp: in_set_enumerate_eq) (metis nth_mem)
  assume "distinct (map snd (activity_winners ctx))"
  then have "distinct (map (snd \<circ> snd) (enumerate 0 (activity_winners ctx)))"
    by (metis map_map map_snd_enumerate)
  then show "distinct (map snd (selected_activity ctx))"
    unfolding s by (simp add: distinct_map_filter)
qed

section \<open>Sound contributions\<close>

lemma ids_where_iff:
  "i |\<in>| ids_where (arrived fs ds) P \<longleftrightarrow>
     (\<exists>f. fact_set_get (from_facts fs) i = Some f \<and> usable ds i \<and> P f)"
proof -
  have "i |\<in>| ids_where (arrived fs ds) P \<longleftrightarrow> (\<exists>f \<in> set (projected_facts (arrived fs ds)). P f \<and> fact_id f = i)"
    by (auto simp: ids_where_def fset_of_list_elem)
  then show ?thesis
    using fact_set_get_id [OF fact_set_wf_from_facts, of fs i] by (auto simp: set_projected_facts)
qed

lemma thread_contributions_sound: "sound_contributions (arrived fs ds) (thread_projections (arrived fs ds))"
  unfolding thread_projections_def
proof (rule sound_mapped [where K = "\<lambda>f. ThreadProjection (fact_id f)"])
  fix f c assume f: "f \<in> set (filter (\<lambda>f. is_question f \<or> is_asynchronous_root f) (projected_facts (arrived fs ds)))"
    and c: "thread_contribution (arrived fs ds) f = Some c"
  have "thread_id f = fact_id f" using f thread_root(1) [of f] by simp
  with f c show "pc_key c = ThreadProjection (fact_id f) \<and> pc_direct_support c \<noteq> {||} \<and>
      (\<forall>i. i |\<in>| pc_direct_support c \<longrightarrow> is_projected (arrived fs ds) i)"
    by (auto simp: thread_contribution_def Let_def ids_where_iff set_projected_facts)
next
  fix f g assume "f \<in> set (filter (\<lambda>f. is_question f \<or> is_asynchronous_root f) (projected_facts (arrived fs ds)))"
    "g \<in> set (filter (\<lambda>f. is_question f \<or> is_asynchronous_root f) (projected_facts (arrived fs ds)))"
    and "ThreadProjection (fact_id f) = ThreadProjection (fact_id g)"
  then show "f = g" using projected_unique [of f fs ds g] by simp
qed

lemma map_as_filter: "map h xs = List.map_filter (\<lambda>x. Some (h x)) xs"
  by (induction xs) (simp_all add: map_filter_simps)

lemma identity_participant:
  assumes "f \<in> set (projected_facts (arrived fs ds))" and "message_content f = Some m"
  shows "fact_id f |\<in>| message_identity_participants (mc_message_id m) (arrived fs ds)"
proof -
  have "f \<in> set (fact_set_facts (from_facts fs))" using assms(1) by (auto simp: projected_facts_def)
  then show ?thesis using assms(2) by (auto simp: message_identity_participants_def fset_of_list_elem)
qed

lemma message_contributions_sound: "sound_contributions (arrived fs ds) (message_projections (arrived fs ds))"
  unfolding message_projections_def map_as_filter
proof (rule sound_mapped [where K = "\<lambda>p. MessageProjection (mc_message_id (snd p))"])
  let ?ctx = "arrived fs ds"
  let ?xs = "filter (\<lambda>(_, message). fcard (message_identity_participants (mc_message_id message) ?ctx) = 1)
    (List.map_filter (\<lambda>f. map_option (Pair f) (message_content f)) (projected_facts ?ctx))"
  fix p q assume "p \<in> set ?xs" "q \<in> set ?xs"
    and key: "MessageProjection (mc_message_id (snd p)) = MessageProjection (mc_message_id (snd q))"
  then obtain f m g n where pq: "p = (f, m)" "q = (g, n)"
    and f: "f \<in> set (projected_facts ?ctx)" "message_content f = Some m"
    and g: "g \<in> set (projected_facts ?ctx)" "message_content g = Some n"
    and one: "fcard (message_identity_participants (mc_message_id m) ?ctx) = 1"
    by (auto simp: set_map_filter)
  obtain i where i: "message_identity_participants (mc_message_id m) ?ctx = {|i|}"
    using one by (auto simp: fcard.rep_eq card_1_singleton_iff fset_inject [symmetric])
  have "fact_id f = i" using identity_participant [OF f] unfolding i by simp
  moreover have "mc_message_id n = mc_message_id m" using key pq by simp
  then have "fact_id g = i" using identity_participant [OF g] i by simp
  ultimately have "f = g" using projected_unique [OF f(1) g(1)] by simp
  then show "p = q" using f g pq by simp
next
  fix p c
  assume "p \<in> set (filter (\<lambda>(_, message). fcard (message_identity_participants (mc_message_id message) (arrived fs ds)) = 1)
      (List.map_filter (\<lambda>f. map_option (Pair f) (message_content f)) (projected_facts (arrived fs ds))))"
    and c: "Some (message_contribution (arrived fs ds) p) = Some c"
  then obtain f m where "p = (f, m)" "f \<in> set (projected_facts (arrived fs ds))" by (auto simp: set_map_filter)
  with c show "pc_key c = MessageProjection (mc_message_id (snd p)) \<and> pc_direct_support c \<noteq> {||} \<and>
      (\<forall>i. i |\<in>| pc_direct_support c \<longrightarrow> is_projected (arrived fs ds) i)"
    by (auto simp: message_contribution_def Let_def ids_where_iff set_projected_facts)
qed

lemma archive_contributions_sound:
  "sound_contributions (arrived fs ds) (conversation_archive_projections (arrived fs ds))"
  unfolding conversation_archive_projections_def
  by (rule sound_grouped_members [where K = ArchiveProjection]) (simp_all add: archive_contribution_def)

lemma action_group_entries:
  assumes stable: "stable_decisions domain fs ds"
    and group: "fmlookup (group_facts correlated (projected_facts (arrived fs ds))) g = Some xs"
  shows "set (ordered_or_default (arrived fs ds) (List.map_filter presentation_entry xs)) = fact_id ` set xs"
    and "canonical_order (ready_entry (entry_map (List.map_filter presentation_entry xs)))
      (\<lambda>v. fset (graph_parents (graph_of (from_facts fs)) v)) (fact_id ` set xs)
      (ordered_or_default (arrived fs ds) (List.map_filter presentation_entry xs))"
proof -
  let ?es = "List.map_filter presentation_entry xs"
  have xs: "xs = filter (\<lambda>f. correlated f = Some g) (projected_facts (arrived fs ds))"
    using group [unfolded fmlookup_group_facts] by blast
  have "\<exists>e. presentation_entry f = Some e \<and> pe_fact_id e = fact_id f" if "f \<in> set xs" for f
  proof -
    have "message_content f \<noteq> None" using that by (auto simp: xs correlated_def bind_eq_Some_conv)
    then obtain e where "presentation_entry f = Some e" using presentation_entry_iff [of f] by auto
    then show ?thesis using presentation_entry_id by blast
  qed
  from map_filter_entries [OF this] have ids: "map pe_fact_id ?es = map fact_id xs" .
  then have "distinct (map pe_fact_id ?es)" by (simp add: xs distinct_map_filter distinct_projected)
  moreover have set: "pe_fact_id ` set ?es = fact_id ` set xs" using ids by (metis set_map)
  moreover have "usable ds (pe_fact_id e)" if "e \<in> set ?es" for e
    using that set group_support(2) [OF group] by (metis (no_types, lifting) image_iff)
  ultimately show "set (ordered_or_default (arrived fs ds) ?es) = fact_id ` set xs"
    and "canonical_order (ready_entry (entry_map ?es)) (\<lambda>v. fset (graph_parents (graph_of (from_facts fs)) v))
      (fact_id ` set xs) (ordered_or_default (arrived fs ds) ?es)"
    using ordered_facts [OF stable, of ?es] by simp_all
qed

lemma action_group_contributions_sound:
  assumes "stable_decisions domain fs ds"
  shows "sound_contributions (arrived fs ds) (action_group_projections (arrived fs ds))"
  unfolding action_group_projections_def
proof (rule sound_grouped_facts [where K = ActionGroupProjection])
  fix g xs assume g: "fmlookup (group_facts correlated (projected_facts (arrived fs ds))) g = Some xs"
  have support: "pc_direct_support (action_group_contribution (arrived fs ds) (g, xs)) = fset_of_list (map fact_id xs)"
    unfolding action_group_contribution_def prod.case Let_def ProjectionContribution.select_convs
      fset_inject [symmetric] fset_of_list.rep_eq set_map
    by (rule action_group_entries(1) [OF assms g])
  then show "fset_of_list (map fact_id xs) |\<subseteq>| pc_direct_support (action_group_contribution (arrived fs ds) (g, xs))"
    by (simp only: order_refl)
  show "i |\<in>| fset_of_list (map fact_id xs) \<or> usable ds i"
    if "i |\<in>| pc_direct_support (action_group_contribution (arrived fs ds) (g, xs))" for i
    using that unfolding support by (rule disjI1)
qed (simp_all add: action_group_contribution_def Let_def)

lemma winner_unique:
  assumes "(key, i) \<in> set (activity_winners (arrived fs ds))" and "(key, j) \<in> set (activity_winners (arrived fs ds))"
    and "ak_kind key \<noteq> CompletedItem"
  shows "i = j"
proof -
  have "\<not> is_completed f" if "activity_key f = Some key" for f
    using that assms(3) by (cases "payload f") (auto simp: activity_key_def is_completed_def activity_kind_def)
  then have "(key, k) \<notin> set (completed_items (arrived fs ds))" for k by (auto simp: completed_item_iff)
  then have "(key, i) \<in> set (coalesced_winners (arrived fs ds))" "(key, j) \<in> set (coalesced_winners (arrived fs ds))"
    using assms(1,2) unfolding activity_winners_parts by auto
  then show ?thesis unfolding coalesced_winner_iff by auto
qed

lemma activity_contribution_shape:
  assumes "(key, i) \<in> set (activity_winners (arrived fs ds))"
    and "activity_contribution (arrived fs ds) (key, i) = Some c"
  shows "pc_key c = (if ak_kind key = CompletedItem then ActivityRecordProjection i else ActivityProjection key)"
    and "pc_direct_support c = (if ak_kind key = CompletedItem then {|i|}
      else ids_where (arrived fs ds) (\<lambda>f. activity_key f = Some key))"
    and "i |\<in>| pc_direct_support c" and "j |\<in>| pc_direct_support c \<Longrightarrow> usable ds j"
proof -
  obtain f where f: "fact_id f = i" "activity_key f = Some key" "fact_set_get (from_facts fs) i = Some f" "usable ds i"
    by (rule winner_fact [OF assms(1)])
  show "pc_key c = (if ak_kind key = CompletedItem then ActivityRecordProjection i else ActivityProjection key)"
    and s: "pc_direct_support c = (if ak_kind key = CompletedItem then {|i|}
      else ids_where (arrived fs ds) (\<lambda>f. activity_key f = Some key))"
    using assms(2) f by (cases "payload f"; auto simp: activity_contribution_def activity_key_def context_fact_def)+
  show "i |\<in>| pc_direct_support c" "j |\<in>| pc_direct_support c \<Longrightarrow> usable ds j"
    unfolding s using f by (auto simp: ids_where_iff split: if_splits)
qed

lemma selected_contributions_sound:
  "sound_contributions (arrived fs ds) (List.map_filter (activity_contribution (arrived fs ds)) (selected_activity (arrived fs ds)))"
proof (rule sound_mapped [where K = "\<lambda>(key, i). if ak_kind key = CompletedItem then ActivityRecordProjection i
    else ActivityProjection key"])
  let ?ctx = "arrived fs ds"
  note within = subsetD [OF selected_winners(1) [of ?ctx]]
  fix p c assume "p \<in> set (selected_activity ?ctx)" and c: "activity_contribution ?ctx p = Some c"
  moreover obtain key i where p: "p = (key, i)" by (cases p)
  ultimately have w: "(key, i) \<in> set (activity_winners ?ctx)" using within by blast
  note shape = activity_contribution_shape [OF w c [unfolded p]]
  show "pc_key c = (case p of (key, i) \<Rightarrow> if ak_kind key = CompletedItem then ActivityRecordProjection i
      else ActivityProjection key) \<and> pc_direct_support c \<noteq> {||} \<and>
      (\<forall>i. i |\<in>| pc_direct_support c \<longrightarrow> is_projected ?ctx i)"
    using shape(1,3,4) p by auto
next
  let ?ctx = "arrived fs ds"
  note within = subsetD [OF selected_winners(1) [of ?ctx]]
  fix p q assume pq: "p \<in> set (selected_activity ?ctx)" "q \<in> set (selected_activity ?ctx)"
    and eq: "(case p of (key, i) \<Rightarrow> if ak_kind key = CompletedItem then ActivityRecordProjection i
        else ActivityProjection key) = (case q of (key, i) \<Rightarrow> if ak_kind key = CompletedItem
        then ActivityRecordProjection i else ActivityProjection key)"
  obtain k i k' j where p: "p = (k, i)" "q = (k', j)" by (cases p; cases q)
  have w: "(k, i) \<in> set (activity_winners ?ctx)" "(k', j) \<in> set (activity_winners ?ctx)" using pq within p by blast+
  have "k = k'" if "i = j" using w unfolding that by (elim winner_fact) simp
  moreover have "i = j" if "k = k'" "ak_kind k \<noteq> CompletedItem" using winner_unique w that by blast
  ultimately show "p = q" using eq unfolding p by (auto split: if_splits)
qed

lemma progress_group:
  assumes "stable_decisions domain fs ds" and "set ids \<subseteq> set (map snd (activity_winners (arrived fs ds)))" and "distinct ids"
  shows "set (presented (arrived fs ds) ids) = set ids" and "distinct (presented (arrived fs ds) ids)"
    and "\<And>i. i \<in> set ids \<Longrightarrow> usable ds i"
proof -
  have winner: "\<exists>key. (key, i) \<in> set (activity_winners (arrived fs ds))" if "i \<in> set ids" for i
    using subsetD [OF assms(2) that] by auto
  have u: "usable ds i" if "i \<in> set ids" for i using winner [OF that] by (blast elim: winner_fact)
  have e: "\<exists>f. fact_set_get (from_facts fs) i = Some f \<and> presentation_entry f \<noteq> None" if i: "i \<in> set ids" for i
  proof -
    obtain key where "(key, i) \<in> set (activity_winners (arrived fs ds))" using winner [OF i] by blast
    then obtain f where "activity_key f = Some key" "fact_set_get (from_facts fs) i = Some f" by (rule winner_fact)
    then show ?thesis using presentation_entry_iff [of f] by auto
  qed
  show "set (presented (arrived fs ds) ids) = set ids" "distinct (presented (arrived fs ds) ids)"
    using presented_facts [OF assms(1,3) u e] by simp_all
  show "\<And>i. i \<in> set ids \<Longrightarrow> usable ds i" by (rule u)
qed

lemma retention_contributions_sound:
  assumes stable: "stable_decisions domain fs ds"
  shows "sound_contributions (arrived fs ds) (map (retention_contribution (arrived fs ds))
    (sorted_list_of_fmap (group_facts (progress_session (arrived fs ds)) (map snd (activity_winners (arrived fs ds))))))"
proof (rule sound_grouped [where K = ActivityRetentionProjection])
  let ?ctx = "arrived fs ds"
  fix g ids assume "fmlookup (group_facts (progress_session ?ctx) (map snd (activity_winners ?ctx))) g = Some ids"
  then have ids: "ids = filter (\<lambda>i. progress_session ?ctx i = Some g) (map snd (activity_winners ?ctx))" "ids \<noteq> []"
    unfolding fmlookup_group_facts by blast+
  have "set ids \<subseteq> set (map snd (activity_winners ?ctx))" "distinct ids"
    unfolding ids(1) by (auto simp only: set_filter intro: distinct_filter distinct_winners)
  note group = progress_group [OF stable this]
  let ?retained = "drop (length (presented ?ctx ids) - PROGRESS_BUDGET) (presented ?ctx ids)"
  have "presented ?ctx ids \<noteq> []" using group(1) ids(2) by auto
  then have "length (presented ?ctx ids) > 0" by simp
  then have "?retained \<noteq> []" by (simp add: PROGRESS_BUDGET_def not_le del: length_greater_0_conv)
  moreover have "usable ds i" if "i \<in> set ?retained" for i using in_set_dropD [OF that] group(1,3) by simp
  ultimately show "pc_key (retention_contribution ?ctx (g, ids)) = ActivityRetentionProjection g \<and>
      pc_direct_support (retention_contribution ?ctx (g, ids)) \<noteq> {||} \<and>
      (\<forall>i. i |\<in>| pc_direct_support (retention_contribution ?ctx (g, ids)) \<longrightarrow> is_projected ?ctx i)"
    by (simp add: retention_contribution_def Let_def fset_of_list_elem fset_inject [symmetric] fset_of_list.rep_eq)
qed simp

lemma conversation_contribution_keys:
  "c \<in> set (thread_projections ctx) \<Longrightarrow> \<exists>g. pc_key c = ThreadProjection g"
  "c \<in> set (message_projections ctx) \<Longrightarrow> \<exists>g. pc_key c = MessageProjection g"
  "c \<in> set (conversation_archive_projections ctx) \<Longrightarrow> \<exists>g. pc_key c = ArchiveProjection g"
  "c \<in> set (action_group_projections ctx) \<Longrightarrow> \<exists>g. pc_key c = ActionGroupProjection g"
  "c \<in> set (List.map_filter (activity_contribution ctx) (selected_activity ctx)) \<Longrightarrow>
     (\<exists>g. pc_key c = ActivityProjection g) \<or> (\<exists>i. pc_key c = ActivityRecordProjection i)"
  "c \<in> set (map (retention_contribution ctx) gs) \<Longrightarrow> \<exists>g. pc_key c = ActivityRetentionProjection g"
  by (auto simp: thread_projections_def set_map_filter thread_contribution_def Let_def message_projections_def
      message_contribution_def conversation_archive_projections_def archive_contribution_def
      action_group_projections_def action_group_contribution_def activity_contribution_def retention_contribution_def
      split: option.splits SemanticPayload.splits)

lemma conversation_contributions_sound:
  assumes "stable_decisions domain fs ds"
  shows "sound_contributions (arrived fs ds) (derive_conversation_projections (arrived fs ds))"
  unfolding derive_conversation_projections_def activity_projections_def
  by (intro sound_append thread_contributions_sound message_contributions_sound archive_contributions_sound
      action_group_contributions_sound [OF assms] selected_contributions_sound retention_contributions_sound [OF assms])
    (auto simp only: set_append Un_iff dest!: conversation_contribution_keys)

lemma conversation_entries:
  fixes fs ds
  defines "ctx \<equiv> arrived fs ds"
  shows "map pe_fact_id (conversation_presentation_entries ctx) =
      map fact_id (filter (\<lambda>f. message_content f \<noteq> None) (projected_facts ctx)) @ map snd (selected_activity ctx)"
    and "distinct (map pe_fact_id (conversation_presentation_entries ctx))"
    and "e \<in> set (conversation_presentation_entries ctx) \<Longrightarrow> usable ds (pe_fact_id e)"
proof -
  let ?messages = "filter (\<lambda>f. message_content f \<noteq> None) (projected_facts ctx)"
  have m: "\<exists>e. presentation_entry f = Some e \<and> pe_fact_id e = fact_id f" if "f \<in> set ?messages" for f
    using that presentation_entry_iff [of f] presentation_entry_id [of f] by auto
  have a: "\<exists>e. (case p of (_, i) \<Rightarrow> Option.bind (context_fact ctx i) presentation_entry) = Some e \<and> pe_fact_id e = snd p"
    and ua: "usable ds (snd p)" and act: "\<exists>f. fact_set_get (from_facts fs) (snd p) = Some f \<and> activity_key f \<noteq> None"
    if p: "p \<in> set (selected_activity ctx)" for p
  proof -
    have "(fst p, snd p) \<in> set (activity_winners (arrived fs ds))"
      using p selected_winners(1) [of ctx] unfolding ctx_def by auto
    then obtain f where f: "fact_id f = snd p" "activity_key f = Some (fst p)"
        "fact_set_get (from_facts fs) (snd p) = Some f" "usable ds (snd p)"
      by (rule winner_fact)
    then show "\<exists>e. (case p of (_, i) \<Rightarrow> Option.bind (context_fact ctx i) presentation_entry) = Some e \<and> pe_fact_id e = snd p"
      using presentation_entry_iff [of f] presentation_entry_id [of f] by (auto simp: ctx_def split_def)
    show "usable ds (snd p)" "\<exists>f. fact_set_get (from_facts fs) (snd p) = Some f \<and> activity_key f \<noteq> None" using f by auto
  qed
  show ids: "map pe_fact_id (conversation_presentation_entries ctx) =
      map fact_id ?messages @ map snd (selected_activity ctx)"
    unfolding conversation_presentation_entries_def map_append
    by (rule arg_cong2 [of _ _ _ _ append]; rule map_filter_entries) (rule m a, assumption)+
  have "set (map fact_id ?messages) \<inter> set (map snd (selected_activity ctx)) = {}"
  proof (rule ccontr)
    assume "set (map fact_id ?messages) \<inter> set (map snd (selected_activity ctx)) \<noteq> {}"
    then obtain f p where "f \<in> set ?messages" "p \<in> set (selected_activity ctx)" "fact_id f = snd p" by auto
    with act [of p] message_not_activity [of f] show False by (auto simp: ctx_def set_projected_facts)
  qed
  moreover have "distinct (map fact_id ?messages)" unfolding ctx_def by (simp add: distinct_map_filter distinct_projected)
  moreover have "distinct (map snd (selected_activity ctx))"
    unfolding ctx_def by (rule selected_winners(2) [OF distinct_winners])
  ultimately show "distinct (map pe_fact_id (conversation_presentation_entries ctx))"
    unfolding ids distinct_append by blast
  assume "e \<in> set (conversation_presentation_entries ctx)"
  then have "pe_fact_id e \<in> set (map fact_id ?messages @ map snd (selected_activity ctx))"
    unfolding ids [symmetric] set_map by (rule imageI)
  then show "usable ds (pe_fact_id e)" using ua by (auto simp: ctx_def set_projected_facts)
qed

lemma conversation_reduction_succeeds:
  assumes "stabilize_decisions (from_facts fs) (graph_of (from_facts fs)) (conversation_reducer policy) = Ok ds"
  shows "\<exists>r. reduce_complete fs (conversation_reducer policy) = Some (Ok r)"
proof (rule reduce_complete_succeeds [OF assms], unfold conversation_reducer_fields)
  have "stable_decisions (conversation_reducer policy) fs ds"
    by (rule stabilize_decisions_fixed [OF assms])
  then show "sound_contributions (arrived fs ds) (derive_conversation_projections (arrived fs ds))"
    by (rule conversation_contributions_sound)
qed (rule conversation_entries)+

end
