(* ===== verification/Conversation_Reports.thy ===== *)
theory Conversation_Reports
  imports Conversation_Reduction
begin

text \<open>
  Properties of complete conversation reduction: who a projected message comes from and goes to,
  how answers pair with questions, what the views of messages, threads and activity say, that
  retained progress is bounded, and that the order of every conversation can be derived.
\<close>

section \<open>Reading a report\<close>

lemma projected_conversation_fact:
  assumes "reduce_complete fs (conversation_reducer policy) = Some (Ok r)"
    and "fact_set_get (rr_facts r) i = Some f" and "usable (rr_decisions r) i"
  shows "fact_id f = i" and "validate_conversation f (report_context r) policy = Ok ()"
    and "f \<in> set (projected_facts (report_context r))"
proof -
  note r = report_context_round [OF assms(1)] reduce_complete_OkD(1) [OF assms(1)]
  from conversation_layer.projected_valid [OF report_stable [OF assms(1)] assms(3)] assms(2)
  show id: "fact_id f = i" and "validate_conversation f (report_context r) policy = Ok ()"
    by (auto simp: r conversation_classify_projected_iff)
  show "f \<in> set (projected_facts (report_context r))"
    using assms(2,3) id by (simp add: r set_projected_facts)
qed

lemma validated_message:
  assumes "validate_conversation f ctx policy = Ok ()" and "message_content f = Some m"
  shows "validate_message_address f m = Ok ()" and "fcard (message_identity_participants (mc_message_id m) ctx) = 1"
  using assms
  by (cases "payload f"; auto simp: validate_conversation_def message_content_def and_then_Ok_iff
      validate_message_identity_def)+

lemma message_scoped: "message_content f = Some m \<Longrightarrow> is_scoped_action f"
  by (cases "payload f") (simp_all add: message_content_def is_scoped_action_def)

lemma identity_participants_iff:
  assumes "reduce_complete fs (conversation_reducer policy) = Some (Ok r)"
  shows "j |\<in>| message_identity_participants k (report_context r) \<longleftrightarrow>
    (\<exists>h n. fact_set_get (rr_facts r) j = Some h \<and> message_content h = Some n \<and> mc_message_id n = k)"
proof -
  let ?s = "from_facts fs"
  have "j |\<in>| message_identity_participants k (report_context r) \<longleftrightarrow>
      (\<exists>h \<in> set (fact_set_facts ?s). \<exists>n. message_content h = Some n \<and> mc_message_id n = k \<and> fact_id h = j)"
    by (fastforce simp: message_identity_participants_def reduce_complete_OkD(1) [OF assms] split: option.splits)
  then show ?thesis
    using fact_set_get_id [OF fact_set_wf_from_facts, of fs j]
    by (auto simp: set_fact_set_facts [OF fact_set_wf_from_facts] reduce_complete_OkD(1) [OF assms])
qed

lemma message_identity_unique:
  assumes run: "reduce_complete fs (conversation_reducer policy) = Some (Ok r)"
    and f: "fact_set_get (rr_facts r) i = Some f" "usable (rr_decisions r) i" "message_content f = Some m"
    and h: "fact_set_get (rr_facts r) j = Some h" "message_content h = Some n" "mc_message_id n = mc_message_id m"
  shows "j = i"
proof -
  let ?P = "message_identity_participants (mc_message_id m) (report_context r)"
  have "fcard ?P = 1" using validated_message(2) [OF projected_conversation_fact(2) [OF run f(1,2)] f(3)] .
  then obtain x where "?P = {|x|}" by (auto simp: fcard.rep_eq card_1_singleton_iff fset_inject [symmetric])
  moreover have "i |\<in>| ?P" "j |\<in>| ?P" using f h unfolding identity_participants_iff [OF run] by blast+
  ultimately show ?thesis by simp
qed

lemma conversation_view_iff:
  assumes "reduce_complete fs (conversation_reducer policy) = Some (Ok r)"
  shows "fmlookup (rr_projections r) k = Some w \<longleftrightarrow>
    (\<exists>c \<in> set (derive_conversation_projections (report_context r)). pc_key c = k \<and> pc_value c = w)"
  using report_view_iff [OF assms] by simp

lemma contribution_part:
  assumes "c \<in> set (derive_conversation_projections ctx)"
  shows "pc_key c = ThreadProjection t \<Longrightarrow> c \<in> set (thread_projections ctx)"
    and "pc_key c = MessageProjection m \<Longrightarrow> c \<in> set (message_projections ctx)"
    and "pc_key c = ActivityProjection k \<or> pc_key c = ActivityRecordProjection i \<Longrightarrow>
      c \<in> set (List.map_filter (activity_contribution ctx) (selected_activity ctx))"
    and "pc_key c = ActivityRetentionProjection s \<Longrightarrow> c \<in> set (map (retention_contribution ctx)
      (sorted_list_of_fmap (group_facts (progress_session ctx) (map snd (activity_winners ctx)))))"
proof -
  define T M A G L R where "T = set (thread_projections ctx)" and "M = set (message_projections ctx)"
    and "A = set (conversation_archive_projections ctx)" and "G = set (action_group_projections ctx)"
    and "L = set (List.map_filter (activity_contribution ctx) (selected_activity ctx))"
    and "R = set (map (retention_contribution ctx)
      (sorted_list_of_fmap (group_facts (progress_session ctx) (map snd (activity_winners ctx)))))"
  note parts = T_def M_def A_def G_def L_def R_def
  have "c \<in> T \<or> c \<in> M \<or> c \<in> A \<or> c \<in> G \<or> c \<in> L \<or> c \<in> R"
    using assms unfolding parts derive_conversation_projections_def activity_projections_def set_append Un_iff .
  note cases = this conversation_contribution_keys [of c ctx, folded T_def M_def A_def G_def L_def]
    conversation_contribution_keys(6) [of c ctx, where gs = "sorted_list_of_fmap (group_facts (progress_session ctx)
      (map snd (activity_winners ctx)))", folded R_def]
  show "pc_key c = ThreadProjection t \<Longrightarrow> c \<in> set (thread_projections ctx)"
    unfolding T_def [symmetric] using cases(1-6,8) by auto
  show "pc_key c = MessageProjection m \<Longrightarrow> c \<in> set (message_projections ctx)"
    unfolding M_def [symmetric] using cases(1-6,8) by auto
  show "pc_key c = ActivityProjection k \<or> pc_key c = ActivityRecordProjection i \<Longrightarrow>
      c \<in> set (List.map_filter (activity_contribution ctx) (selected_activity ctx))"
    unfolding L_def [symmetric] using cases(1-6,8) by auto
  show "pc_key c = ActivityRetentionProjection s \<Longrightarrow> c \<in> set (map (retention_contribution ctx)
      (sorted_list_of_fmap (group_facts (progress_session ctx) (map snd (activity_winners ctx)))))"
    unfolding R_def [symmetric] using cases(1-6,8) by auto
qed

lemma activity_value_part:
  assumes "c \<in> set (derive_conversation_projections ctx)" and "pc_value c = ActivityValue v"
  shows "c \<in> set (List.map_filter (activity_contribution ctx) (selected_activity ctx))"
proof (rule ccontr)
  assume "c \<notin> set (List.map_filter (activity_contribution ctx) (selected_activity ctx))"
  then consider "c \<in> set (thread_projections ctx)" | "c \<in> set (message_projections ctx)"
    | "c \<in> set (conversation_archive_projections ctx)" | "c \<in> set (action_group_projections ctx)"
    | p where "c = retention_contribution ctx p"
    using assms(1) unfolding derive_conversation_projections_def activity_projections_def by auto
  then show False
    using assms(2)
    by cases (auto simp: thread_projections_def set_map_filter thread_contribution_def Let_def message_projections_def
      message_contribution_def conversation_archive_projections_def archive_contribution_def
      action_group_projections_def action_group_contribution_def retention_contribution_def split: prod.splits)
qed

lemma contribution_whole:
  "c \<in> set (thread_projections ctx) \<Longrightarrow> c \<in> set (derive_conversation_projections ctx)"
  "c \<in> set (message_projections ctx) \<Longrightarrow> c \<in> set (derive_conversation_projections ctx)"
  "c \<in> set (activity_projections ctx) \<Longrightarrow> c \<in> set (derive_conversation_projections ctx)"
  by (simp_all add: derive_conversation_projections_def)

lemma retention_view_shape:
  assumes "reduce_complete fs (conversation_reducer policy) = Some (Ok r)"
    and "fmlookup (rr_projections r) (ActivityRetentionProjection s) = Some w"
  obtains ids where "ids = filter (\<lambda>i. progress_session (report_context r) i = Some s)
      (map snd (activity_winners (report_context r)))" and "ids \<noteq> []"
    and "w = pc_value (retention_contribution (report_context r) (s, ids))"
proof -
  let ?ctx = "report_context r"
  obtain c where c: "c \<in> set (derive_conversation_projections ?ctx)" "pc_key c = ActivityRetentionProjection s" "pc_value c = w"
    using assms(2) unfolding conversation_view_iff [OF assms(1)] by blast
  from contribution_part(4) [OF c(1,2)] c(2) obtain ids where
      "fmlookup (group_facts (progress_session ?ctx) (map snd (activity_winners ?ctx))) s = Some ids"
      "c = retention_contribution ?ctx (s, ids)"
    by (auto simp: set_sorted_list_of_fmap retention_contribution_def Let_def)
  then show thesis using that c(3) unfolding fmlookup_group_facts by blast
qed

lemma report_ids_where:
  assumes "reduce_complete fs (conversation_reducer policy) = Some (Ok r)"
  shows "i |\<in>| ids_where (report_context r) P \<longleftrightarrow>
    (\<exists>f. fact_set_get (rr_facts r) i = Some f \<and> usable (rr_decisions r) i \<and> P f)"
  by (simp add: report_context_round [OF assms] reduce_complete_OkD(1) [OF assms] ids_where_iff)

lemma report_context_fact:
  assumes "reduce_complete fs (conversation_reducer policy) = Some (Ok r)"
  shows "context_fact (report_context r) i = fact_set_get (rr_facts r) i"
  by (simp add: context_fact_def)

lemma message_view_shape:
  assumes run: "reduce_complete fs (conversation_reducer policy) = Some (Ok r)"
    and "fmlookup (rr_projections r) (MessageProjection k) = Some w"
  obtains f m where "f \<in> set (projected_facts (report_context r))" and "message_content f = Some m"
    and "mc_message_id m = k" and "w = pc_value (message_contribution (report_context r) (f, m))"
proof -
  obtain c where c: "c \<in> set (derive_conversation_projections (report_context r))" "pc_key c = MessageProjection k"
      "pc_value c = w"
    using assms(2) unfolding conversation_view_iff [OF run] by blast
  from contribution_part(2) [OF c(1,2)] c(2,3) that show thesis
    by (auto simp: message_projections_def set_map_filter message_contribution_def Let_def)
qed

lemma thread_view_shape:
  assumes run: "reduce_complete fs (conversation_reducer policy) = Some (Ok r)"
    and "fmlookup (rr_projections r) (ThreadProjection t) = Some w"
  obtains f m c where "f \<in> set (projected_facts (report_context r))" and "is_question f \<or> is_asynchronous_root f"
    and "fact_id f = t" and "message_content f = Some m" and "thread_id f = t"
    and "thread_contribution (report_context r) f = Some c" and "w = pc_value c"
proof -
  obtain c where c: "c \<in> set (derive_conversation_projections (report_context r))" "pc_key c = ThreadProjection t"
      "pc_value c = w"
    using assms(2) unfolding conversation_view_iff [OF run] by blast
  from contribution_part(1) [OF c(1,2)] obtain f where f: "f \<in> set (projected_facts (report_context r))"
      "is_question f \<or> is_asynchronous_root f" "thread_contribution (report_context r) f = Some c"
    by (auto simp: thread_projections_def set_map_filter)
  obtain m where m: "message_content f = Some m" "thread_id f = t"
    using f(3) c(2) by (auto simp: thread_contribution_def Let_def)
  have "thread_id f = fact_id f" by (rule thread_root(1) [OF f(2)])
  with f m c(3) that show thesis by simp
qed

lemma rejects_message_iff: "rejects_message k s \<longleftrightarrow> is_rejection s \<and> state_target s = Some k"
  by (cases "payload s") (auto simp: rejects_message_def is_rejection_def state_target_def)

lemma archives_iff: "archives_message s \<and> state_target s = Some k \<longleftrightarrow> payload s = MessageArchived k"
  by (cases "payload s") (auto simp: archives_message_def state_target_def)

lemma fmlookup_pairs:
  "fmlookup (fmap_of_list (concat (map (\<lambda>a. map (\<lambda>c. ((a, c), h a c)) cs) as))) (a, c) =
     (if a \<in> set as \<and> c \<in> set cs then Some (h a c) else None)"
proof -
  have "map_of (map (\<lambda>c. ((x, c), h x c)) cs) (a, c) = (if a = x \<and> c \<in> set cs then Some (h a c) else None)" for x
    by (induction cs) auto
  then show ?thesis by (induction as) (auto simp: fmlookup_of_list map_add_def split: option.splits)
qed

lemma answers_presented:
  assumes run: "reduce_complete fs (conversation_reducer policy) = Some (Ok r)"
  shows "distinct (presented (report_context r) (sorted_list_of_fset (ids_where (report_context r) (answers_thread t))))"
    and "set (presented (report_context r) (sorted_list_of_fset (ids_where (report_context r) (answers_thread t)))) =
      fset (ids_where (report_context r) (answers_thread t))"
proof -
  let ?ctx = "arrived fs (rr_decisions r)"
  let ?ids = "sorted_list_of_fset (ids_where ?ctx (answers_thread t))"
  have member: "\<exists>f. fact_set_get (from_facts fs) i = Some f \<and> usable (rr_decisions r) i \<and> answers_thread t f"
    if "i \<in> set ?ids" for i using that by (simp add: ids_where_iff)
  have "presentation_entry f \<noteq> None" if "answers_thread t f" for f
    unfolding presentation_entry_iff using that
    by (cases "payload f") (auto simp: answers_thread_def message_content_def)
  then have entry: "\<exists>f. fact_set_get (from_facts fs) i = Some f \<and> presentation_entry f \<noteq> None" if "i \<in> set ?ids" for i
    using member [OF that] by blast
  have usable: "usable (rr_decisions r) i" if "i \<in> set ?ids" for i using member [OF that] by blast
  note ordered = presented_facts [OF report_stable [OF run] distinct_sorted_list_of_fset usable entry]
  show "distinct (presented (report_context r) (sorted_list_of_fset (ids_where (report_context r) (answers_thread t))))"
    unfolding report_context_round [OF run] by (rule ordered(2))
  show "set (presented (report_context r) (sorted_list_of_fset (ids_where (report_context r) (answers_thread t)))) =
      fset (ids_where (report_context r) (answers_thread t))"
    unfolding report_context_round [OF run] using ordered(1) by simp
qed

text \<open>The projected facts that archive, restore or reject a message.\<close>

abbreviation projected_state :: "ConversationReport \<Rightarrow> MessageId \<Rightarrow> FactId \<Rightarrow> SemanticFact \<Rightarrow> bool" where
  "projected_state r k j s \<equiv>
     fact_set_get (rr_facts r) j = Some s \<and> usable (rr_decisions r) j \<and> state_target s = Some k"

lemma message_view_reading:
  assumes run: "reduce_complete fs (conversation_reducer policy) = Some (Ok r)"
    and view: "fmlookup (rr_projections r) (MessageProjection k) = Some (MessageValue v)"
  shows "\<exists>f. fact_set_get (rr_facts r) (mv_fact_id v) = Some f \<and> usable (rr_decisions r) (mv_fact_id v) \<and>
      message_content f = Some (mv_content v) \<and> mv_thread_id v = thread_id f \<and> mc_message_id (mv_content v) = k"
    and "mv_rejected v \<longleftrightarrow> (\<exists>j s. projected_state r k j s \<and> is_rejection s)"
    and "j |\<in>| mv_state_frontier v \<longleftrightarrow> (\<exists>s. projected_state r k j s) \<and>
      (\<forall>j' s'. projected_state r k j' s' \<and> j' \<noteq> j \<longrightarrow> \<not> usably_reaches (rr_graph r) (rr_decisions r) j j')"
    and "mv_open v \<longleftrightarrow> \<not> mv_rejected v \<and>
      \<not> (\<exists>j s. j |\<in>| mv_state_frontier v \<and> projected_state r k j s \<and> archives_message s)"
proof -
  let ?ctx = "report_context r"
  let ?states = "ids_where ?ctx (\<lambda>s. state_target s = Some k)"
  obtain f m where f: "f \<in> set (projected_facts ?ctx)" "message_content f = Some m" "mc_message_id m = k"
      and v: "MessageValue v = pc_value (message_contribution ?ctx (f, m))"
    by (rule message_view_shape [OF run view])
  have fields: "mv_fact_id v = fact_id f" "mv_content v = m" "mv_thread_id v = thread_id f"
      "mv_rejected v \<longleftrightarrow> fBex ?states (\<lambda>s. case fact_set_get (rr_facts r) s of Some c \<Rightarrow> is_rejection c | None \<Rightarrow> False)"
      "mv_state_frontier v = maximal ?states ?ctx"
      "mv_open v \<longleftrightarrow> \<not> mv_rejected v \<and> \<not> fBex (mv_state_frontier v)
        (\<lambda>s. case fact_set_get (rr_facts r) s of Some c \<Rightarrow> archives_message c | None \<Rightarrow> False)"
    using v f(3) by (simp_all add: message_contribution_def Let_def report_context_fact [OF run])
  note states = report_ids_where [OF run, of _ "\<lambda>s. state_target s = Some k"]
  show "\<exists>f. fact_set_get (rr_facts r) (mv_fact_id v) = Some f \<and> usable (rr_decisions r) (mv_fact_id v) \<and>
      message_content f = Some (mv_content v) \<and> mv_thread_id v = thread_id f \<and> mc_message_id (mv_content v) = k"
    using f by (auto simp: fields(1-3) report_projected_facts [OF run])
  show "mv_rejected v \<longleftrightarrow> (\<exists>j s. projected_state r k j s \<and> is_rejection s)"
    unfolding fields(4) Bex_def states by (auto split: option.splits)
  show frontier: "j |\<in>| mv_state_frontier v \<longleftrightarrow> (\<exists>s. projected_state r k j s) \<and>
      (\<forall>j' s'. projected_state r k j' s' \<and> j' \<noteq> j \<longrightarrow> \<not> usably_reaches (rr_graph r) (rr_decisions r) j j')" for j
    unfolding fields(5) maximal_def ffmember_filter Bex_def states context_usably_reaches_def report_context_simps
    by blast
  show "mv_open v \<longleftrightarrow> \<not> mv_rejected v \<and>
      \<not> (\<exists>j s. j |\<in>| mv_state_frontier v \<and> projected_state r k j s \<and> archives_message s)"
    unfolding fields(6) Bex_def using frontier by (auto split: option.splits)
qed

section \<open>Sample batches\<close>

text \<open>
  Agent mailbox 7 of installation 1 asks the human mailbox 9 a question. It is answered and, at the
  same time, cancelled; the question is archived and the answer rejected.
\<close>

definition sample_message :: "MessageId \<Rightarrow> MailboxId \<Rightarrow> MailboxId \<Rightarrow> MessageContent" where
  "sample_message i sender recipient =
     \<lparr>mc_message_id = i, mc_sender = MailboxAddress 1 sender, mc_recipient = Some (MailboxAddress 1 recipient),
      mc_body = ''text'', mc_purpose = Question, mc_presentation = MessagePresentation, mc_correlation = None,
      mc_project_id = None\<rparr>"

definition sample_thread_facts :: "SemanticFact list" where
  "sample_thread_facts =
    [sample_root,
     sample_local 2 [] (QuestionAsked (sample_message 50 7 9)),
     sample_local 3 [2] (AnswerGiven 2 (sample_message 51 9 7)),
     sample_local 4 [2] (ThreadCancelled 2 None),
     sample_local 5 [2] (MessageArchived 50),
     sample_local 6 [3] (MessageRejected 51 ''late'')]"

lemma sample_thread_run:
  obtains r where "reduce_complete sample_thread_facts (conversation_reducer sample_authority_policy) = Some (Ok r)"
    "list_all (usable (rr_decisions r)) [1, 2, 3, 4, 5, 6]"
proof -
  let ?s = "from_facts sample_thread_facts" and ?domain = "conversation_reducer sample_authority_policy"
  have "(case stabilize_decisions ?s (graph_of ?s) ?domain of
      Inr ds \<Rightarrow> list_all (usable ds) [1, 2, 3, 4, 5, 6] | Inl _ \<Rightarrow> False)"
    by code_simp
  then obtain ds where ds: "stabilize_decisions ?s (graph_of ?s) ?domain = Ok ds"
      "list_all (usable ds) [1, 2, 3, 4, 5, 6]"
    by (auto split: sum.splits)
  obtain r where r: "reduce_complete sample_thread_facts ?domain = Some (Ok r)"
    using conversation_reduction_succeeds [OF ds(1)] by blast
  have "rr_decisions r = ds" using reduce_complete_OkD(3) [OF r] ds(1) by simp
  then show thesis using that [OF r] ds(2) by simp
qed

lemma sample_thread_stored:
  "fact_set_get (from_facts sample_thread_facts) 2 = Some (sample_local 2 [] (QuestionAsked (sample_message 50 7 9)))"
  "fact_set_get (from_facts sample_thread_facts) 3 = Some (sample_local 3 [2] (AnswerGiven 2 (sample_message 51 9 7)))"
  "fact_set_get (from_facts sample_thread_facts) 4 = Some (sample_local 4 [2] (ThreadCancelled 2 None))"
  "fact_set_get (from_facts sample_thread_facts) 5 = Some (sample_local 5 [2] (MessageArchived 50))"
  "fact_set_get (from_facts sample_thread_facts) 6 = Some (sample_local 6 [3] (MessageRejected 51 ''late''))"
  by code_simp+

section \<open>Properties\<close>

text \<open>
  C24. Conversation reduction returns a report for every batch in which no device acceptance
  follows a revocation of the device and no message is restored after its rejection. For every
  other batch it returns a report or the error that its decisions did not settle, and nothing
  else: the projections of threads, messages, archives, action groups and activity never disagree
  on a key, never lack support and never cite a fact that is not projected, and the presentation
  entries never repeat a fact.
\<close>

theorem conversation_reduction_outcome:
  "if orderly_conversations (from_facts fs) \<and> 2 * length fs + 2 < 2 ^ 64
   then \<exists>r. reduce_complete fs (conversation_reducer policy) = Some (Ok r)
   else reduce_complete fs (conversation_reducer policy) = Some (Err NonConvergentDomainDecisions) \<or>
     (\<exists>r. reduce_complete fs (conversation_reducer policy) = Some (Ok r))"
proof (cases "stabilize_decisions (from_facts fs) (graph_of (from_facts fs)) (conversation_reducer policy)")
  case (Inl e)
  have "\<not> (orderly_conversations (from_facts fs) \<and> 2 * length fs + 2 < 2 ^ 64)"
    using ordered_conversations.converges [OF fact_set_wf_from_facts, of fs policy] stored_card [of fs] Inl by fastforce
  then show ?thesis using reduction_fails [OF Inl] by (simp only: if_False simp_thms)
next
  case (Inr ds)
  then show ?thesis using conversation_reduction_succeeds by (metis (full_types))
qed

text \<open>
  C19. A projected message is unique and properly addressed. No other stored fact carries its
  message identity, and it comes from its author's installation. A private message stays within
  the installation. A message to a peer goes to the mailbox it was sent to, under a projected
  grant of that mailbox to its author. A message to an account names a recipient exactly when it
  names a project.
\<close>

theorem projected_message_addressed:
  assumes run: "reduce_complete fs (conversation_reducer policy) = Some (Ok r)"
    and f: "fact_set_get (rr_facts r) i = Some f" "usable (rr_decisions r) i"
    and m: "message_content f = Some m" and wf: "causal_wf (causal f)"
  shows "(\<forall>j h n. fact_set_get (rr_facts r) j = Some h \<and> message_content h = Some n \<and>
        mc_message_id n = mc_message_id m \<longrightarrow> j = i) \<and>
    ma_installation_id (mc_sender m) = author_id f \<and>
    (case scope f of
       InstallationPrivate installation \<Rightarrow> installation = author_id f \<and>
         (\<exists>recipient. mc_recipient m = Some recipient \<and> ma_installation_id recipient = author_id f)
     | PeerAddressed target \<Rightarrow> mc_recipient m = Some target \<and>
         (\<exists>k grant g. fact_set_get (rr_facts r) k = Some grant \<and> usable (rr_decisions r) k \<and>
            payload grant = MailboxAccessGranted g target (author f))
     | AccountAddressed account \<Rightarrow> mc_recipient m = None \<longleftrightarrow> mc_project_id m = None
     | RemoteControl command home \<Rightarrow> False)"
proof -
  have "validate_message_address f m = Ok ()"
    using validated_message(1) [OF projected_conversation_fact(2) [OF run f] m] .
  moreover have "\<exists>k grant g. fact_set_get (rr_facts r) k = Some grant \<and> usable (rr_decisions r) k \<and>
      payload grant = MailboxAccessGranted g target (author f)" if "scope f = PeerAddressed target" for target
    using conversation_layer.peer_action_cites_grant [OF run f message_scoped [OF m] that wf] by blast
  ultimately show ?thesis
    using message_identity_unique [OF run f m]
    by (auto simp: validate_message_address_def split: FactScope.splits option.splits if_splits)
qed

theorem projected_message_addressed_witness:
  "\<exists>r. reduce_complete sample_thread_facts (conversation_reducer sample_authority_policy) = Some (Ok r) \<and>
     usable (rr_decisions r) 2 \<and>
     (\<forall>j h n. fact_set_get (rr_facts r) j = Some h \<and> message_content h = Some n \<and> mc_message_id n = 50 \<longrightarrow> j = 2)"
proof -
  obtain r where r: "reduce_complete sample_thread_facts (conversation_reducer sample_authority_policy) = Some (Ok r)"
    "usable (rr_decisions r) 2" by (rule sample_thread_run) simp
  let ?f = "sample_local 2 [] (QuestionAsked (sample_message 50 7 9))"
  have get: "fact_set_get (rr_facts r) 2 = Some ?f"
    by (simp add: reduce_complete_OkD(1) [OF r(1)] sample_thread_stored)
  have m: "message_content ?f = Some (sample_message 50 7 9)" by (simp add: message_content_def)
  have "causal_wf (causal ?f)" by code_simp
  from projected_message_addressed [OF r(1) get r(2) m this] r show ?thesis
    by (auto simp: sample_message_def)
qed

text \<open>
  C20. A projected answer belongs to its question. It cites the projected question that opens its
  thread; unless the thread is addressed to an account, it goes from the recipient of the question
  to its sender.
\<close>

theorem projected_answer_paired:
  assumes run: "reduce_complete fs (conversation_reducer policy) = Some (Ok r)"
    and f: "fact_set_get (rr_facts r) i = Some f" "usable (rr_decisions r) i"
    and answer: "payload f = AnswerGiven t answer"
  shows "\<exists>root question. fact_set_get (rr_facts r) t = Some root \<and> usable (rr_decisions r) t \<and>
    t |\<in>| fact_parents f \<and> payload root = QuestionAsked question \<and> same_scope (scope root) (scope f) \<and>
    (case scope root of
       AccountAddressed account \<Rightarrow> mc_recipient answer = None
     | _ \<Rightarrow> mc_recipient question = Some (mc_sender answer) \<and> mc_recipient answer = Some (mc_sender question))"
proof -
  note r = report_context_round [OF run] reduce_complete_OkD(1) [OF run]
  have "validate_answer f t answer (report_context r) = Ok ()"
    using projected_conversation_fact(2) [OF run f] by (auto simp: validate_conversation_def answer and_then_Ok_iff)
  then obtain root where root: "question_root t (report_context r) = Some root"
    and ok: "validate_answer f t answer (report_context r) = Ok ()"
    by (auto simp: validate_answer_def and_then_Ok_iff)
  have t: "fact_set_get (rr_facts r) t = Some root" "usable (rr_decisions r) t" "is_question root"
    using root by (simp_all add: r question_root_iff [OF fact_set_wf_from_facts])
  moreover obtain question where "payload root = QuestionAsked question"
    using t(3) by (cases "payload root") (auto simp: is_question_def)
  moreover have "fact_id root = t" using projected_conversation_fact(1) [OF run t(1,2)] .
  ultimately show ?thesis
    using ok root by (auto simp: validate_answer_def and_then_Ok_iff split: if_splits)
qed

theorem projected_answer_paired_witness:
  "\<exists>r root question. reduce_complete sample_thread_facts (conversation_reducer sample_authority_policy) = Some (Ok r) \<and>
     usable (rr_decisions r) 3 \<and> fact_set_get (rr_facts r) 2 = Some root \<and> payload root = QuestionAsked question"
proof -
  obtain r where r: "reduce_complete sample_thread_facts (conversation_reducer sample_authority_policy) = Some (Ok r)"
    "usable (rr_decisions r) 3" by (rule sample_thread_run) simp
  have "fact_set_get (rr_facts r) 3 = Some (sample_local 3 [2] (AnswerGiven 2 (sample_message 51 9 7)))"
    by (simp add: reduce_complete_OkD(1) [OF r(1)] sample_thread_stored)
  from projected_answer_paired [OF r(1) this r(2) sample_local_payload] r show ?thesis by blast
qed

text \<open>
  C9. Rejection of a message is final: no projected restoration of a message causally follows a
  projected rejection of it, and the view of a message with a projected rejection is rejected and
  closed, whatever else happened to the message.
\<close>

theorem rejection_final:
  assumes run: "reduce_complete fs (conversation_reducer policy) = Some (Ok r)"
    and h: "fact_set_get (rr_facts r) j = Some h" "usable (rr_decisions r) j" "payload h = MessageRejected k code"
  shows "(\<forall>i f. fact_set_get (rr_facts r) i = Some f \<and> usable (rr_decisions r) i \<and> payload f = MessageRestored k \<longrightarrow>
        \<not> structurally_reaches (rr_graph r) j i) \<and>
    (\<forall>v. fmlookup (rr_projections r) (MessageProjection k) = Some (MessageValue v) \<longrightarrow> mv_rejected v \<and> \<not> mv_open v)"
proof (intro conjI allI impI; (elim conjE)?)
  fix i f assume f: "fact_set_get (rr_facts r) i = Some f" "usable (rr_decisions r) i" "payload f = MessageRestored k"
  have "\<not> rejected_before f k (report_context r)"
    using projected_conversation_fact(2) [OF run f(1,2)] f(3)
    by (simp add: validate_conversation_def validate_message_state_Ok_iff is_restore_def)
  moreover have "h \<in> set (fact_set_facts (rr_facts r))" "fact_id h = j"
    using h(1) projected_conversation_fact(1) [OF run h(1,2)]
    by (auto simp: reduce_complete_OkD(1) [OF run] set_fact_set_facts [OF fact_set_wf_from_facts])
  ultimately show "\<not> structurally_reaches (rr_graph r) j i"
    using h(2,3) projected_conversation_fact(1) [OF run f(1,2)]
    by (auto simp: rejected_before_def list_ex_iff rejects_message_def)
next
  fix v assume "fmlookup (rr_projections r) (MessageProjection k) = Some (MessageValue v)"
  note reading = message_view_reading [OF run this]
  show "mv_rejected v"
    unfolding reading(2) using h by (intro exI [of _ j] exI [of _ h]) (simp add: state_target_def is_rejection_def)
  then show "\<not> mv_open v" unfolding reading(4) by blast
qed

theorem rejection_final_witness:
  "\<exists>r. reduce_complete sample_thread_facts (conversation_reducer sample_authority_policy) = Some (Ok r) \<and>
     usable (rr_decisions r) 6 \<and>
     (\<forall>v. fmlookup (rr_projections r) (MessageProjection 51) = Some (MessageValue v) \<longrightarrow> mv_rejected v \<and> \<not> mv_open v)"
proof -
  obtain r where r: "reduce_complete sample_thread_facts (conversation_reducer sample_authority_policy) = Some (Ok r)"
    "usable (rr_decisions r) 6" by (rule sample_thread_run) simp
  have "fact_set_get (rr_facts r) 6 = Some (sample_local 6 [3] (MessageRejected 51 ''late''))"
    by (simp add: reduce_complete_OkD(1) [OF r(1)] sample_thread_stored)
  from rejection_final [OF r(1) this r(2) sample_local_payload] r show ?thesis by blast
qed

text \<open>
  C10. Every projected message has a view, and the view tells its state exactly. The message is
  open unless a projected rejection of it exists or some projected archiving of it is followed by
  no other projected state change of the message; the recorded frontier is the set of the state
  changes that no other follows.
\<close>

theorem message_view_exact:
  assumes run: "reduce_complete fs (conversation_reducer policy) = Some (Ok r)"
    and f: "fact_set_get (rr_facts r) i = Some f" "usable (rr_decisions r) i" "message_content f = Some m"
  shows "\<exists>v. fmlookup (rr_projections r) (MessageProjection (mc_message_id m)) = Some (MessageValue v) \<and>
    mv_fact_id v = i \<and> mv_content v = m \<and> mv_thread_id v = thread_id f \<and>
    (\<forall>j. j |\<in>| mv_state_frontier v \<longleftrightarrow> (\<exists>s. projected_state r (mc_message_id m) j s) \<and>
       (\<forall>j' s'. projected_state r (mc_message_id m) j' s' \<and> j' \<noteq> j \<longrightarrow>
          \<not> usably_reaches (rr_graph r) (rr_decisions r) j j')) \<and>
    (mv_open v \<longleftrightarrow>
       \<not> (\<exists>j s. projected_state r (mc_message_id m) j s \<and> is_rejection s) \<and>
       \<not> (\<exists>j s. projected_state r (mc_message_id m) j s \<and> archives_message s \<and>
            (\<forall>j' s'. projected_state r (mc_message_id m) j' s' \<and> j' \<noteq> j \<longrightarrow>
               \<not> usably_reaches (rr_graph r) (rr_decisions r) j j')))"
proof -
  let ?k = "mc_message_id m" and ?ctx = "report_context r"
  note p = projected_conversation_fact [OF run f(1,2)]
  have "message_contribution ?ctx (f, m) \<in> set (message_projections ?ctx)"
    using p(3) f(3) validated_message(2) [OF p(2) f(3)] by (auto simp: message_projections_def set_map_filter)
  moreover obtain v where "pc_value (message_contribution ?ctx (f, m)) = MessageValue v"
    by (simp add: message_contribution_def Let_def)
  moreover have "pc_key (message_contribution ?ctx (f, m)) = MessageProjection ?k"
    by (simp add: message_contribution_def Let_def)
  ultimately have v: "fmlookup (rr_projections r) (MessageProjection ?k) = Some (MessageValue v)"
    unfolding conversation_view_iff [OF run] using contribution_whole(2) by blast
  note reading = message_view_reading [OF run v]
  obtain g where g: "fact_set_get (rr_facts r) (mv_fact_id v) = Some g" "usable (rr_decisions r) (mv_fact_id v)"
      "message_content g = Some (mv_content v)" "mv_thread_id v = thread_id g" "mc_message_id (mv_content v) = ?k"
    using reading(1) by blast
  have i: "mv_fact_id v = i" using message_identity_unique [OF run f g(1,3,5)] .
  then have "g = f" using g(1) f(1) by simp
  then have "mv_content v = m" "mv_thread_id v = thread_id f" using g(3,4) f(3) by simp_all
  moreover have "mv_open v \<longleftrightarrow>
      \<not> (\<exists>j s. projected_state r ?k j s \<and> is_rejection s) \<and>
      \<not> (\<exists>j s. projected_state r ?k j s \<and> archives_message s \<and>
           (\<forall>j' s'. projected_state r ?k j' s' \<and> j' \<noteq> j \<longrightarrow> \<not> usably_reaches (rr_graph r) (rr_decisions r) j j'))"
    unfolding reading(4) reading(2) reading(3) by blast
  ultimately show ?thesis using v i reading(3) by (intro exI [of _ v] conjI allI)
qed

theorem message_view_exact_witness:
  "\<exists>r v. reduce_complete sample_thread_facts (conversation_reducer sample_authority_policy) = Some (Ok r) \<and>
     fmlookup (rr_projections r) (MessageProjection 50) = Some (MessageValue v) \<and> mv_fact_id v = 2"
proof -
  obtain r where r: "reduce_complete sample_thread_facts (conversation_reducer sample_authority_policy) = Some (Ok r)"
    "usable (rr_decisions r) 2" by (rule sample_thread_run) simp
  let ?f = "sample_local 2 [] (QuestionAsked (sample_message 50 7 9))"
  have get: "fact_set_get (rr_facts r) 2 = Some ?f"
    by (simp add: reduce_complete_OkD(1) [OF r(1)] sample_thread_stored)
  have m: "message_content ?f = Some (sample_message 50 7 9)" by (simp add: message_content_def)
  have "mc_message_id (sample_message 50 7 9) = 50" by (simp add: sample_message_def)
  with message_view_exact [OF r(1) get r(2) m] r show ?thesis by auto
qed

text \<open>
  C21. Every projected question or first message of an asynchronous exchange has a thread view, and
  the view is exact: it lists the projected answers and cancellations of the thread, says of every
  pair which of the two the other causally depends on, or that neither does, presents each answer
  once, and is cancelled exactly when a projected cancellation exists.
\<close>

theorem thread_view_exact:
  assumes run: "reduce_complete fs (conversation_reducer policy) = Some (Ok r)"
    and f: "fact_set_get (rr_facts r) t = Some f" "usable (rr_decisions r) t" "is_question f \<or> is_asynchronous_root f"
  shows "\<exists>v. fmlookup (rr_projections r) (ThreadProjection t) = Some (ThreadValue v) \<and> tv_root_fact v = t \<and>
    (\<forall>a. a |\<in>| tv_answers v \<longleftrightarrow>
       (\<exists>g. fact_set_get (rr_facts r) a = Some g \<and> usable (rr_decisions r) a \<and> answers_thread t g)) \<and>
    (\<forall>c. c |\<in>| tv_cancellations v \<longleftrightarrow>
       (\<exists>g. fact_set_get (rr_facts r) c = Some g \<and> usable (rr_decisions r) c \<and> cancels_thread t g)) \<and>
    (\<forall>a c. fmlookup (tv_relations v) (a, c) =
       (if a |\<in>| tv_answers v \<and> c |\<in>| tv_cancellations v
        then Some (if usably_reaches (rr_graph r) (rr_decisions r) a c then Before
          else if usably_reaches (rr_graph r) (rr_decisions r) c a then After else Concurrent)
        else None)) \<and>
    distinct (tv_ready_answers v) \<and> set (tv_ready_answers v) = fset (tv_answers v) \<and>
    (tv_cancelled v \<longleftrightarrow> tv_cancellations v \<noteq> {||})"
proof -
  let ?ctx = "report_context r"
  note p = projected_conversation_fact [OF run f(1,2)]
  have m: "message_content f \<noteq> None" "thread_id f = t" using thread_root [OF f(3)] p(1) by simp_all
  then obtain c v where c: "thread_contribution ?ctx f = Some c" "pc_key c = ThreadProjection t" "pc_value c = ThreadValue v"
      and v: "tv_root_fact v = t" "tv_answers v = ids_where ?ctx (answers_thread t)"
        "tv_cancellations v = ids_where ?ctx (cancels_thread t)"
        "tv_ready_answers v = presented ?ctx (sorted_list_of_fset (tv_answers v))"
        "tv_cancelled v \<longleftrightarrow> tv_cancellations v \<noteq> {||}"
        "tv_relations v = fmap_of_list (concat (map (\<lambda>answer. map (\<lambda>cancel. ((answer, cancel), causal_relation ?ctx answer cancel))
          (sorted_list_of_fset (tv_cancellations v))) (sorted_list_of_fset (tv_answers v))))"
    using p(1) by (auto simp: thread_contribution_def Let_def)
  have "c \<in> set (thread_projections ?ctx)" using p(3) f(3) c(1) by (auto simp: thread_projections_def set_map_filter)
  then have "fmlookup (rr_projections r) (ThreadProjection t) = Some (ThreadValue v)"
    unfolding conversation_view_iff [OF run] using contribution_whole(1) c(2,3) by blast
  moreover have "fmlookup (tv_relations v) (a, c) =
       (if a |\<in>| tv_answers v \<and> c |\<in>| tv_cancellations v
        then Some (if usably_reaches (rr_graph r) (rr_decisions r) a c then Before
          else if usably_reaches (rr_graph r) (rr_decisions r) c a then After else Concurrent)
        else None)" for a c
    unfolding v(6) fmlookup_pairs causal_relation_def context_usably_reaches_def by simp
  moreover note answers = answers_presented [OF run, of t, folded v(2)]
  ultimately show ?thesis
    using v(1,5) answers
    by (intro exI [of _ v] conjI allI) (simp_all add: v(2-4) report_ids_where [OF run] del: fmlookup_of_list)
qed


theorem thread_view_exact_witness:
  "\<exists>r v. reduce_complete sample_thread_facts (conversation_reducer sample_authority_policy) = Some (Ok r) \<and>
     fmlookup (rr_projections r) (ThreadProjection 2) = Some (ThreadValue v) \<and> 3 |\<in>| tv_answers v \<and> 4 |\<in>| tv_cancellations v"
proof -
  obtain r where r: "reduce_complete sample_thread_facts (conversation_reducer sample_authority_policy) = Some (Ok r)"
    "usable (rr_decisions r) 2" "usable (rr_decisions r) 3" "usable (rr_decisions r) 4"
    by (rule sample_thread_run) simp
  note get = sample_thread_stored [folded reduce_complete_OkD(1) [OF r(1)]]
  have "is_question (sample_local 2 [] (QuestionAsked (sample_message 50 7 9)))"
    "answers_thread 2 (sample_local 3 [2] (AnswerGiven 2 (sample_message 51 9 7)))"
    "cancels_thread 2 (sample_local 4 [2] (ThreadCancelled 2 None))"
    by (simp_all add: is_question_def answers_thread_def cancels_thread_def)
  with thread_view_exact [OF r(1) get(1) r(2)] r get(2,3) show ?thesis by blast
qed

end
