(* ===== verification/Conversation_Activity.thy ===== *)
theory Conversation_Activity
  imports Conversation_Reports
begin

text \<open>
  Properties of provider activity in a conversation report: every snapshot key shows its latest
  fact, and the progress shown of a session is bounded and is the end of its presentation order.
\<close>

section \<open>The progress budget\<close>

text \<open>The progress winners of a session in identity order, and those that the budget keeps.\<close>

definition session_progress :: "'r ReductionContext \<Rightarrow> ActivitySessionKey \<Rightarrow> FactId list" where
  "session_progress ctx s = filter (\<lambda>i. progress_session ctx i = Some s) (map snd (activity_winners ctx))"

definition kept_progress :: "'r ReductionContext \<Rightarrow> ActivitySessionKey \<Rightarrow> FactId list" where
  "kept_progress ctx s =
     (let ordered = presented ctx (session_progress ctx s) in drop (length ordered - PROGRESS_BUDGET) ordered)"

lemma session_progress_ordered:
  assumes "stable_decisions domain fs ds"
  shows "set (presented (arrived fs ds) (session_progress (arrived fs ds) s)) = set (session_progress (arrived fs ds) s)"
    and "distinct (presented (arrived fs ds) (session_progress (arrived fs ds) s))"
    and "length (presented (arrived fs ds) (session_progress (arrived fs ds) s)) = length (session_progress (arrived fs ds) s)"
proof -
  let ?ids = "session_progress (arrived fs ds) s"
  have ids: "set ?ids \<subseteq> set (map snd (activity_winners (arrived fs ds)))" "distinct ?ids"
    unfolding session_progress_def by (auto simp only: set_filter intro: distinct_filter distinct_winners)
  note group = progress_group [OF assms ids]
  show "set (presented (arrived fs ds) ?ids) = set ?ids" "distinct (presented (arrived fs ds) ?ids)" by (rule group)+
  then show "length (presented (arrived fs ds) ?ids) = length ?ids"
    using ids(2) by (metis distinct_card)
qed

lemma enumerated_progress:
  "map (snd \<circ> snd) (filter (\<lambda>(_, _, i). progress_session ctx i = Some s) (enumerate 0 (activity_winners ctx))) =
     session_progress ctx s"
proof -
  have "map (snd \<circ> snd) (filter (\<lambda>(_, _, i). P i) xs) = filter P (map (snd \<circ> snd) xs)" for P and xs :: "(nat \<times> ActivityKey \<times> FactId) list"
    by (induction xs) auto
  moreover have "map (snd \<circ> snd) (enumerate 0 (activity_winners ctx)) = map snd (activity_winners ctx)"
    by (metis map_map map_snd_enumerate)
  ultimately show ?thesis by (simp add: session_progress_def)
qed

lemma set_take_rev: "set (take n (rev xs)) = set (drop (length xs - n) xs)"
  by (simp add: take_rev)

lemma over_budget_iff:
  assumes stable: "stable_decisions domain fs ds"
    and indexed: "indexed = filter (\<lambda>(_, _, i). progress_session (arrived fs ds) i = Some s)
      (enumerate 0 (activity_winners (arrived fs ds)))"
  shows "n \<in> set (over_budget (arrived fs ds) indexed) \<longleftrightarrow>
    (\<exists>key i. (n, key, i) \<in> set indexed \<and> i \<notin> set (kept_progress (arrived fs ds) s))"
proof -
  let ?ctx = "arrived fs ds"
  have ids: "map (snd \<circ> snd) indexed = session_progress ?ctx s" unfolding indexed by (rule enumerated_progress)
  note ordered = session_progress_ordered [OF stable, of s]
  show ?thesis
  proof (cases "length indexed \<le> PROGRESS_BUDGET")
    case True
    have "length (session_progress ?ctx s) = length indexed" using ids by (metis length_map)
    then have "set (kept_progress ?ctx s) = set (session_progress ?ctx s)"
      using True ordered by (simp add: kept_progress_def)
    moreover have "i \<in> set (session_progress ?ctx s)" if "(n, key, i) \<in> set indexed" for key i
      unfolding ids [symmetric] using that by force
    ultimately show ?thesis using True by (auto simp: over_budget_def)
  next
    case False
    then have "over_budget ?ctx indexed = map fst (filter (\<lambda>(_, _, i). i \<notin> set (kept_progress ?ctx s)) indexed)"
      by (simp add: over_budget_def ids set_take_rev kept_progress_def Let_def)
    then show ?thesis by force
  qed
qed

lemma in_kept_entries: "x \<in> set (map snd (filter (\<lambda>(n, _). n \<notin> R) xs)) \<longleftrightarrow> (\<exists>n. (n, x) \<in> set xs \<and> n \<notin> R)"
  by force

lemma enumerated_iff: "(\<exists>n. (n, x) \<in> set (enumerate m xs)) \<longleftrightarrow> x \<in> set xs"
  by (induction xs arbitrary: m) (simp, fastforce)

lemma selected_activity_iff:
  assumes stable: "stable_decisions domain fs ds"
  shows "(key, i) \<in> set (selected_activity (arrived fs ds)) \<longleftrightarrow>
    (key, i) \<in> set (activity_winners (arrived fs ds)) \<and>
    (\<forall>s. progress_session (arrived fs ds) i = Some s \<longrightarrow> i \<in> set (kept_progress (arrived fs ds) s))"
proof -
  let ?ctx = "arrived fs ds" and ?all = "enumerate 0 (activity_winners (arrived fs ds))"
  let ?groups = "group_facts (\<lambda>(_, _, i). progress_session ?ctx i) ?all"
  let ?remove = "concat (map (\<lambda>(_, indexed). over_budget ?ctx indexed) (sorted_list_of_fmap ?groups))"
  have removed: "n \<in> set ?remove \<longleftrightarrow> (\<exists>s. progress_session ?ctx j = Some s \<and> j \<notin> set (kept_progress ?ctx s))"
    if entry: "(n, k, j) \<in> set ?all" for n k j
  proof -
    have same: "k' = k \<and> j' = j" if "(n, k', j') \<in> set ?all" for k' j'
      using that entry by (auto simp: in_set_enumerate_eq)
    have "n \<in> set ?remove \<longleftrightarrow> (\<exists>s indexed. fmlookup ?groups s = Some indexed \<and> n \<in> set (over_budget ?ctx indexed))"
      by (force simp: set_sorted_list_of_fmap)
    also have "\<dots> \<longleftrightarrow> (\<exists>s. n \<in> set (over_budget ?ctx (filter (\<lambda>(_, _, i). progress_session ?ctx i = Some s) ?all)))"
    proof -
      have "filter (\<lambda>e. (case e of (_, _, i) \<Rightarrow> progress_session ?ctx i) = Some s) ?all =
          filter (\<lambda>(_, _, i). progress_session ?ctx i = Some s) ?all" for s
        by (rule filter_cong) auto
      moreover have "set (over_budget ?ctx []) = {}" by (simp add: over_budget_def)
      ultimately show ?thesis unfolding fmlookup_group_facts by (metis empty_iff)
    qed
    also have "\<dots> \<longleftrightarrow> (\<exists>s k j. (n, k, j) \<in> set (filter (\<lambda>(_, _, i). progress_session ?ctx i = Some s) ?all) \<and>
        j \<notin> set (kept_progress ?ctx s))"
      unfolding over_budget_iff [OF stable refl] ..
    also have "\<dots> \<longleftrightarrow> (\<exists>s. progress_session ?ctx j = Some s \<and> j \<notin> set (kept_progress ?ctx s))"
      unfolding set_filter mem_Collect_eq prod.case using same entry by metis
    finally show ?thesis .
  qed
  have "(key, i) \<in> set (selected_activity ?ctx) \<longleftrightarrow> (\<exists>n. (n, key, i) \<in> set ?all \<and> n \<notin> set ?remove)"
    unfolding selected_activity_def Let_def by (rule in_kept_entries)
  also have "\<dots> \<longleftrightarrow> (\<exists>n. (n, key, i) \<in> set ?all) \<and>
      (\<forall>s. progress_session ?ctx i = Some s \<longrightarrow> i \<in> set (kept_progress ?ctx s))"
    using removed by blast
  also have "(\<exists>n. (n, key, i) \<in> set ?all) \<longleftrightarrow> (key, i) \<in> set (activity_winners ?ctx)"
    by (rule enumerated_iff)
  finally show ?thesis .
qed

section \<open>Activity views\<close>

definition session_of :: "ActivityView \<Rightarrow> ActivitySessionKey" where
  "session_of v = ActivitySessionKey (acv_source v) (correlation_provider (acv_correlation v))
     (correlation_session (acv_correlation v))"

lemma winner_view:
  assumes "(key, i) \<in> set (activity_winners (arrived fs ds))"
  obtains f c v where "fact_set_get (from_facts fs) i = Some f" and "activity_key f = Some key"
    and "activity_contribution (arrived fs ds) (key, i) = Some c" and "pc_value c = ActivityValue v"
    and "acv_fact_id v = i" and "acv_kind v = ak_kind key" and "acv_sequence v = sequence_of f"
    and "progress_session (arrived fs ds) i = (if acv_kind v = Progress then Some (session_of v) else None)"
proof -
  obtain f where f: "fact_id f = i" "activity_key f = Some key" "fact_set_get (from_facts fs) i = Some f"
    by (rule winner_fact [OF assms])
  then obtain project source correlation item kind logical_key runtime sequence occurred_at status content truncated
      completed where "payload f = HarnessActivityRecorded project source correlation item kind logical_key runtime
        sequence occurred_at status content truncated completed"
    by (cases "payload f") (simp_all add: activity_key_def)
  with f have "\<exists>c v. activity_contribution (arrived fs ds) (key, i) = Some c \<and> pc_value c = ActivityValue v \<and>
      acv_fact_id v = i \<and> acv_kind v = ak_kind key \<and> acv_sequence v = sequence_of f \<and>
      progress_session (arrived fs ds) i = (if acv_kind v = Progress then Some (session_of v) else None)"
    by (auto simp: activity_contribution_def context_fact_def activity_key_def sequence_of_def activity_sequence_def
        progress_session_def is_progress_def activity_kind_def activity_session_key_def session_of_def)
  with f that show thesis by blast
qed

lemma activity_view_winner:
  assumes run: "reduce_complete fs (conversation_reducer policy) = Some (Ok r)"
    and view: "fmlookup (rr_projections r) (ActivityProjection key) = Some w"
  obtains i c where "(key, i) \<in> set (selected_activity (report_context r))" and "ak_kind key \<noteq> CompletedItem"
    and "activity_contribution (report_context r) (key, i) = Some c" and "pc_value c = w"
proof -
  note r = report_context_round [OF run]
  obtain c where c: "c \<in> set (derive_conversation_projections (report_context r))" "pc_key c = ActivityProjection key"
      "pc_value c = w"
    using view unfolding conversation_view_iff [OF run] by blast
  have "c \<in> set (List.map_filter (activity_contribution (report_context r)) (selected_activity (report_context r)))"
    using contribution_part(3) [OF c(1)] c(2) by blast
  then obtain k i where ki: "(k, i) \<in> set (selected_activity (report_context r))"
      "activity_contribution (report_context r) (k, i) = Some c"
    by (auto simp: set_map_filter)
  have "(k, i) \<in> set (activity_winners (report_context r))" using ki(1) selected_winners(1) by blast
  from activity_contribution_shape(1) [OF this [unfolded r] ki(2) [unfolded r]] c(2)
  have "k = key" "ak_kind key \<noteq> CompletedItem" by (auto split: if_splits)
  with ki c(3) that show thesis by blast
qed

lemma winner_greatest:
  assumes "(key, i) \<in> set (activity_winners (arrived fs ds))" and "ak_kind key \<noteq> CompletedItem"
    and "fact_set_get (from_facts fs) i = Some f"
    and "g \<in> set (projected_facts (arrived fs ds))" and "activity_key g = Some key"
  shows "sequence_of g \<le> sequence_of f"
proof -
  let ?same = "filter (\<lambda>f. coalesced_key f = Some key) (projected_facts (arrived fs ds))"
  have open_key: "\<not> is_completed h" if "activity_key h = Some key" for h
    using that assms(2) by (cases "payload h") (auto simp: activity_key_def is_completed_def activity_kind_def)
  then have "(key, i) \<in> set (coalesced_winners (arrived fs ds))"
    using assms(1) unfolding activity_winners_parts by (auto simp: completed_item_iff)
  then obtain h where h: "last_max sequence_of ?same = Some h" "fact_id h = i" unfolding coalesced_winner_iff by blast
  have "h \<in> set (projected_facts (arrived fs ds))" using last_max_in [OF h(1)] by simp
  then have "h = f" using h(2) assms(3) by (simp add: set_projected_facts)
  moreover have "g \<in> set ?same" using assms(4,5) open_key by (simp add: coalesced_key_def)
  ultimately show ?thesis using last_max_greatest [OF h(1)] by simp
qed

lemma kept_progress_iff:
  assumes run: "reduce_complete fs (conversation_reducer policy) = Some (Ok r)"
  shows "i \<in> set (kept_progress (report_context r) s) \<longleftrightarrow>
    (\<exists>key v. fmlookup (rr_projections r) (ActivityProjection key) = Some (ActivityValue v) \<and> acv_fact_id v = i \<and>
       acv_kind v = Progress \<and> session_of v = s)"
proof -
  let ?ctx = "report_context r"
  note r = report_context_round [OF run]
  note selected = selected_activity_iff [OF report_stable [OF run], folded r]
  have within: "set (kept_progress ?ctx s) \<subseteq> set (session_progress ?ctx s)"
    using session_progress_ordered(1) [OF report_stable [OF run], of s, folded r] set_drop_subset
    unfolding kept_progress_def Let_def by metis
  show ?thesis
  proof
    assume i: "i \<in> set (kept_progress ?ctx s)"
    then obtain key where key: "(key, i) \<in> set (activity_winners ?ctx)" "progress_session ?ctx i = Some s"
      using within by (auto simp: session_progress_def)
    then have sel: "(key, i) \<in> set (selected_activity ?ctx)" using i unfolding selected by simp
    obtain c v where c: "activity_contribution ?ctx (key, i) = Some c" "pc_value c = ActivityValue v"
        "acv_fact_id v = i" "acv_kind v = ak_kind key"
        "progress_session ?ctx i = (if acv_kind v = Progress then Some (session_of v) else None)"
      by (rule winner_view [OF key(1) [unfolded r], folded r])
    with key(2) have v: "acv_kind v = Progress" "session_of v = s" by (auto split: if_splits)
    then have "pc_key c = ActivityProjection key"
      using activity_contribution_shape(1) [OF key(1) [unfolded r] c(1) [unfolded r]] c(4) by simp
    moreover have "c \<in> set (activity_projections ?ctx)"
      unfolding activity_projections_def set_append using sel c(1) by (force simp: set_map_filter)
    ultimately have "fmlookup (rr_projections r) (ActivityProjection key) = Some (ActivityValue v)"
      unfolding conversation_view_iff [OF run] using contribution_whole(3) c(2) by blast
    with c(3) v show "\<exists>key v. fmlookup (rr_projections r) (ActivityProjection key) = Some (ActivityValue v) \<and>
        acv_fact_id v = i \<and> acv_kind v = Progress \<and> session_of v = s" by blast
  next
    assume "\<exists>key v. fmlookup (rr_projections r) (ActivityProjection key) = Some (ActivityValue v) \<and> acv_fact_id v = i \<and>
       acv_kind v = Progress \<and> session_of v = s"
    then obtain key v where v: "fmlookup (rr_projections r) (ActivityProjection key) = Some (ActivityValue v)"
        "acv_fact_id v = i" "acv_kind v = Progress" "session_of v = s" by blast
    obtain j c where j: "(key, j) \<in> set (selected_activity ?ctx)" "activity_contribution ?ctx (key, j) = Some c"
        "pc_value c = ActivityValue v"
      by (rule activity_view_winner [OF run v(1)])
    have win: "(key, j) \<in> set (activity_winners (arrived fs (rr_decisions r)))"
      using j(1) selected_winners(1) unfolding r by blast
    have "acv_fact_id v = j" "progress_session ?ctx j = Some s"
      by (rule winner_view [OF win]; use j(2,3) v(3,4) in \<open>simp add: r\<close>)+
    then show "i \<in> set (kept_progress ?ctx s)" using j(1) v(2) unfolding selected by simp
  qed
qed

section \<open>Sample batch\<close>

text \<open>Agent mailbox 7 of installation 1 reports progress twice under one key.\<close>

definition sample_session :: ActivitySessionKey where
  "sample_session = ActivitySessionKey (MailboxAddress 1 7) ''codex'' ''s1''"

definition sample_progress :: "nat \<Rightarrow> SemanticPayload" where
  "sample_progress sequence =
     HarnessActivityRecorded None (MailboxAddress 1 7) (OperationCorrelation ''codex'' ''s1'' 30) None Progress ''step'' ''run''
       sequence 0 Running ''working'' False None"

definition sample_progress_facts :: "SemanticFact list" where
  "sample_progress_facts =
    [sample_root,
     sample_local 2 [] (MailboxCreated 7 AgentMailbox None),
     sample_local 3 [2] (sample_progress 1),
     sample_local 4 [3] (sample_progress 2)]"

lemma sample_progress_run:
  obtains r w v where "reduce_complete sample_progress_facts (conversation_reducer sample_authority_policy) = Some (Ok r)"
    "fmlookup (rr_projections r) (ActivityRetentionProjection sample_session) = Some (ActivityRetentionValue w)"
    "fmlookup (rr_projections r) (ActivityProjection (ActivityKey (MailboxAddress 1 7)
       (OperationCorrelation ''codex'' ''s1'' 30) None Progress ''step'' ''run'')) = Some (ActivityValue v)"
    "list_all (usable (rr_decisions r)) [1, 2, 3, 4]"
proof -
  let ?s = "from_facts sample_progress_facts" and ?domain = "conversation_reducer sample_authority_policy"
  let ?key = "ActivityKey (MailboxAddress 1 7) (OperationCorrelation ''codex'' ''s1'' 30) None Progress ''step'' ''run''"
  have "(case stabilize_decisions ?s (graph_of ?s) ?domain of
      Inr ds \<Rightarrow> list_all (usable ds) [1, 2, 3, 4] \<and>
        (case activity_projections (round_context ?s ds) of
           [a, b] \<Rightarrow> pc_key a = ActivityProjection ?key \<and> pc_key b = ActivityRetentionProjection sample_session \<and>
             (case pc_value a of ActivityValue _ \<Rightarrow> True | _ \<Rightarrow> False) \<and>
             (case pc_value b of ActivityRetentionValue _ \<Rightarrow> True | _ \<Rightarrow> False)
         | _ \<Rightarrow> False)
    | Inl _ \<Rightarrow> False)"
    by code_simp
  then obtain ds a b where ds: "stabilize_decisions ?s (graph_of ?s) ?domain = Ok ds"
      "list_all (usable ds) [1, 2, 3, 4]" and ab: "activity_projections (round_context ?s ds) = [a, b]"
      "pc_key a = ActivityProjection ?key" "pc_key b = ActivityRetentionProjection sample_session"
      "case pc_value a of ActivityValue _ \<Rightarrow> True | _ \<Rightarrow> False"
      "case pc_value b of ActivityRetentionValue _ \<Rightarrow> True | _ \<Rightarrow> False"
    by (auto split: sum.splits list.splits)
  obtain v w where vw: "pc_value a = ActivityValue v" "pc_value b = ActivityRetentionValue w"
    using ab(4,5) by (cases "pc_value a"; cases "pc_value b") auto
  obtain r where r: "reduce_complete sample_progress_facts ?domain = Some (Ok r)"
    using conversation_reduction_succeeds [OF ds(1)] by blast
  have d: "rr_decisions r = ds" using reduce_complete_OkD(3) [OF r] ds(1) by simp
  have "a \<in> set (activity_projections (report_context r))" "b \<in> set (activity_projections (report_context r))"
    by (simp_all add: report_context_round [OF r] d ab(1))
  then have "fmlookup (rr_projections r) (pc_key a) = Some (pc_value a)"
    "fmlookup (rr_projections r) (pc_key b) = Some (pc_value b)"
    unfolding conversation_view_iff [OF r] using contribution_whole(3) by blast+
  then show thesis using that [OF r] ab(2,3) vw ds(2) d by simp
qed

section \<open>Properties\<close>

text \<open>
  C22. The view of an activity key shows the latest activity: it belongs to a projected fact with
  that key, and no projected fact with the key has a greater sequence number.
\<close>

theorem activity_view_latest:
  assumes run: "reduce_complete fs (conversation_reducer policy) = Some (Ok r)"
    and view: "fmlookup (rr_projections r) (ActivityProjection key) = Some w"
  shows "\<exists>v f. w = ActivityValue v \<and> fact_set_get (rr_facts r) (acv_fact_id v) = Some f \<and>
    usable (rr_decisions r) (acv_fact_id v) \<and> activity_key f = Some key \<and> acv_sequence v = sequence_of f \<and>
    (\<forall>j g. fact_set_get (rr_facts r) j = Some g \<and> usable (rr_decisions r) j \<and> activity_key g = Some key \<longrightarrow>
       sequence_of g \<le> acv_sequence v)"
proof -
  note r = report_context_round [OF run] reduce_complete_OkD(1) [OF run]
  obtain i c where i: "(key, i) \<in> set (selected_activity (report_context r))" "ak_kind key \<noteq> CompletedItem"
      "activity_contribution (report_context r) (key, i) = Some c" "pc_value c = w"
    by (rule activity_view_winner [OF run view])
  have win: "(key, i) \<in> set (activity_winners (arrived fs (rr_decisions r)))"
    using i(1) selected_winners(1) unfolding r by blast
  obtain f v where f: "fact_set_get (from_facts fs) i = Some f" "activity_key f = Some key"
      "w = ActivityValue v" "acv_fact_id v = i" "acv_sequence v = sequence_of f"
    by (rule winner_view [OF win]) (use i(3,4) in \<open>simp add: r\<close>)
  have "usable (rr_decisions r) i" using winner_fact [OF win] by blast
  moreover have "sequence_of g \<le> sequence_of f"
    if g: "fact_set_get (rr_facts r) j = Some g" "usable (rr_decisions r) j" "activity_key g = Some key" for j g
  proof (rule winner_greatest [OF win i(2) f(1)])
    show "g \<in> set (projected_facts (arrived fs (rr_decisions r)))"
      using projected_conversation_fact(3) [OF run g(1,2)] by (simp add: r)
  qed (rule g(3))
  ultimately show ?thesis using f by (auto simp: r)
qed

theorem activity_view_latest_witness:
  "\<exists>r v. reduce_complete sample_progress_facts (conversation_reducer sample_authority_policy) = Some (Ok r) \<and>
     usable (rr_decisions r) 4 \<and> 2 \<le> acv_sequence v \<and>
     fmlookup (rr_projections r) (ActivityProjection (ActivityKey (MailboxAddress 1 7)
       (OperationCorrelation ''codex'' ''s1'' 30) None Progress ''step'' ''run'')) = Some (ActivityValue v)"
proof -
  obtain r v where r: "reduce_complete sample_progress_facts (conversation_reducer sample_authority_policy) = Some (Ok r)"
    and v: "fmlookup (rr_projections r) (ActivityProjection (ActivityKey (MailboxAddress 1 7)
       (OperationCorrelation ''codex'' ''s1'' 30) None Progress ''step'' ''run'')) = Some (ActivityValue v)"
    and u: "usable (rr_decisions r) 4"
    by (rule sample_progress_run) simp
  have "fact_set_get (from_facts sample_progress_facts) 4 = Some (sample_local 4 [3] (sample_progress 2))" by code_simp
  then have "fact_set_get (rr_facts r) 4 = Some (sample_local 4 [3] (sample_progress 2))"
    by (simp add: reduce_complete_OkD(1) [OF r])
  moreover have "activity_key (sample_local 4 [3] (sample_progress 2)) = Some (ActivityKey (MailboxAddress 1 7)
      (OperationCorrelation ''codex'' ''s1'' 30) None Progress ''step'' ''run'')"
    "sequence_of (sample_local 4 [3] (sample_progress 2)) = 2"
    by (simp_all add: activity_key_def sequence_of_def activity_sequence_def sample_progress_def)
  ultimately show ?thesis using activity_view_latest [OF r v] r v u by fastforce
qed

text \<open>
  C11. The progress shown of a provider session is bounded. Its retention view keeps as many of the
  session's progress activities as exist, but never more than the budget of 200; the kept ones are
  the end of their canonical presentation order; and they are exactly the progress activities of
  the session that have a view of their own.
\<close>

theorem progress_retention_bounded:
  assumes run: "reduce_complete fs (conversation_reducer policy) = Some (Ok r)"
    and view: "fmlookup (rr_projections r) (ActivityRetentionProjection s) = Some (ActivityRetentionValue w)"
  shows "length (rt_retained_progress w) = min 200 (rt_total_progress w) \<and> distinct (rt_retained_progress w) \<and>
    (\<exists>ids earlier. set ids = {i. \<exists>key. (key, i) \<in> set (activity_winners (report_context r)) \<and>
         progress_session (report_context r) i = Some s} \<and>
       presented (report_context r) ids = earlier @ rt_retained_progress w \<and> length ids = rt_total_progress w) \<and>
    set (rt_retained_progress w) =
      {acv_fact_id v | key v. fmlookup (rr_projections r) (ActivityProjection key) = Some (ActivityValue v) \<and>
         acv_kind v = Progress \<and> session_of v = s}"
proof -
  let ?ctx = "report_context r"
  note r = report_context_round [OF run]
  note ordered = session_progress_ordered [OF report_stable [OF run], of s, folded r]
  obtain ids where "ids = session_progress ?ctx s" "ActivityRetentionValue w = pc_value (retention_contribution ?ctx (s, ids))"
    using retention_view_shape [OF run view] unfolding session_progress_def by blast
  then have w: "rt_retained_progress w = kept_progress ?ctx s" "rt_total_progress w = length (session_progress ?ctx s)"
    using ordered(3) by (simp_all add: retention_contribution_def kept_progress_def Let_def)
  let ?order = "presented ?ctx (session_progress ?ctx s)"
  have kept: "kept_progress ?ctx s = drop (length ?order - 200) ?order"
    by (simp add: kept_progress_def Let_def PROGRESS_BUDGET_def)
  have "?order = take (length ?order - 200) ?order @ rt_retained_progress w" by (simp add: w kept)
  moreover have "set (session_progress ?ctx s) = {i. \<exists>key. (key, i) \<in> set (activity_winners ?ctx) \<and> progress_session ?ctx i = Some s}"
    by (force simp: session_progress_def)
  moreover have "length (rt_retained_progress w) = min 200 (rt_total_progress w)" "distinct (rt_retained_progress w)"
    using ordered(2,3) by (simp_all add: w kept)
  moreover have "set (rt_retained_progress w) =
      {acv_fact_id v | key v. fmlookup (rr_projections r) (ActivityProjection key) = Some (ActivityValue v) \<and>
         acv_kind v = Progress \<and> session_of v = s}"
    unfolding w(1) by (intro set_eqI) (simp only: kept_progress_iff [OF run] mem_Collect_eq, blast)
  ultimately show ?thesis
    using w(2) by (intro conjI exI [of _ "session_progress ?ctx s"] exI [of _ "take (length ?order - 200) ?order"]) simp_all
qed

theorem progress_retention_bounded_witness:
  "\<exists>r w. reduce_complete sample_progress_facts (conversation_reducer sample_authority_policy) = Some (Ok r) \<and>
     fmlookup (rr_projections r) (ActivityRetentionProjection sample_session) = Some (ActivityRetentionValue w) \<and>
     length (rt_retained_progress w) = min 200 (rt_total_progress w)"
proof -
  obtain r w where r: "reduce_complete sample_progress_facts (conversation_reducer sample_authority_policy) = Some (Ok r)"
    "fmlookup (rr_projections r) (ActivityRetentionProjection sample_session) = Some (ActivityRetentionValue w)"
    by (rule sample_progress_run)
  then show ?thesis using progress_retention_bounded [OF r] by blast
qed

end
