(* ===== verification/Conversation_Orders.thy ===== *)
theory Conversation_Orders
  imports Conversation_Activity
begin

text \<open>
  The two derivations from a finished conversation report: the order of every conversation exists
  and contains each visible message and activity of the conversation once, and the messages whose
  history is incomplete are reported with exactly the causes that are missing or unusable.
\<close>

section \<open>Entries of a conversation\<close>

text \<open>The projection under which a message or activity fact is shown.\<close>

definition shown_under :: "SemanticFact \<Rightarrow> ConversationProjectionKey option" where
  "shown_under f =
     (case message_content f of
        Some m \<Rightarrow> Some (MessageProjection (mc_message_id m))
      | None \<Rightarrow> map_option (\<lambda>key. if ak_kind key = CompletedItem then ActivityRecordProjection (fact_id f)
          else ActivityProjection key) (activity_key f))"

text \<open>A fact that a report shows in a conversation.\<close>

definition visible_in :: "ConversationReport \<Rightarrow> AuthorityPolicy \<Rightarrow> ConversationId \<Rightarrow> FactId \<Rightarrow> bool" where
  "visible_in r policy c i \<longleftrightarrow>
     (\<exists>k v. fmlookup (rr_projections r) (MessageProjection k) = Some (MessageValue v) \<and> mv_fact_id v = i \<and>
        message_conversation_key v policy = Some c) \<or>
     (\<exists>k v f. fmlookup (rr_projections r) k = Some (ActivityValue v) \<and> acv_fact_id v = i \<and>
        fact_set_get (rr_facts r) i = Some f \<and> activity_conversation f = Some c)"

lemma activity_view_fact:
  assumes run: "reduce_complete fs (conversation_reducer policy) = Some (Ok r)"
    and view: "fmlookup (rr_projections r) k = Some (ActivityValue v)"
  obtains f where "fact_set_get (rr_facts r) (acv_fact_id v) = Some f" and "usable (rr_decisions r) (acv_fact_id v)"
    and "shown_under f = Some k" and "activity_key f \<noteq> None" and "(\<exists>i. k = ActivityRecordProjection i) \<or> (\<exists>key. k = ActivityProjection key)"
proof -
  note r = report_context_round [OF run] reduce_complete_OkD(1) [OF run]
  obtain c where c: "c \<in> set (derive_conversation_projections (report_context r))" "pc_key c = k" "pc_value c = ActivityValue v"
    using view unfolding conversation_view_iff [OF run] by blast
  have "c \<in> set (List.map_filter (activity_contribution (report_context r)) (selected_activity (report_context r)))"
    using activity_value_part [OF c(1,3)] .
  then obtain key i where ki: "(key, i) \<in> set (selected_activity (report_context r))"
      "activity_contribution (report_context r) (key, i) = Some c"
    by (auto simp: set_map_filter)
  have win: "(key, i) \<in> set (activity_winners (arrived fs (rr_decisions r)))"
    using ki(1) selected_winners(1) unfolding r by blast
  obtain f where f: "fact_set_get (from_facts fs) i = Some f" "activity_key f = Some key" "acv_fact_id v = i"
    by (rule winner_view [OF win]) (use ki(2) c(3) in \<open>simp add: r\<close>)
  have "usable (rr_decisions r) i" "fact_id f = i"
    using winner_fact [OF win] fact_set_get_id [OF fact_set_wf_from_facts f(1)] by blast+
  moreover have "message_content f = None" using message_not_activity [of f] f(2) by (cases "message_content f") auto
  moreover have "pc_key c = (if ak_kind key = CompletedItem then ActivityRecordProjection i else ActivityProjection key)"
    by (rule activity_contribution_shape(1) [OF win ki(2) [unfolded r]])
  ultimately show thesis using that [of f] f c(2) by (auto simp: r shown_under_def split: if_splits)
qed

lemma message_view_fact:
  assumes run: "reduce_complete fs (conversation_reducer policy) = Some (Ok r)"
    and view: "fmlookup (rr_projections r) k = Some (MessageValue v)" and "k = MessageProjection m"
  obtains f where "fact_set_get (rr_facts r) (mv_fact_id v) = Some f" and "usable (rr_decisions r) (mv_fact_id v)"
    and "shown_under f = Some k" and "message_content f \<noteq> None"
  using message_view_reading(1) [OF run view [unfolded assms(3)]] that
  by (auto simp: shown_under_def assms(3))

lemma activity_conversation_iff: "activity_conversation f \<noteq> None \<longleftrightarrow> activity_key f \<noteq> None"
  by (cases "payload f") (simp_all add: activity_conversation_def activity_key_def)

lemma conversation_entry_shown:
  assumes run: "reduce_complete fs (conversation_reducer policy) = Some (Ok r)"
    and view: "fmlookup (rr_projections r) k = Some w" and entry: "conversation_entry r policy' (k, w) = Some (c, e)"
  shows "\<exists>f. fact_set_get (rr_facts r) (pe_fact_id e) = Some f \<and> shown_under f = Some k"
    and "usable (rr_decisions r) (pe_fact_id e)" and "visible_in r policy' c (pe_fact_id e)"
proof -
  have get_id: "fact_set_get (rr_facts r) i = Some f \<Longrightarrow> fact_id f = i" for i f
    using fact_set_get_id [OF fact_set_wf_from_facts, of fs i f] by (simp add: reduce_complete_OkD(1) [OF run])
  have "(\<exists>f. fact_set_get (rr_facts r) (pe_fact_id e) = Some f \<and> shown_under f = Some k) \<and>
      usable (rr_decisions r) (pe_fact_id e) \<and> visible_in r policy' c (pe_fact_id e)"
  proof (cases w)
    case (MessageValue v)
    with entry obtain m g where k: "k = MessageProjection m" and c: "message_conversation_key v policy' = Some c"
      and g: "fact_set_get (rr_facts r) (mv_fact_id v) = Some g" "presentation_entry g = Some e"
      by (auto simp: conversation_entry_def bind_eq_Some_conv split: ConversationProjectionKey.splits option.splits)
    then have "pe_fact_id e = mv_fact_id v" using presentation_entry_id [OF g(2)] get_id [OF g(1)] by simp
    then show ?thesis
      using message_view_fact [OF run view [unfolded MessageValue] k] view MessageValue k c
      by (metis visible_in_def)
  next
    case (ActivityValue v)
    with entry obtain g where c: "activity_conversation g = Some c"
      and g: "fact_set_get (rr_facts r) (acv_fact_id v) = Some g" "presentation_entry g = Some e"
      by (auto simp: conversation_entry_def bind_eq_Some_conv split: ConversationProjectionKey.splits option.splits)
    then have "pe_fact_id e = acv_fact_id v" using presentation_entry_id [OF g(2)] get_id [OF g(1)] by simp
    then show ?thesis
      using activity_view_fact [OF run view [unfolded ActivityValue]] view ActivityValue g(1) c
      by (metis visible_in_def)
  qed (use entry in \<open>auto simp: conversation_entry_def split: ConversationProjectionKey.splits\<close>)
  then show "\<exists>f. fact_set_get (rr_facts r) (pe_fact_id e) = Some f \<and> shown_under f = Some k"
    and "usable (rr_decisions r) (pe_fact_id e)" and "visible_in r policy' c (pe_fact_id e)"
    by blast+
qed

lemma visible_has_entry:
  assumes run: "reduce_complete fs (conversation_reducer policy) = Some (Ok r)" and "visible_in r policy' c i"
  obtains k w e where "fmlookup (rr_projections r) k = Some w" and "conversation_entry r policy' (k, w) = Some (c, e)"
    and "pe_fact_id e = i"
proof -
  have get_id: "fact_set_get (rr_facts r) i = Some f \<Longrightarrow> fact_id f = i" for i f
    using fact_set_get_id [OF fact_set_wf_from_facts, of fs i f] by (simp add: reduce_complete_OkD(1) [OF run])
  from assms(2) consider k v where "fmlookup (rr_projections r) (MessageProjection k) = Some (MessageValue v)" "mv_fact_id v = i"
      "message_conversation_key v policy' = Some c"
    | k v f where "fmlookup (rr_projections r) k = Some (ActivityValue v)" "acv_fact_id v = i"
      "fact_set_get (rr_facts r) i = Some f" "activity_conversation f = Some c"
    unfolding visible_in_def by blast
  then show thesis
  proof cases
    case (1 k v)
    obtain f where f: "fact_set_get (rr_facts r) i = Some f" "message_content f \<noteq> None"
      using message_view_fact [OF run 1(1) refl] 1(2) by blast
    then obtain e where e: "presentation_entry f = Some e" using presentation_entry_iff [of f] by blast
    then have "conversation_entry r policy' (MessageProjection k, MessageValue v) = Some (c, e)"
      using 1 f(1) by (simp add: conversation_entry_def)
    then show thesis using that [OF 1(1)] presentation_entry_id [OF e] get_id [OF f(1)] by simp
  next
    case (2 k v f)
    obtain e where e: "presentation_entry f = Some e"
      using presentation_entry_iff [of f] activity_conversation_iff [of f] 2(4) by auto
    have "(\<exists>i. k = ActivityRecordProjection i) \<or> (\<exists>key. k = ActivityProjection key)"
      by (rule activity_view_fact [OF run 2(1)])
    then have "conversation_entry r policy' (k, ActivityValue v) = Some (c, e)"
      using 2(2-4) e by (elim disjE exE) (simp_all add: conversation_entry_def)
    then show thesis using that [OF 2(1)] presentation_entry_id [OF e] get_id [OF 2(3)] by simp
  qed
qed

section \<open>Orders\<close>

lemma collect_orders_Ok:
  assumes "\<And>k es. (k, es) \<in> set gs \<Longrightarrow> canonical_presentation_order graph es = Some (Ok (order es))" and "distinct (map fst gs)"
  shows "\<exists>m. collect_orders graph gs orders = Some (Ok m) \<and>
    (\<forall>k. fmlookup m k = (case map_of gs k of Some es \<Rightarrow> Some (order es) | None \<Rightarrow> fmlookup orders k))"
  using assms
proof (induction gs arbitrary: orders)
  case (Cons g gs)
  obtain k es where g: "g = (k, es)" by (cases g)
  have first: "canonical_presentation_order graph es = Some (Ok (order es))" using Cons.prems(1) [of k es] g by simp
  have "map_of gs k = None" using Cons.prems(2) g by (simp add: map_of_eq_None_iff)
  moreover obtain m where "collect_orders graph gs (fmupd k (order es) orders) = Some (Ok m)"
      "\<forall>j. fmlookup m j = (case map_of gs j of Some es \<Rightarrow> Some (order es) | None \<Rightarrow> fmlookup (fmupd k (order es) orders) j)"
    using Cons.IH [of "fmupd k (order es) orders"] Cons.prems by fastforce
  ultimately show ?case using first g by (auto split: option.splits)
qed simp

lemma conversation_groups:
  fixes r policy'
  defines "found \<equiv> List.map_filter (conversation_entry r policy') (sorted_list_of_fmap (rr_projections r))"
  assumes run: "reduce_complete fs (conversation_reducer policy) = Some (Ok r)"
  shows "distinct (map (pe_fact_id \<circ> snd) found)"
    and "(c, e) \<in> set found \<Longrightarrow> usable (rr_decisions r) (pe_fact_id e)"
    and "(\<exists>e. (c, e) \<in> set found \<and> pe_fact_id e = i) \<longleftrightarrow> visible_in r policy' c i"
proof -
  have found: "(c, e) \<in> set found \<longleftrightarrow>
      (\<exists>k w. fmlookup (rr_projections r) k = Some w \<and> conversation_entry r policy' (k, w) = Some (c, e))" for c e
    by (auto simp: found_def set_map_filter set_sorted_list_of_fmap)
  show "distinct (map (pe_fact_id \<circ> snd) found)"
    unfolding found_def
  proof (rule distinct_map_filter_by [OF distinct_sorted_fmap])
    fix p q assume p: "p \<in> set (sorted_list_of_fmap (rr_projections r))" "conversation_entry r policy' p = Some q"
    obtain k w c e where pq: "p = (k, w)" "q = (c, e)" by (cases p; cases q)
    have "fmlookup (rr_projections r) k = Some w" using p(1) pq by (simp add: set_sorted_list_of_fmap)
    from conversation_entry_shown(1) [OF run this p(2) [unfolded pq]]
    show "Option.bind (fact_set_get (rr_facts r) ((pe_fact_id \<circ> snd) q)) shown_under = Some (fst p)" using pq by auto
  qed
  show "(c, e) \<in> set found \<Longrightarrow> usable (rr_decisions r) (pe_fact_id e)"
    unfolding found using conversation_entry_shown(2) [OF run] by blast
  show "(\<exists>e. (c, e) \<in> set found \<and> pe_fact_id e = i) \<longleftrightarrow> visible_in r policy' c i"
    unfolding found using conversation_entry_shown(3) [OF run] visible_has_entry [OF run, of policy' c i] by metis
qed

lemma conversation_order_exists:
  assumes run: "reduce_complete fs (conversation_reducer policy) = Some (Ok r)"
  shows "\<exists>order. canonical_presentation_order (rr_graph r) (map snd (filter (\<lambda>e. (case e of (c', _) \<Rightarrow> Some c') = Some c)
        (List.map_filter (conversation_entry r policy') (sorted_list_of_fmap (rr_projections r))))) = Some (Ok order) \<and>
      length order = length (filter (\<lambda>e. (case e of (c', _) \<Rightarrow> Some c') = Some c)
        (List.map_filter (conversation_entry r policy') (sorted_list_of_fmap (rr_projections r)))) \<and>
      distinct order \<and> set order = {i. visible_in r policy' c i} \<and>
      (\<forall>i \<in> set order. \<forall>j \<in> set order. i |\<in>| graph_parents (rr_graph r) j \<longrightarrow> precedes order i j)"
proof -
  let ?found = "List.map_filter (conversation_entry r policy') (sorted_list_of_fmap (rr_projections r))"
  let ?es = "map snd (filter (\<lambda>e. (case e of (c', _) \<Rightarrow> Some c') = Some c) ?found)"
  note g = reduce_complete_OkD(2) [OF run] and groups = conversation_groups [OF run, where policy' = policy']
  have dist: "distinct (map pe_fact_id ?es)"
    using groups(1) by (simp add: distinct_map_filter)
  moreover have "usable (rr_decisions r) (pe_fact_id e)" if "e \<in> set ?es" for e using that groups(2) by auto
  ultimately obtain xs where xs: "canonical_presentation_order (graph_of (from_facts fs)) ?es = Some (Ok xs)"
      "distinct xs" "set xs = pe_fact_id ` set ?es"
      "canonical_order (ready_entry (entry_map ?es)) (\<lambda>v. fset (graph_parents (graph_of (from_facts fs)) v))
        (pe_fact_id ` set ?es) xs"
    by (rule usable_presentation [OF report_stable [OF run]])
  have "pe_fact_id ` set ?es = {i. \<exists>e. (c, e) \<in> set ?found \<and> pe_fact_id e = i}" by force
  then have "set xs = {i. visible_in r policy' c i}" unfolding xs(3) groups(3) .
  moreover have "precedes xs i j" if "i \<in> set xs" "j \<in> set xs" "i |\<in>| graph_parents (rr_graph r) j" for i j
    using greedy_prefix_precedes xs(3,4) that unfolding canonical_order_def g by metis
  moreover have "length xs = length ?es"
    using dist xs(2,3) by (metis distinct_card length_map set_map)
  ultimately show ?thesis using xs(1,2) unfolding g length_map by blast
qed

text \<open>
  C12. The order of every conversation can be derived from a report: the derivation always
  succeeds, a conversation has an order exactly when the report shows a fact in it, the order
  contains each fact that the report shows in the conversation once and nothing else, and a fact
  never comes before one of its parents.
\<close>

theorem conversation_orders_exact:
  assumes run: "reduce_complete fs (conversation_reducer policy) = Some (Ok r)"
  shows "\<exists>orders. conversation_orders r policy' = Some (Ok orders) \<and>
    (\<forall>c. case fmlookup orders c of
       None \<Rightarrow> \<not> (\<exists>i. visible_in r policy' c i)
     | Some order \<Rightarrow> distinct order \<and> order \<noteq> [] \<and> set order = {i. visible_in r policy' c i} \<and>
         (\<forall>i \<in> set order. \<forall>j \<in> set order. i |\<in>| graph_parents (rr_graph r) j \<longrightarrow> precedes order i j))"
proof -
  let ?found = "List.map_filter (conversation_entry r policy') (sorted_list_of_fmap (rr_projections r))"
  let ?groups = "fmmap (map snd) (group_facts (\<lambda>(conversation, _). Some conversation) ?found)"
  let ?members = "\<lambda>c. map snd (filter (\<lambda>e. (case e of (c', _) \<Rightarrow> Some c') = Some c) ?found)"
  let ?g = "graph_of (from_facts fs)"
  note g = reduce_complete_OkD(2) [OF run]
  have look: "fmlookup ?groups c = Some es \<longleftrightarrow> es = ?members c \<and> es \<noteq> []" for c es
    by (auto simp: fmlookup_group_facts)
  have ordered: "\<exists>order. canonical_presentation_order (rr_graph r) (?members c) = Some (Ok order) \<and>
      length order = length (filter (\<lambda>e. (case e of (c', _) \<Rightarrow> Some c') = Some c) ?found) \<and> distinct order \<and>
      set order = {i. visible_in r policy' c i} \<and>
      (\<forall>i \<in> set order. \<forall>j \<in> set order. i |\<in>| graph_parents (rr_graph r) j \<longrightarrow> precedes order i j)" for c
    by (rule conversation_order_exists [OF run])
  then obtain order where order: "\<And>c. canonical_presentation_order (rr_graph r) (?members c) = Some (Ok (order c))"
      "\<And>c. distinct (order c)" "\<And>c. set (order c) = {i. visible_in r policy' c i}"
      "\<And>c. length (order c) = length (?members c)"
      "\<And>c i j. i \<in> set (order c) \<Longrightarrow> j \<in> set (order c) \<Longrightarrow> i |\<in>| graph_parents (rr_graph r) j \<Longrightarrow> precedes (order c) i j"
    unfolding length_map by metis
  let ?ok = "\<lambda>es. projr (the (canonical_presentation_order (rr_graph r) es))"
  have "\<exists>m. collect_orders (rr_graph r) (sorted_list_of_fmap ?groups) fmempty = Some (Ok m) \<and>
      (\<forall>c. fmlookup m c = (case map_of (sorted_list_of_fmap ?groups) c of Some es \<Rightarrow> Some (?ok es) | None \<Rightarrow> fmlookup fmempty c))"
  proof (rule collect_orders_Ok)
    fix c es assume "(c, es) \<in> set (sorted_list_of_fmap ?groups)"
    then have "es = ?members c" unfolding set_sorted_list_of_fmap mem_Collect_eq prod.case look by blast
    then show "canonical_presentation_order (rr_graph r) es = Some (Ok (?ok es))" using order(1) [of c] by simp
  qed (rule distinct_sorted_fmap)
  then obtain m where "collect_orders (rr_graph r) (sorted_list_of_fmap ?groups) fmempty = Some (Ok m)"
      "\<And>c. fmlookup m c = (case fmlookup ?groups c of Some es \<Rightarrow> Some (?ok es) | None \<Rightarrow> fmlookup fmempty c)"
    unfolding map_of_sorted_list by blast
  note found = this
  have m: "conversation_orders r policy' = Some (Ok m)" unfolding conversation_orders_def Let_def by (rule found(1))
  have at: "fmlookup m c = map_option ?ok (fmlookup ?groups c)" for c
    using found(2) [of c] by (cases "fmlookup ?groups c") (simp_all del: fmlookup_map)
  have "case fmlookup m c of
       None \<Rightarrow> \<not> (\<exists>i. visible_in r policy' c i)
     | Some order \<Rightarrow> distinct order \<and> order \<noteq> [] \<and> set order = {i. visible_in r policy' c i} \<and>
         (\<forall>i \<in> set order. \<forall>j \<in> set order. i |\<in>| graph_parents (rr_graph r) j \<longrightarrow> precedes order i j)" for c
  proof (cases "?members c = []")
    case True
    then have "fmlookup ?groups c = None" using look [of c] by (metis not_None_eq)
    moreover have "{i. visible_in r policy' c i} = {}"
      using order(1) [of c] order(3) [of c] unfolding True by (simp add: canonical_presentation_order_empty)
    ultimately show ?thesis using at [of c] by auto
  next
    case False
    then have "fmlookup ?groups c = Some (?members c)" unfolding look by blast
    then have "fmlookup m c = Some (order c)" using at [of c] order(1) [of c] by (simp del: fmlookup_map)
    moreover have "order c \<noteq> []" using False order(4) [of c] by auto
    ultimately show ?thesis using order(2,3) [of c] order(5) [of _ c] by auto
  qed
  then show ?thesis using m by blast
qed

theorem conversation_orders_exact_witness:
  "\<exists>r orders. reduce_complete sample_thread_facts (conversation_reducer sample_authority_policy) = Some (Ok r) \<and>
     conversation_orders r sample_authority_policy = Some (Ok orders)"
proof -
  obtain r where r: "reduce_complete sample_thread_facts (conversation_reducer sample_authority_policy) = Some (Ok r)"
    by (rule sample_thread_run)
  with conversation_orders_exact [OF r, of sample_authority_policy] show ?thesis by blast
qed

section \<open>Incomplete messages\<close>

lemma report_unresolved:
  assumes run: "reduce_complete fs domain = Some (Ok r)" and get: "fact_set_get (rr_facts r) i = Some f"
  obtains d where "fmlookup (rr_decisions r) i = Some d"
    and "fd_status d = Unresolved \<longleftrightarrow> i |\<notin>| cycle_members (rr_graph r) \<and> {p. p |\<in>| fact_parents f \<and> \<not> usable (rr_decisions r) p} \<noteq> {}"
    and "fd_status d = Unresolved \<longrightarrow>
      fset (fd_missing_dependencies d) = {p. p |\<in>| fact_parents f \<and> \<not> fact_set_contains (rr_facts r) p} \<and>
      fmdom' (fd_unusable_dependencies d) = (if fd_missing_dependencies d = {||}
        then {p. p |\<in>| fact_parents f \<and> \<not> usable (rr_decisions r) p} else {})"
proof -
  let ?s = "from_facts fs" and ?g = "graph_of (from_facts fs)" and ?ds = "rr_decisions r"
  note r = reduce_complete_OkD(1,2) [OF run]
  have get': "fact_set_get ?s i = Some f" using get by (simp add: r)
  have look: "fmlookup ?ds j = (if fact_set_contains ?s j then Some (verdict ?s ?g domain ?ds j) else None)" for j
    using fmlookup_round [of ?s ?g domain ?ds j] report_stable [OF run] by simp
  have parents: "p |\<in>| graph_parents ?g i \<longleftrightarrow> p |\<in>| fact_parents f" for p
    using get' by (simp add: graph_parents_iff [OF fact_set_wf_from_facts])
  have unknown: "\<not> fact_set_contains ?s p \<Longrightarrow> \<not> usable ?ds p" for p using look [of p] by (simp add: usable_def)
  let ?missing = "ffilter (\<lambda>p. \<not> fact_set_contains ?s p) (graph_parents ?g i)" and ?d = "verdict ?s ?g domain ?ds i"
  have missing: "fset ?missing = {p. p |\<in>| fact_parents f \<and> \<not> fact_set_contains ?s p}" by (auto simp: parents)
  have blocked: "fmdom' (unusable_parents ?g ?ds i) = {p. p |\<in>| fact_parents f \<and> fact_set_contains ?s p \<and> \<not> usable ?ds p}"
    unfolding fmdom_unusable_parents by (auto simp: parents look)
  have "\<not> is_collision ?s i" using get' by (simp add: is_collision_def fact_set_get_Some_iff)
  note d = verdict_unique [OF get' this, of ?g domain ?ds, unfolded Let_def]
  have settled: "fd_status (domain_decision e deps) \<noteq> Unresolved" for e :: "_ DomainDecision" and deps
    by (cases e) (simp_all add: domain_decision_def)
  have empty: "unusable_parents ?g ?ds i = fmempty \<longleftrightarrow> fmdom' (unusable_parents ?g ?ds i) = {}"
    by (simp add: fmempty_dom'_iff)
  have "(fd_status ?d = Unresolved \<longleftrightarrow> i |\<notin>| cycle_members ?g \<and> {p. p |\<in>| fact_parents f \<and> \<not> usable ?ds p} \<noteq> {}) \<and>
      (fd_status ?d = Unresolved \<longrightarrow>
         fset (fd_missing_dependencies ?d) = {p. p |\<in>| fact_parents f \<and> \<not> fact_set_contains ?s p} \<and>
         fmdom' (fd_unusable_dependencies ?d) = (if fd_missing_dependencies ?d = {||}
           then {p. p |\<in>| fact_parents f \<and> \<not> usable ?ds p} else {}))"
  proof (cases "i |\<in>| cycle_members ?g")
    case True
    then show ?thesis by (simp add: d)
  next
    case False
    show ?thesis
    proof (cases "?missing = {||}")
      case True
      then have none: "{p. p |\<in>| fact_parents f \<and> \<not> fact_set_contains ?s p} = {}" using missing by simp
      then have "fmdom' (unusable_parents ?g ?ds i) = {p. p |\<in>| fact_parents f \<and> \<not> usable ?ds p}" using blocked by blast
      then show ?thesis
        using False True none empty
        by (cases "unusable_parents ?g ?ds i = fmempty") (simp_all add: d unresolved_decision_def settled)
    next
      case some: False
      then have "?d = unresolved_decision ?missing fmempty (graph_children ?g i)" using False by (simp add: d)
      moreover have "{p. p |\<in>| fact_parents f \<and> \<not> usable ?ds p} \<noteq> {}" using some missing unknown by fastforce
      ultimately show ?thesis using False some missing by (simp add: unresolved_decision_def)
    qed
  qed
  moreover have "fmlookup ?ds i = Some ?d" using look [of i] fact_set_get_contains [OF get'] by simp
  ultimately show thesis using that [of ?d] unfolding r by blast
qed

lemma report_unresolved_iff:
  assumes run: "reduce_complete fs domain = Some (Ok r)" and get: "fact_set_get (rr_facts r) i = Some f"
  shows "(\<exists>d. fmlookup (rr_decisions r) i = Some d \<and> fd_status d = Unresolved \<and>
       M = fd_missing_dependencies d \<and> U = fmdom (fd_unusable_dependencies d)) \<longleftrightarrow>
     i |\<notin>| cycle_members (rr_graph r) \<and> (\<exists>p. p |\<in>| fact_parents f \<and> \<not> usable (rr_decisions r) p) \<and>
     fset M = {p. p |\<in>| fact_parents f \<and> \<not> fact_set_contains (rr_facts r) p} \<and>
     fset U = (if M = {||} then {p. p |\<in>| fact_parents f \<and> \<not> usable (rr_decisions r) p} else {})"
proof -
  obtain d where d: "fmlookup (rr_decisions r) i = Some d"
    "fd_status d = Unresolved \<longleftrightarrow> i |\<notin>| cycle_members (rr_graph r) \<and>
       {p. p |\<in>| fact_parents f \<and> \<not> usable (rr_decisions r) p} \<noteq> {}"
    "fd_status d = Unresolved \<longrightarrow>
       fset (fd_missing_dependencies d) = {p. p |\<in>| fact_parents f \<and> \<not> fact_set_contains (rr_facts r) p} \<and>
       fmdom' (fd_unusable_dependencies d) = (if fd_missing_dependencies d = {||}
         then {p. p |\<in>| fact_parents f \<and> \<not> usable (rr_decisions r) p} else {})"
    by (rule report_unresolved [OF run get])
  show ?thesis
  proof (cases "fd_status d = Unresolved")
    case True
    note deps = d(3) [THEN mp, OF True, THEN conjunct1] d(3) [THEN mp, OF True, THEN conjunct2, unfolded fmdom'_alt_def]
    have "M = fd_missing_dependencies d \<longleftrightarrow> fset M = {p. p |\<in>| fact_parents f \<and> \<not> fact_set_contains (rr_facts r) p}"
      unfolding deps(1) [symmetric] fset_inject ..
    moreover have "U = fmdom (fd_unusable_dependencies d) \<longleftrightarrow> fset U = (if fd_missing_dependencies d = {||}
        then {p. p |\<in>| fact_parents f \<and> \<not> usable (rr_decisions r) p} else {})"
      unfolding deps(2) [symmetric] fset_inject ..
    ultimately show ?thesis using d(1,2) True by auto
  qed (use d(1,2) in auto)
qed

text \<open>
  C23. The messages reported as incomplete are exactly those that history holds back: a stored
  message addressed to a peer or an account is reported when it lies on no causal cycle and some
  parent of it is not projected. The report lists its absent parents; only when none is absent
  does it list the present parents that are not projected.
\<close>

theorem incomplete_observations_exact:
  assumes run: "reduce_complete fs (conversation_reducer policy) = Some (Ok r)"
  shows "obs \<in> set (incomplete_addressed_observations r) \<longleftrightarrow>
    (\<exists>f. fact_set_get (rr_facts r) (im_fact_id obs) = Some f \<and> message_content f = Some (im_content obs) \<and>
       (case scope f of PeerAddressed _ \<Rightarrow> True | AccountAddressed _ \<Rightarrow> True | _ \<Rightarrow> False) \<and>
       im_fact_id obs |\<notin>| cycle_members (rr_graph r) \<and>
       (\<exists>p. p |\<in>| fact_parents f \<and> \<not> usable (rr_decisions r) p) \<and>
       fset (im_missing_dependencies obs) = {p. p |\<in>| fact_parents f \<and> \<not> fact_set_contains (rr_facts r) p} \<and>
       fset (im_unusable_dependencies obs) =
         (if im_missing_dependencies obs = {||} then {p. p |\<in>| fact_parents f \<and> \<not> usable (rr_decisions r) p} else {}))"
proof -
  let ?shown = "\<lambda>f. case scope f of PeerAddressed _ \<Rightarrow> True | AccountAddressed _ \<Rightarrow> True | _ \<Rightarrow> False"
  have "obs \<in> set (incomplete_addressed_observations r) \<longleftrightarrow>
      (\<exists>f d. fact_set_get (rr_facts r) (im_fact_id obs) = Some f \<and> fmlookup (rr_decisions r) (im_fact_id obs) = Some d \<and>
         fd_status d = Unresolved \<and> ?shown f \<and> message_content f = Some (im_content obs) \<and>
         im_missing_dependencies obs = fd_missing_dependencies d \<and>
         im_unusable_dependencies obs = fmdom (fd_unusable_dependencies d))"
  proof -
    have ids: "f \<in> set (fact_set_facts (rr_facts r)) \<and> fact_id f = i \<longleftrightarrow> fact_set_get (rr_facts r) i = Some f" for f i
      using fact_set_get_id [OF fact_set_wf_from_facts, of fs i f]
      by (auto simp: reduce_complete_OkD(1) [OF run] set_fact_set_facts [OF fact_set_wf_from_facts])
    have "obs \<in> set (incomplete_addressed_observations r) \<longleftrightarrow>
        (\<exists>f d. (f \<in> set (fact_set_facts (rr_facts r)) \<and> fact_id f = im_fact_id obs) \<and>
           fmlookup (rr_decisions r) (im_fact_id obs) = Some d \<and>
           fd_status d = Unresolved \<and> ?shown f \<and> message_content f = Some (im_content obs) \<and>
           im_missing_dependencies obs = fd_missing_dependencies d \<and>
           im_unusable_dependencies obs = fmdom (fd_unusable_dependencies d))"
      by (cases obs) (force simp: incomplete_addressed_observations_def set_map_filter bind_eq_Some_conv split: if_splits)
    then show ?thesis unfolding ids .
  qed
  also have "\<dots> \<longleftrightarrow> (\<exists>f. fact_set_get (rr_facts r) (im_fact_id obs) = Some f \<and> message_content f = Some (im_content obs) \<and>
      ?shown f \<and> (\<exists>d. fmlookup (rr_decisions r) (im_fact_id obs) = Some d \<and> fd_status d = Unresolved \<and>
         im_missing_dependencies obs = fd_missing_dependencies d \<and>
         im_unusable_dependencies obs = fmdom (fd_unusable_dependencies d)))"
    by blast
  finally show ?thesis using report_unresolved_iff [OF run, of "im_fact_id obs"] by (simp cong: conj_cong)
qed

text \<open>A message of installation 1 to a peer, one of whose causes never arrived.\<close>

definition sample_blocked :: SemanticFact where
  "sample_blocked = sample_signed 1 (PeerAddressed (MailboxAddress 2 8)) 2 [1, 77] []
     (QuestionAsked (sample_message 50 7 9))"

definition sample_blocked_facts :: "SemanticFact list" where
  "sample_blocked_facts = [sample_root, sample_blocked]"

theorem incomplete_observations_exact_witness:
  "\<exists>r. reduce_complete sample_blocked_facts (conversation_reducer sample_authority_policy) = Some (Ok r) \<and>
     \<lparr>im_fact_id = 2, im_content = sample_message 50 7 9, im_missing_dependencies = {|77|},
      im_unusable_dependencies = {||}\<rparr> \<in> set (incomplete_addressed_observations r)"
proof -
  let ?s = "from_facts sample_blocked_facts" and ?domain = "conversation_reducer sample_authority_policy"
  have "(case stabilize_decisions ?s (graph_of ?s) ?domain of Inr ds \<Rightarrow> True | Inl _ \<Rightarrow> False)" by code_simp
  then obtain ds where "stabilize_decisions ?s (graph_of ?s) ?domain = Ok ds" by (auto split: sum.splits)
  then obtain r where r: "reduce_complete sample_blocked_facts ?domain = Some (Ok r)"
    using conversation_reduction_succeeds by blast
  have s: "fact_set_get ?s 2 = Some sample_blocked" "2 |\<notin>| cycle_members (graph_of ?s)" "\<not> fact_set_contains ?s 77"
    "fact_set_contains ?s 1" by code_simp+
  have "\<not> usable (rr_decisions r) 77"
    using s(3) fact_set_get_contains [of ?s 77] report_usable_iff [OF r, of 77] by blast
  moreover have "{p. p |\<in>| fact_parents sample_blocked \<and> \<not> fact_set_contains ?s p} = {77}"
    using s(3,4) by (auto simp: sample_blocked_def sample_signed_def sample_causal_def)
  moreover have "message_content sample_blocked = Some (sample_message 50 7 9)" "77 |\<in>| fact_parents sample_blocked"
    "scope sample_blocked = PeerAddressed (MailboxAddress 2 8)"
    by (simp_all add: sample_blocked_def sample_signed_def sample_causal_def message_content_def)
  ultimately have "\<lparr>im_fact_id = 2, im_content = sample_message 50 7 9, im_missing_dependencies = {|77|},
      im_unusable_dependencies = {||}\<rparr> \<in> set (incomplete_addressed_observations r)"
    using s(1,2) unfolding incomplete_observations_exact [OF r] reduce_complete_OkD(1,2) [OF r]
    by (intro exI [of _ sample_blocked] conjI exI [of _ 77]) simp_all
  with r show ?thesis by blast
qed

end
