(* ===== verification/Content_Checks.thy ===== *)
theory Content_Checks
  imports Semantic_Facts
begin

text \<open>
  The checks every received event passes before it becomes a fact (\<open>hq-protocol/src/dto/decode.rs\<close>):
  which scopes and which authority roles a family of facts may use, the canonical form of its
  references, and their conversion to causal references (\<open>semantic.rs\<close>).

  Content here is the part of \<open>ContentDto\<close> the checks read. A scope is the one it is converted to, a
  role is the role of the domain with the wire order of roles, and an identity is a 256-bit word.
  The bodies of the families and their JSON form are not part of it.
\<close>

section \<open>Content\<close>

datatype ProtocolDto = CanonicalProtocol | ControlProtocol

datatype NamespaceDto = CanonicalNamespace | ControlNamespace

record ContentDto =
  cd_protocol :: ProtocolDto
  cd_family :: nat
  cd_author :: InstallationId
  cd_scope :: FactScope
  cd_parents :: "(NamespaceDto \<times> FactId) list"
  cd_authorities :: "(AuthorityRole \<times> NamespaceDto \<times> FactId) list"

text \<open>
  The closed taxonomy of protocol failures. Two classes carry the prefix \<open>Content\<close>, since the
  domain's construction errors have the plain names.
\<close>

datatype FailureClass =
    EventTooLarge
  | ContentTooLarge
  | OuterInvalidUtf8
  | OuterNonCanonical
  | OuterMemberOrder
  | OuterFieldShape
  | OuterTrailingData
  | WrongKind
  | NonemptyTags
  | EventIdMismatch
  | InvalidPublicKey
  | InvalidSignatureEncoding
  | BadSignature
  | ContentMalformed
  | ContentNonCanonical
  | ContentTooDeep
  | ContentTooManyItems
  | AuthoredTimeMismatch
  | ScopeAuthorMismatch
  | ContentAuthorityNotParent
  | ContentDuplicateAuthorityRole
  | NamespaceConfusion
  | LegacySchema
  | DomainValueInvalid
  | PayloadInvariant
  | ScopePayloadMismatch
  | AuthorSubjectMismatch
  | InvalidSecretKey
  | SigningFailed

text \<open>The family number of each kind of fact.\<close>

primrec family :: "FactKind \<Rightarrow> nat" where
  "family FK_InstallationDeclared = 1"
| "family FK_MailboxCreated = 2"
| "family FK_MailboxSessionBound = 3"
| "family FK_MailboxContextRecorded = 4"
| "family FK_PeerRouteSet = 5"
| "family FK_PeerRouteBlocked = 6"
| "family FK_MailboxAccessGranted = 7"
| "family FK_MailboxAccessRevoked = 8"
| "family FK_MailboxActionObserved = 9"
| "family FK_HumanAccountCreated = 10"
| "family FK_HumanAccountSelected = 11"
| "family FK_HumanDeviceGranted = 12"
| "family FK_HumanDeviceAccepted = 13"
| "family FK_HumanDeviceRevoked = 14"
| "family FK_QuestionAsked = 15"
| "family FK_AsynchronousMessageSent = 16"
| "family FK_AnswerGiven = 17"
| "family FK_ThreadCancelled = 18"
| "family FK_MessageArchived = 19"
| "family FK_MessageRestored = 20"
| "family FK_MessageRejected = 21"
| "family FK_HarnessActivityRecorded = 22"
| "family FK_AgentNameClaimed = 23"
| "family FK_AgentRetired = 24"
| "family FK_ProviderSessionSelected = 25"
| "family FK_ProviderSessionRenamed = 26"
| "family FK_ProjectCreated = 27"
| "family FK_ProjectOpened = 28"
| "family FK_ProjectClosingStarted = 29"
| "family FK_ProjectClosed = 30"
| "family FK_ProjectArchived = 31"
| "family FK_ProjectUnarchived = 32"
| "family FK_ProjectMetadataUpdated = 33"
| "family FK_ProjectResourceAdded = 34"
| "family FK_ProjectResourceRemoved = 35"
| "family FK_ProjectResourceReplaced = 36"
| "family FK_ProjectPrimaryResourceChanged = 37"
| "family FK_ProjectResourceHealthObserved = 38"
| "family FK_ProjectAssignmentConfiguring = 39"
| "family FK_ProjectAssignmentRunnable = 40"
| "family FK_ProjectAssignmentBlocked = 41"
| "family FK_ProjectAssignmentEnded = 42"
| "family FK_ProjectInputAccepted = 43"
| "family FK_ProjectInputDispatched = 44"
| "family FK_ProjectOutputRecorded = 45"
| "family FK_RemoteProjectCommandRequested = 46"
| "family FK_RemoteProjectCommandReceipt = 47"
| "family FK_RemoteProjectCommandOutcome = 48"
| "family FK_ConversationArchived = 49"

text \<open>The derived orders of namespaces and of the roles on the wire.\<close>

primrec namespace_rank :: "NamespaceDto \<Rightarrow> nat" where
  "namespace_rank CanonicalNamespace = 0"
| "namespace_rank ControlNamespace = 1"

primrec wire_role_rank :: "AuthorityRole \<Rightarrow> nat" where
  "wire_role_rank AccountCreator = 0"
| "wire_role_rank AccountMembership = 1"
| "wire_role_rank ActiveHuman = 2"
| "wire_role_rank Assignment = 3"
| "wire_role_rank DeviceGrant = 4"
| "wire_role_rank Dispatch = 5"
| "wire_role_rank LocalInstallation = 6"
| "wire_role_rank MailboxGrant = 7"
| "wire_role_rank MailboxOwner = 8"
| "wire_role_rank OutputBinding = 9"
| "wire_role_rank PreviousState = 10"
| "wire_role_rank ProjectHome = 11"
| "wire_role_rank Request = 12"

definition parent_rank :: "NamespaceDto \<times> FactId \<Rightarrow> nat \<times> FactId" where
  "parent_rank = (\<lambda>(namespace, i). (namespace_rank namespace, i))"

definition authority_rank :: "AuthorityRole \<times> NamespaceDto \<times> FactId \<Rightarrow> nat \<times> nat \<times> FactId" where
  "authority_rank = (\<lambda>(role, namespace, i). (wire_role_rank role, namespace_rank namespace, i))"

definition strictly_sorted :: "('a \<Rightarrow> 'b::linorder) \<Rightarrow> 'a list \<Rightarrow> bool" where
  "strictly_sorted rank xs = list_all (\<lambda>(a, b). rank a < rank b) (zip xs (tl xs))"

section \<open>The checks\<close>

definition MAX_PARENT_REFS :: nat where "MAX_PARENT_REFS = 64"
definition MAX_AUTHORITY_REFS :: nat where "MAX_AUTHORITY_REFS = 8"

definition is_local_scope :: "FactScope \<Rightarrow> bool" where
  "is_local_scope s = (case s of InstallationPrivate _ \<Rightarrow> True | _ \<Rightarrow> False)"

definition is_peer_scope :: "FactScope \<Rightarrow> bool" where
  "is_peer_scope s = (case s of PeerAddressed _ \<Rightarrow> True | _ \<Rightarrow> False)"

definition is_account_scope :: "FactScope \<Rightarrow> bool" where
  "is_account_scope s = (case s of AccountAddressed _ \<Rightarrow> True | _ \<Rightarrow> False)"

definition scope_is_allowed :: "nat \<Rightarrow> FactScope \<Rightarrow> bool" where
  "scope_is_allowed n s =
     (if 1 \<le> n \<and> n \<le> 6 \<or> 10 \<le> n \<and> n \<le> 11 \<or> 23 \<le> n \<and> n \<le> 26 then is_local_scope s
      else if 7 \<le> n \<and> n \<le> 9 then is_peer_scope s
      else if 12 \<le> n \<and> n \<le> 14 \<or> 27 \<le> n \<and> n \<le> 45 then is_account_scope s
      else if 15 \<le> n \<and> n \<le> 18 then is_local_scope s \<or> is_peer_scope s \<or> is_account_scope s
      else if 19 \<le> n \<and> n \<le> 22 then is_local_scope s \<or> is_account_scope s
      else if 46 \<le> n \<and> n \<le> 48 then is_remote_scope s
      else if n = 49 then is_local_scope s \<or> is_account_scope s
      else False)"

definition role_is_allowed :: "nat \<Rightarrow> AuthorityRole \<Rightarrow> bool" where
  "role_is_allowed n role \<longleftrightarrow> role \<in> set
     (if 2 \<le> n \<and> n \<le> 6 \<or> n = 10 \<or> 23 \<le> n \<and> n \<le> 26 then [LocalInstallation]
      else if n = 7 then [MailboxOwner]
      else if 8 \<le> n \<and> n \<le> 9 then [MailboxGrant]
      else if n = 11 then [LocalInstallation, AccountMembership]
      else if n = 12 then [AccountCreator]
      else if n = 13 then [DeviceGrant]
      else if n = 14 then [AccountCreator, DeviceGrant]
      else if 15 \<le> n \<and> n \<le> 18 then [LocalInstallation, MailboxGrant, AccountMembership]
      else if 19 \<le> n \<and> n \<le> 22 then [LocalInstallation, AccountMembership]
      else if n = 27 then [ProjectHome, AccountMembership, ActiveHuman]
      else if 28 \<le> n \<and> n \<le> 37 \<or> n = 39 then [PreviousState, ProjectHome, AccountMembership, ActiveHuman]
      else if n = 38 then [PreviousState, ProjectHome, AccountMembership, ActiveHuman]
      else if 40 \<le> n \<and> n \<le> 41 then [PreviousState, ProjectHome, AccountMembership, Assignment]
      else if n = 42 then [PreviousState, ProjectHome, Assignment, AccountMembership, ActiveHuman]
      else if n = 43 then [PreviousState, ProjectHome, AccountMembership]
      else if n = 44 then [PreviousState, ProjectHome, AccountMembership, Assignment, Dispatch]
      else if n = 45 then [PreviousState, ProjectHome, AccountMembership, Dispatch, Assignment, OutputBinding]
      else if n = 46 then [AccountMembership, ActiveHuman, ProjectHome]
      else if 47 \<le> n \<and> n \<le> 48 then [ProjectHome, Request, AccountMembership, ActiveHuman]
      else if n = 49 then [LocalInstallation, AccountMembership, ActiveHuman]
      else [])"

definition validate_scope :: "ContentDto \<Rightarrow> FailureClass + unit" where
  "validate_scope content =
     (if \<not> scope_is_allowed (cd_family content) (cd_scope content) then Err NamespaceConfusion
      else
        case (cd_protocol content, cd_scope content) of
          (CanonicalProtocol, InstallationPrivate installation) \<Rightarrow>
            check (installation = cd_author content) ScopeAuthorMismatch
        | (CanonicalProtocol, PeerAddressed _) \<Rightarrow> Ok ()
        | (CanonicalProtocol, AccountAddressed _) \<Rightarrow> Ok ()
        | (ControlProtocol, RemoteControl _ _) \<Rightarrow> Ok ()
        | _ \<Rightarrow> Err NamespaceConfusion)"

definition parent_namespace_allowed :: "ProtocolDto \<Rightarrow> NamespaceDto \<Rightarrow> bool" where
  "parent_namespace_allowed protocol namespace \<longleftrightarrow> protocol = ControlProtocol \<or> namespace = CanonicalNamespace"

text \<open>The loop over the authorities: the first one that breaks a rule decides the failure.\<close>

fun validate_authorities ::
  "ContentDto \<Rightarrow> (AuthorityRole \<times> NamespaceDto \<times> FactId) list \<Rightarrow> FailureClass + unit" where
  "validate_authorities content [] = Ok ()"
| "validate_authorities content ((role, namespace, i) # rest) =
     (let expected = (if role = Request then ControlNamespace else CanonicalNamespace) in
      if \<not> role_is_allowed (cd_family content) role then Err ContentMalformed
      else if namespace \<noteq> expected
              \<or> cd_protocol content = CanonicalProtocol \<and> namespace \<noteq> CanonicalNamespace
      then Err NamespaceConfusion
      else if (namespace, i) \<notin> set (cd_parents content) then Err ContentAuthorityNotParent
      else validate_authorities content rest)"

definition validate_references :: "ContentDto \<Rightarrow> FailureClass + unit" where
  "validate_references content =
     (if MAX_PARENT_REFS < length (cd_parents content) \<or> MAX_AUTHORITY_REFS < length (cd_authorities content)
      then Err ContentTooManyItems
      else if \<not> strictly_sorted parent_rank (cd_parents content) then Err ContentNonCanonical
      else if \<not> list_all (\<lambda>(namespace, _). parent_namespace_allowed (cd_protocol content) namespace) (cd_parents content)
      then Err NamespaceConfusion
      else if \<not> distinct (map fst (cd_authorities content)) then Err ContentDuplicateAuthorityRole
      else if \<not> strictly_sorted authority_rank (cd_authorities content) then Err ContentNonCanonical
      else validate_authorities content (cd_authorities content))"

section \<open>Conversion\<close>

definition domain_value :: "ValidatedValueError \<Rightarrow> FailureClass" where
  "domain_value _ = DomainValueInvalid"

definition causal_of_content :: "ContentDto \<Rightarrow> FailureClass + CausalReferences" where
  "causal_of_content content =
     and_then (map_sum domain_value id (bounded_set_new MAX_FACT_PARENTS (map snd (cd_parents content)))) (\<lambda>parents.
       map_sum domain_value id (causal_references_new MAX_FACT_AUTHORITIES parents
         (map (\<lambda>(role, _, i). \<lparr>ref_role = role, ref_fact_id = i\<rparr>) (cd_authorities content))))"

section \<open>What the checks establish\<close>

lemma strictly_sorted_Cons: "strictly_sorted rank (x # xs) \<Longrightarrow> strictly_sorted rank xs \<and> (\<forall>y \<in> set xs. rank x < rank y)"
proof (induction xs arbitrary: x)
  case (Cons y ys)
  then have "rank x < rank y" and "strictly_sorted rank (y # ys)" by (simp_all add: strictly_sorted_def)
  then show ?case using Cons.IH [of y] by (auto intro: less_trans)
qed (simp add: strictly_sorted_def)

lemma strictly_sorted_distinct: "strictly_sorted rank xs \<Longrightarrow> distinct xs"
  by (induction xs) (auto dest!: strictly_sorted_Cons)

lemma collect_authorities_succeeds:
  "\<lbrakk>\<forall>a \<in> set refs. ref_fact_id a |\<in>| parents \<and> fmlookup by_role (ref_role a) = None; distinct (map ref_role refs)\<rbrakk> \<Longrightarrow>
     \<exists>final. collect_authorities parents refs by_role = Ok final"
proof (induction refs arbitrary: by_role)
  case (Cons a rest)
  have "ref_role b \<noteq> ref_role a" "ref_role a \<noteq> ref_role b" if "b \<in> set rest" for b
    using Cons.prems(2) that by (auto simp: image_iff)
  then show ?case using Cons.prems Cons.IH [of "fmupd (ref_role a) (ref_fact_id a) by_role"] by simp
qed simp

lemma bounded_set_new_Duplicate: "length xs \<le> n \<Longrightarrow> \<not> distinct xs \<Longrightarrow> bounded_set_new n xs = Err Duplicate"
  by (simp add: bounded_set_new_def Let_def fcard_fset_of_list_eq_length)

lemma validate_authorities_Ok_iff:
  "validate_authorities content xs = Ok () \<longleftrightarrow>
     (\<forall>(role, namespace, i) \<in> set xs. role_is_allowed (cd_family content) role \<and>
        namespace = (if role = Request then ControlNamespace else CanonicalNamespace) \<and>
        (cd_protocol content = CanonicalProtocol \<longrightarrow> namespace = CanonicalNamespace) \<and>
        (namespace, i) \<in> set (cd_parents content))"
  by (induction content xs rule: validate_authorities.induct) (auto simp: Let_def)

lemma identity_in_both_namespaces:
  assumes "distinct parents" and "\<not> distinct (map snd parents)"
  shows "\<exists>i. (CanonicalNamespace, i) \<in> set parents \<and> (ControlNamespace, i) \<in> set parents"
proof -
  obtain m n i where "(m, i) \<in> set parents" "(n, i) \<in> set parents" "m \<noteq> n"
    using assms by (fastforce simp: distinct_map inj_on_def)
  then show ?thesis by (cases m; cases n) blast+
qed

text \<open>
  C40. The references of an event that passes the checks become causal references of a fact: every
  authority is one of the parents, is kept under its role, and has a role its family may use. The
  only references refused later are those of a control event that names one identity in both
  namespaces: its parents then repeat that identity, and the conversion answers
  \<open>DomainValueInvalid\<close>.
\<close>

theorem checked_references_convert:
  assumes ok: "validate_references content = Ok ()"
  shows "case causal_of_content content of
      Err e \<Rightarrow> e = DomainValueInvalid \<and>
        bounded_set_new MAX_FACT_PARENTS (map snd (cd_parents content)) = Err Duplicate \<and> cd_protocol content = ControlProtocol \<and>
        (\<exists>i. (CanonicalNamespace, i) \<in> set (cd_parents content) \<and> (ControlNamespace, i) \<in> set (cd_parents content))
    | Ok c \<Rightarrow> causal_wf c \<and> fset (causal_parents c) = snd ` set (cd_parents content) \<and>
        (\<forall>role i. authority_of c role = Some i \<longleftrightarrow> (\<exists>namespace. (role, namespace, i) \<in> set (cd_authorities content))) \<and>
        (\<forall>role i. authority_of c role = Some i \<longrightarrow> role_is_allowed (cd_family content) role)"
proof -
  let ?ids = "map snd (cd_parents content)"
  let ?refs = "map (\<lambda>(role, _, i). \<lparr>ref_role = role, ref_fact_id = i\<rparr>) (cd_authorities content)"
  have c: "length ?ids \<le> 64" "length ?refs \<le> 8" "strictly_sorted parent_rank (cd_parents content)"
      "\<And>n i. (n, i) \<in> set (cd_parents content) \<Longrightarrow> parent_namespace_allowed (cd_protocol content) n"
      "distinct (map fst (cd_authorities content))" "validate_authorities content (cd_authorities content) = Ok ()"
    using ok by (auto simp: validate_references_def MAX_PARENT_REFS_def MAX_AUTHORITY_REFS_def list_all_iff
        split: if_splits)
  have roles: "map ref_role ?refs = map fst (cd_authorities content)" by (auto simp: comp_def case_prod_beta)
  show ?thesis
  proof (cases "distinct ?ids")
    case False
    then have "bounded_set_new MAX_FACT_PARENTS ?ids = Err Duplicate"
      using bounded_set_new_Duplicate [OF c(1) False] by (simp add: MAX_FACT_PARENTS_def)
    moreover from this have "causal_of_content content = Err DomainValueInvalid"
      by (simp add: causal_of_content_def domain_value_def)
    moreover obtain i where "(CanonicalNamespace, i) \<in> set (cd_parents content)" "(ControlNamespace, i) \<in> set (cd_parents content)"
      using identity_in_both_namespaces [OF strictly_sorted_distinct [OF c(3)] False] by blast
    ultimately show ?thesis using c(4) by (auto simp: parent_namespace_allowed_def)
  next
    case True
    have "\<forall>a \<in> set ?refs. ref_fact_id a |\<in>| fset_of_list ?ids \<and> fmlookup fmempty (ref_role a) = (None :: FactId option)"
      using c(6) by (force simp: validate_authorities_Ok_iff)
    then obtain final where run: "collect_authorities (fset_of_list ?ids) ?refs fmempty = Ok final"
      using collect_authorities_succeeds [of ?refs "fset_of_list ?ids" fmempty] c(5) unfolding roles by blast
    let ?c = "\<lparr>causal_parents = fset_of_list ?ids, causal_authorities = final\<rparr>"
    have new: "causal_references_new MAX_FACT_AUTHORITIES (fset_of_list ?ids) ?refs = Ok ?c"
      using c(2) run by (simp add: causal_references_new_def MAX_FACT_AUTHORITIES_def)
    then have conv: "causal_of_content content = Ok ?c"
      using True c(1) bounded_set_new_Ok_iff [of MAX_FACT_PARENTS ?ids "fset_of_list ?ids"]
      by (simp add: causal_of_content_def MAX_FACT_PARENTS_def)
    note kept = collect_authorities_Ok [OF run]
    have look: "fmlookup final role = Some i \<longleftrightarrow> (\<exists>namespace. (role, namespace, i) \<in> set (cd_authorities content))" for role i
    proof
      assume role: "fmlookup final role = Some i"
      then have "role |\<in>| fset_of_list (map ref_role ?refs)" using kept fmdomI [OF role] by simp
      then obtain a where "a \<in> set ?refs" "role = ref_role a"
        unfolding fset_of_list_member set_map [of ref_role] by blast
      moreover from this have "i = ref_fact_id a" using kept role by fastforce
      ultimately show "\<exists>namespace. (role, namespace, i) \<in> set (cd_authorities content)" by force
    next
      assume "\<exists>namespace. (role, namespace, i) \<in> set (cd_authorities content)"
      then show "fmlookup final role = Some i" using kept by force
    qed
    then have "role_is_allowed (cd_family content) role" if "fmlookup final role = Some i" for role i
      using that c(6) by (force simp: validate_authorities_Ok_iff)
    then show ?thesis
      using causal_references_new_wf [OF new] look by (simp add: conv authority_of_def fset_of_list.rep_eq)
  qed
qed

text \<open>The references of the receipt of a remote command: home and device are canonical facts.\<close>

definition sample_content :: ContentDto where
  "sample_content =
     \<lparr>cd_protocol = ControlProtocol, cd_family = 47, cd_author = 1, cd_scope = RemoteControl 60 1,
      cd_parents = [(CanonicalNamespace, 1), (CanonicalNamespace, 2), (ControlNamespace, 3)],
      cd_authorities = [(AccountMembership, CanonicalNamespace, 2), (ProjectHome, CanonicalNamespace, 1),
        (Request, ControlNamespace, 3)]\<rparr>"

theorem checked_references_convert_witness:
  "validate_references sample_content = Ok () \<and>
   (case causal_of_content sample_content of
      Err _ \<Rightarrow> False
    | Ok c \<Rightarrow> causal_wf c \<and> authority_of c Request = Some 3 \<and> (\<forall>i. authority_of c Assignment \<noteq> Some i))"
proof -
  have ok: "validate_references sample_content = Ok ()" by code_simp
  moreover have "\<not> role_is_allowed (cd_family sample_content) Assignment"
    by (simp add: sample_content_def role_is_allowed_def)
  moreover have "\<exists>namespace. (Request, namespace, 3) \<in> set (cd_authorities sample_content)"
    "\<not> (\<exists>i. (CanonicalNamespace, i) \<in> set (cd_parents sample_content) \<and> (ControlNamespace, i) \<in> set (cd_parents sample_content))"
    by (auto simp: sample_content_def)
  ultimately show ?thesis
    using checked_references_convert [OF ok] by (cases "causal_of_content sample_content"; simp; blast)
qed

section \<open>Admitted facts\<close>

text \<open>What the checks guarantee of the causal references of a fact.\<close>

definition admitted :: "SemanticFact \<Rightarrow> bool" where
  "admitted f \<longleftrightarrow> causal_wf (causal f) \<and>
     list_all (\<lambda>role. authority_of (causal f) role \<noteq> None \<longrightarrow> role_is_allowed (family (payload_kind (payload f))) role)
       authority_role_all"

lemma admitted_role:
  assumes "admitted f" and "authority_of (causal f) role = Some i"
  shows "i |\<in>| fact_parents f" and "role_is_allowed (family (payload_kind (payload f))) role"
  using assms authority_role_all_complete by (auto simp: admitted_def list_all_iff intro: causal_wf_authority)

end
