(* ===== verification/Project.thy ===== *)
theory Project
  imports Policy_Support
begin

text \<open>
  The project policy, first part: the keys, views, reasons and replayed state of
  \<open>hq-reducer/src/project.rs\<close>, the transition each project fact makes on the state, and the
  classification of project facts and remote commands on top of the authority policy.

  A project is a chain of facts written by its home: a creation, then facts that each cite the
  previous one. \<open>state_at\<close> replays the chain back from a fact; it is a recursion that ends because
  projected facts lie on no causal cycle. In the model it is a partial function, so that a replay
  that does not end would be the value \<open>None\<close>; that it does end is proved of every round.

  An input number is a natural number. The source adds one to the last number of a 64-bit
  counter; past its end no number is accepted, and no representable number is the successor here.
\<close>

section \<open>Keys\<close>

datatype ProjectAggregateKey =
    ProjectHistoryKey ProjectId
  | ResourceKey InstallationId ResourceLocator
  | AgentAssignmentKey InstallationId AgentId
  | InputKey MessageId
  | DispatchKey DispatchId
  | OutputKey MessageId
  | CommandKey CommandId

datatype ProjectProjectionKey =
    ProjectProjection ProjectId
  | InputProjection MessageId
  | DispatchProjection DispatchId
  | OutputProjection MessageId
  | CommandProjection CommandId

text \<open>The derived order: the variant's position, then its identity.\<close>

primrec project_key_rank :: "ProjectProjectionKey \<Rightarrow> nat \<times> 256 word" where
  "project_key_rank (ProjectProjection i) = (0, i)"
| "project_key_rank (InputProjection i) = (1, i)"
| "project_key_rank (DispatchProjection i) = (2, i)"
| "project_key_rank (OutputProjection i) = (3, i)"
| "project_key_rank (CommandProjection i) = (4, i)"

lemma project_key_rank_inj: "project_key_rank a = project_key_rank b \<Longrightarrow> a = b"
  by (cases a; cases b) simp_all

instantiation ProjectProjectionKey :: linorder
begin
definition less_eq_ProjectProjectionKey :: "ProjectProjectionKey \<Rightarrow> ProjectProjectionKey \<Rightarrow> bool" where
  "a \<le> b \<longleftrightarrow> project_key_rank a \<le> project_key_rank b"
definition less_ProjectProjectionKey :: "ProjectProjectionKey \<Rightarrow> ProjectProjectionKey \<Rightarrow> bool" where
  "a < b \<longleftrightarrow> project_key_rank a < project_key_rank b"
instance
  by standard (auto simp: less_eq_ProjectProjectionKey_def less_ProjectProjectionKey_def
      less_le_not_le linear intro: project_key_rank_inj order.trans)
end

section \<open>Views, reasons and state\<close>

datatype ProjectLifecycle = Open | Closing | Closed

datatype ProjectAssignmentPhase =
    Configuring
  | Runnable ThreadId ResourceLocator
  | Blocked ErrorCode

record ProjectAssignmentView =
  pav_intent :: AssignmentIntent
  pav_binding :: "AssignmentBinding option"
  pav_phase :: ProjectAssignmentPhase
  pav_cardinality_conflicted :: bool
  pav_runnable :: bool
  pav_support :: "FactId fset"

record ProjectView =
  pv_root :: FactId
  pv_head :: FactId
  pv_fork_participants :: "FactId fset"
  pv_home :: InstallationId
  pv_account_id :: AccountId
  pv_mailbox :: MailboxAddress
  pv_predecessor :: "ProjectId option"
  pv_name :: ShortText
  pv_brief :: "ContentText option"
  pv_resources :: "(ResourceId, ProjectResource) fmap"
  pv_primary :: "ResourceId option"
  pv_lifecycle :: ProjectLifecycle
  pv_archived :: bool
  pv_active_claims :: "ResourceId fset"
  pv_claim_conflicts :: "(ResourceId, ProjectId fset) fmap"
  pv_claimable :: bool
  pv_assignment :: "ProjectAssignmentView option"
  pv_input_sequence :: nat

record ProjectInputView =
  piv_project_id :: ProjectId
  piv_message_id :: MessageId
  piv_input_fact_id :: FactId
  piv_sequence :: nat
  piv_accepted_fact :: FactId

record ProjectDispatchView =
  pdv_dispatch_id :: DispatchId
  pdv_message_id :: MessageId
  pdv_sequence :: nat
  pdv_binding :: AssignmentBinding
  pdv_thread_id :: ThreadId
  pdv_fact_id :: FactId
  pdv_conflicted :: bool

datatype ProjectOutputStatus = CurrentOutput | LateFromInactive | ConflictedOutput

record ProjectOutputView =
  pov_output_id :: MessageId
  pov_dispatch_id :: DispatchId
  pov_binding :: AssignmentBinding
  pov_thread_id :: ThreadId
  pov_message :: MessageContent
  pov_status :: ProjectOutputStatus
  pov_facts :: "FactId fset"

datatype RemoteCommandStage =
    Queued
  | Received (stage_receipt_fact: FactId) (stage_received_head: "FactId option") (stage_received_at: Timestamp)
  | Terminal (stage_receipt_fact: FactId) (stage_received_head: "FactId option") (stage_received_at: Timestamp)
      (stage_outcome_fact: FactId) (stage_result: RemoteCommandResult) (stage_runtime: "RuntimeObservation option")
  | ConflictedCommand

record RemoteCommandView =
  rcv_account_id :: AccountId
  rcv_digest :: CommandDigest
  rcv_project_id :: ProjectId
  rcv_expected_head :: "FactId option"
  rcv_target_home :: InstallationId
  rcv_operation :: OperationCorrelation
  rcv_body :: ContentText
  rcv_issued_at :: Timestamp
  rcv_request_fact :: FactId
  rcv_stage :: RemoteCommandStage
  rcv_support :: "FactId fset"

datatype ProjectProjection =
    ProjectValue ProjectView
  | InputValue ProjectInputView
  | DispatchValue ProjectDispatchView
  | OutputValue ProjectOutputView
  | CommandValue RemoteCommandView

datatype ProjectReason =
    ProjectAuthority AuthorityReason
  | ProjectSubjectMismatch
  | ProjectAuthorityMismatch
  | ProjectIdentityConflict
  | HomeLinearFork
  | StaleHead
  | InvalidTransition
  | ResourceInvariant
  | ResourceClaimConflict
  | AssignmentCardinalityConflict
  | AssignmentBindingMismatch
  | InputSequenceConflict
  | DispatchConflict
  | OutputConflict
  | RemoteCommandConflict

type_synonym ClassificationError = "ProjectReason \<times> FactId fset"

definition invalid :: "ProjectReason \<Rightarrow> ClassificationError" where
  "invalid reason = (reason, {||})"

record InternalAssignment =
  asg_intent :: AssignmentIntent
  asg_binding :: "AssignmentBinding option"
  asg_phase :: ProjectAssignmentPhase
  asg_support :: "FactId fset"

record InternalProjectState =
  pst_project_id :: ProjectId
  pst_root :: FactId
  pst_head :: FactId
  pst_home :: InstallationId
  pst_account_id :: AccountId
  pst_mailbox_id :: MailboxId
  pst_predecessor :: "ProjectId option"
  pst_name :: ShortText
  pst_brief :: "ContentText option"
  pst_resources :: "(ResourceId, ProjectResource) fmap"
  pst_primary :: "ResourceId option"
  pst_lifecycle :: ProjectLifecycle
  pst_archived :: bool
  pst_assignment :: "InternalAssignment option"
  pst_input_sequence :: nat

section \<open>Path resources\<close>

definition trim_slashes :: "string \<Rightarrow> string" where
  "trim_slashes s = rev (dropWhile (\<lambda>c. c = CHR ''/'') (rev s))"

fun strip_prefix :: "string \<Rightarrow> string \<Rightarrow> string option" where
  "strip_prefix [] s = Some s"
| "strip_prefix (p # ps) [] = None"
| "strip_prefix (p # ps) (c # cs) = (if p = c then strip_prefix ps cs else None)"

definition starts_with_slash :: "string \<Rightarrow> bool" where
  "starts_with_slash s = (case s of c # _ \<Rightarrow> c = CHR ''/'' | [] \<Rightarrow> False)"

definition path_contains :: "string \<Rightarrow> string \<Rightarrow> bool" where
  "path_contains parent candidate =
     (let p = trim_slashes parent; c = trim_slashes candidate in
      p = c \<or> (case strip_prefix p c of Some suffix \<Rightarrow> starts_with_slash suffix | None \<Rightarrow> False))"

type_synonym ResourceConflictPolicy = "ResourceLocator \<Rightarrow> ResourceLocator \<Rightarrow> bool"

definition path_resource_policy :: ResourceConflictPolicy where
  "path_resource_policy left right =
     (if locator_scheme left \<noteq> WorkingTree \<or> locator_scheme right \<noteq> WorkingTree then left = right
      else path_contains (locator_value left) (locator_value right)
         \<or> path_contains (locator_value right) (locator_value left))"

fun split_slash :: "string \<Rightarrow> string list" where
  "split_slash [] = [[]]"
| "split_slash (c # cs) =
     (if c = CHR ''/'' then [] # split_slash cs
      else (case split_slash cs of w # ws \<Rightarrow> (c # w) # ws | [] \<Rightarrow> [[c]]))"

fun double_slash :: "string \<Rightarrow> bool" where
  "double_slash (a # b # cs) \<longleftrightarrow> a = CHR ''/'' \<and> b = CHR ''/'' \<or> double_slash (b # cs)"
| "double_slash _ \<longleftrightarrow> False"

definition valid_absolute_path :: "string \<Rightarrow> bool" where
  "valid_absolute_path value \<longleftrightarrow>
     starts_with_slash value \<and> CHR 0x00 \<notin> set value
     \<and> (value = ''/'' \<or> (\<not> starts_with_slash (rev value) \<and> \<not> double_slash value))
     \<and> \<not> list_ex (\<lambda>component. component = ''.'' \<or> component = ''..'') (split_slash value)"

definition valid_path_resource :: "ProjectResource \<Rightarrow> bool" where
  "valid_path_resource resource \<longleftrightarrow>
     locator_scheme (pr_display_locator resource) = WorkingTree
     \<and> locator_scheme (pr_canonical_locator resource) = WorkingTree
     \<and> valid_absolute_path (locator_value (pr_display_locator resource))
     \<and> valid_absolute_path (locator_value (pr_canonical_locator resource))"

section \<open>Reading facts\<close>

definition payload_project_id :: "SemanticPayload \<Rightarrow> ProjectId option" where
  "payload_project_id p =
     (case p of
        ProjectCreated project _ _ _ _ _ _ _ _ \<Rightarrow> Some project
      | ProjectOpened project \<Rightarrow> Some project
      | ProjectClosingStarted project \<Rightarrow> Some project
      | ProjectClosed project _ _ \<Rightarrow> Some project
      | ProjectArchived project \<Rightarrow> Some project
      | ProjectUnarchived project \<Rightarrow> Some project
      | ProjectMetadataUpdated project _ _ \<Rightarrow> Some project
      | ProjectResourceAdded project _ _ \<Rightarrow> Some project
      | ProjectResourceRemoved project _ _ \<Rightarrow> Some project
      | ProjectResourceReplaced project _ _ \<Rightarrow> Some project
      | ProjectPrimaryResourceChanged project _ \<Rightarrow> Some project
      | ProjectResourceHealthObserved project _ _ _ _ \<Rightarrow> Some project
      | ProjectAssignmentConfiguring project _ \<Rightarrow> Some project
      | ProjectAssignmentRunnable project _ _ _ _ \<Rightarrow> Some project
      | ProjectAssignmentBlocked project _ _ \<Rightarrow> Some project
      | ProjectAssignmentEnded project _ _ _ \<Rightarrow> Some project
      | ProjectInputAccepted project _ _ _ \<Rightarrow> Some project
      | ProjectInputDispatched project _ _ _ _ _ \<Rightarrow> Some project
      | ProjectOutputRecorded project _ _ _ _ _ \<Rightarrow> Some project
      | RemoteProjectCommandRequested _ _ project _ _ _ _ \<Rightarrow> Some project
      | RemoteProjectCommandReceipt _ _ project _ _ \<Rightarrow> Some project
      | RemoteProjectCommandOutcome _ _ project _ _ \<Rightarrow> Some project
      | _ \<Rightarrow> None)"

definition project_id_of :: "SemanticFact \<Rightarrow> ProjectId option" where
  "project_id_of f = payload_project_id (payload f)"

definition is_remote :: "SemanticPayload \<Rightarrow> bool" where
  "is_remote p =
     (case p of
        RemoteProjectCommandRequested _ _ _ _ _ _ _ \<Rightarrow> True
      | RemoteProjectCommandReceipt _ _ _ _ _ \<Rightarrow> True
      | RemoteProjectCommandOutcome _ _ _ _ _ \<Rightarrow> True
      | _ \<Rightarrow> False)"

definition is_creation :: "SemanticFact \<Rightarrow> bool" where
  "is_creation f = (case payload f of ProjectCreated _ _ _ _ _ _ _ _ _ \<Rightarrow> True | _ \<Rightarrow> False)"

text \<open>The guard under which the source treats a fact that is no creation as a step of its project.\<close>

definition is_home_transition :: "SemanticFact \<Rightarrow> bool" where
  "is_home_transition f \<longleftrightarrow> \<not> is_creation f \<and> project_id_of f \<noteq> None \<and> \<not> is_remote (payload f)"

definition payload_message :: "SemanticPayload \<Rightarrow> MessageContent option" where
  "payload_message p =
     (case p of
        QuestionAsked message \<Rightarrow> Some message
      | AsynchronousMessageSent _ message \<Rightarrow> Some message
      | AnswerGiven _ message \<Rightarrow> Some message
      | ProjectOutputRecorded _ _ _ _ _ message \<Rightarrow> Some message
      | _ \<Rightarrow> None)"

definition project_input_message :: "SemanticPayload \<Rightarrow> MessageContent option" where
  "project_input_message p =
     (case p of
        QuestionAsked message \<Rightarrow> if mc_purpose message = Question then Some message else None
      | AsynchronousMessageSent _ message \<Rightarrow> if mc_purpose message = Asynchronous then Some message else None
      | _ \<Rightarrow> None)"

text \<open>Some parent of the fact is projected and has the given shape.\<close>

definition cites_projected :: "(SemanticFact \<Rightarrow> bool) \<Rightarrow> SemanticFact \<Rightarrow> 'r ReductionContext \<Rightarrow> bool" where
  "cites_projected shape f ctx =
     list_ex (\<lambda>parent. case context_fact ctx parent of
         Some candidate \<Rightarrow> is_projected ctx (fact_id candidate) \<and> shape candidate
       | None \<Rightarrow> False) (sorted_list_of_fset (fact_parents f))"

definition valid_project_home :: "SemanticFact \<Rightarrow> InstallationId \<Rightarrow> 'r ReductionContext \<Rightarrow> bool" where
  "valid_project_home f home ctx =
     (case Option.bind (authority_of (causal f) ProjectHome) (context_fact ctx) of
        Some root \<Rightarrow> is_projected ctx (fact_id root) \<and> author root = author f \<and> declares_installation home root
      | None \<Rightarrow> False)"

definition valid_active_human :: "SemanticFact \<Rightarrow> 'r ReductionContext \<Rightarrow> bool" where
  "valid_active_human f ctx =
     (case authority_of (causal f) ActiveHuman of
        Some active \<Rightarrow> authority_of (causal f) AccountMembership = Some active \<and> is_projected ctx active
      | None \<Rightarrow> False)"

definition require_active_human :: "SemanticFact \<Rightarrow> 'r ReductionContext \<Rightarrow> ClassificationError + unit" where
  "require_active_human f ctx = check (valid_active_human f ctx) (invalid ProjectAuthorityMismatch)"

definition claims_from_home :: "AgentId \<Rightarrow> InstallationId \<Rightarrow> SemanticFact \<Rightarrow> MailboxAddress option" where
  "claims_from_home agent home f =
     (case payload f of
        AgentNameClaimed candidate mailbox _ \<Rightarrow>
          if candidate = agent \<and> author_id f = home then Some (MailboxAddress home mailbox) else None
      | _ \<Rightarrow> None)"

definition unique_agent_mailbox ::
  "AgentId \<Rightarrow> InstallationId \<Rightarrow> 'r ReductionContext \<Rightarrow> MailboxAddress option" where
  "unique_agent_mailbox agent home ctx = sole (List.map_filter (claims_from_home agent home) (projected_facts ctx))"

definition valid_agent_parent ::
  "SemanticFact \<Rightarrow> AgentId \<Rightarrow> InstallationId \<Rightarrow> 'r ReductionContext \<Rightarrow> bool" where
  "valid_agent_parent f agent home ctx =
     (case unique_agent_mailbox agent home ctx of
        None \<Rightarrow> False
      | Some mailbox \<Rightarrow>
          cites_projected (\<lambda>c. case payload c of
              AgentNameClaimed candidate mailbox_id _ \<Rightarrow> candidate = agent \<and> mailbox_id = ma_mailbox_id mailbox
            | _ \<Rightarrow> False) f ctx
          \<and> \<not> list_ex (\<lambda>c. (case payload c of AgentRetired retired _ \<Rightarrow> retired = agent | _ \<Rightarrow> False)
                           \<and> \<not> structurally_reaches (ctx_graph ctx) (fact_id f) (fact_id c))
                (projected_facts ctx))"

definition valid_project_thread ::
  "SemanticFact \<Rightarrow> ThreadId \<Rightarrow> ProjectId \<Rightarrow> InstallationId \<Rightarrow> MailboxId \<Rightarrow> 'r ReductionContext \<Rightarrow> bool" where
  "valid_project_thread f thread project home mailbox ctx =
     cites_projected (\<lambda>c. fact_id c = thread \<and>
         (case payload_message (payload c) of
            Some message \<Rightarrow>
              mc_project_id message = Some project \<and> mc_recipient message = Some (MailboxAddress home mailbox)
          | None \<Rightarrow> False)) f ctx"

definition valid_project_input ::
  "SemanticFact \<Rightarrow> FactId \<Rightarrow> MessageId \<Rightarrow> InternalProjectState \<Rightarrow> 'r ReductionContext \<Rightarrow> bool" where
  "valid_project_input f input_fact message_id project ctx \<longleftrightarrow>
     input_fact |\<in>| fact_parents f
     \<and> (case context_fact ctx input_fact of
          Some candidate \<Rightarrow>
            is_projected ctx (fact_id candidate)
            \<and> scope candidate = AccountAddressed (pst_account_id project)
            \<and> (case project_input_message (payload candidate) of
                 Some message \<Rightarrow>
                   mc_message_id message = message_id
                   \<and> mc_project_id message = Some (pst_project_id project)
                   \<and> mc_recipient message = Some (MailboxAddress (pst_home project) (pst_mailbox_id project))
               | None \<Rightarrow> False)
        | None \<Rightarrow> False)"

definition valid_acceptance_parent ::
  "SemanticFact \<Rightarrow> MessageId \<Rightarrow> nat \<Rightarrow> 'r ReductionContext \<Rightarrow> bool" where
  "valid_acceptance_parent f message_id sequence ctx =
     cites_projected (\<lambda>c. case payload c of
         ProjectInputAccepted _ candidate_message _ candidate_sequence \<Rightarrow>
           candidate_message = message_id \<and> candidate_sequence = sequence
       | _ \<Rightarrow> False) f ctx"

definition valid_dispatch_parent ::
  "SemanticFact \<Rightarrow> DispatchId \<Rightarrow> AssignmentBinding \<Rightarrow> ThreadId \<Rightarrow> 'r ReductionContext \<Rightarrow> bool" where
  "valid_dispatch_parent f dispatch binding thread ctx =
     cites_projected (\<lambda>c. case payload c of
         ProjectInputDispatched _ _ _ candidate_dispatch candidate_binding candidate_thread \<Rightarrow>
           candidate_dispatch = dispatch \<and> candidate_binding = binding \<and> candidate_thread = thread
       | _ \<Rightarrow> False) f ctx"

section \<open>Transitions\<close>

text \<open>
  One operation per arm of \<open>apply_payload\<close>. Each takes the state before the fact and returns the
  state after it or the reason why the fact is refused.
\<close>

type_synonym TransitionResult = "ClassificationError + InternalProjectState"

definition open_project :: "SemanticFact \<Rightarrow> 'r ReductionContext \<Rightarrow> InternalProjectState \<Rightarrow> TransitionResult" where
  "open_project f ctx st =
     and_then (require_active_human f ctx) (\<lambda>_.
       if pst_lifecycle st \<noteq> Closed \<or> pst_archived st then Err (invalid InvalidTransition)
       else Ok (st\<lparr>pst_lifecycle := Open\<rparr>))"

definition start_closing :: "SemanticFact \<Rightarrow> 'r ReductionContext \<Rightarrow> InternalProjectState \<Rightarrow> TransitionResult" where
  "start_closing f ctx st =
     and_then (require_active_human f ctx) (\<lambda>_.
       if pst_lifecycle st \<noteq> Open then Err (invalid InvalidTransition)
       else Ok (st\<lparr>pst_lifecycle := Closing\<rparr>))"

definition close_project :: "SemanticFact \<Rightarrow> 'r ReductionContext \<Rightarrow> InternalProjectState \<Rightarrow> TransitionResult" where
  "close_project f ctx st =
     and_then (require_active_human f ctx) (\<lambda>_.
       if pst_lifecycle st \<noteq> Closing \<or> pst_assignment st \<noteq> None then Err (invalid InvalidTransition)
       else Ok (st\<lparr>pst_lifecycle := Closed\<rparr>))"

definition archive_project :: "SemanticFact \<Rightarrow> 'r ReductionContext \<Rightarrow> InternalProjectState \<Rightarrow> TransitionResult" where
  "archive_project f ctx st =
     and_then (require_active_human f ctx) (\<lambda>_.
       if pst_lifecycle st \<noteq> Closed \<or> pst_archived st \<or> pst_assignment st \<noteq> None
       then Err (invalid InvalidTransition)
       else Ok (st\<lparr>pst_archived := True\<rparr>))"

definition unarchive_project :: "SemanticFact \<Rightarrow> 'r ReductionContext \<Rightarrow> InternalProjectState \<Rightarrow> TransitionResult" where
  "unarchive_project f ctx st =
     and_then (require_active_human f ctx) (\<lambda>_.
       if pst_lifecycle st \<noteq> Closed \<or> \<not> pst_archived st then Err (invalid InvalidTransition)
       else Ok (st\<lparr>pst_archived := False\<rparr>))"

definition update_metadata ::
  "ShortText \<Rightarrow> ContentText option \<Rightarrow> SemanticFact \<Rightarrow> 'r ReductionContext \<Rightarrow> InternalProjectState \<Rightarrow> TransitionResult" where
  "update_metadata name brief f ctx st =
     and_then (require_active_human f ctx) (\<lambda>_.
       if name = [] then Err (invalid InvalidTransition)
       else Ok (st\<lparr>pst_name := name, pst_brief := brief\<rparr>))"

definition add_resource ::
  "ProjectResource \<Rightarrow> bool \<Rightarrow> SemanticFact \<Rightarrow> 'r ReductionContext \<Rightarrow> InternalProjectState \<Rightarrow> TransitionResult" where
  "add_resource resource make_primary f ctx st =
     and_then (require_active_human f ctx) (\<lambda>_.
       if \<not> valid_path_resource resource \<or> pr_resource_id resource |\<in>| fmdom (pst_resources st)
       then Err (invalid ResourceInvariant)
       else Ok (st\<lparr>pst_resources := fmupd (pr_resource_id resource) resource (pst_resources st),
                   pst_primary := if make_primary then Some (pr_resource_id resource) else pst_primary st\<rparr>))"

definition first_key :: "('k::linorder, 'v) fmap \<Rightarrow> 'k option" where
  "first_key m = (case sorted_list_of_fset (fmdom m) of k # _ \<Rightarrow> Some k | [] \<Rightarrow> None)"

definition remove_resource ::
  "ResourceId \<Rightarrow> bool \<Rightarrow> SemanticFact \<Rightarrow> 'r ReductionContext \<Rightarrow> InternalProjectState \<Rightarrow> TransitionResult" where
  "remove_resource resource force f ctx st =
     and_then (require_active_human f ctx) (\<lambda>_.
       if resource |\<notin>| fmdom (pst_resources st) \<or> (pst_assignment st \<noteq> None \<and> \<not> force)
       then Err (invalid ResourceInvariant)
       else
         let remaining = fmdrop resource (pst_resources st)
         in Ok (st\<lparr>pst_resources := remaining,
                   pst_primary := if pst_primary st = Some resource then first_key remaining else pst_primary st\<rparr>))"

definition replace_resource ::
  "ResourceId \<Rightarrow> ProjectResource \<Rightarrow> SemanticFact \<Rightarrow> 'r ReductionContext \<Rightarrow> InternalProjectState \<Rightarrow> TransitionResult" where
  "replace_resource old new f ctx st =
     and_then (require_active_human f ctx) (\<lambda>_.
       if \<not> valid_path_resource new \<or> old |\<notin>| fmdom (pst_resources st)
          \<or> (old \<noteq> pr_resource_id new \<and> pr_resource_id new |\<in>| fmdom (pst_resources st))
       then Err (invalid ResourceInvariant)
       else Ok (st\<lparr>pst_resources := fmupd (pr_resource_id new) new (fmdrop old (pst_resources st)),
                   pst_primary := if pst_primary st = Some old then Some (pr_resource_id new) else pst_primary st\<rparr>))"

definition change_primary ::
  "ResourceId \<Rightarrow> SemanticFact \<Rightarrow> 'r ReductionContext \<Rightarrow> InternalProjectState \<Rightarrow> TransitionResult" where
  "change_primary resource f ctx st =
     and_then (require_active_human f ctx) (\<lambda>_.
       if resource |\<notin>| fmdom (pst_resources st) then Err (invalid ResourceInvariant)
       else Ok (st\<lparr>pst_primary := Some resource\<rparr>))"

definition observe_health :: "ResourceId \<Rightarrow> ResourceHealth \<Rightarrow> InternalProjectState \<Rightarrow> TransitionResult" where
  "observe_health resource health st =
     (case fmlookup (pst_resources st) resource of
        None \<Rightarrow> Err (invalid ResourceInvariant)
      | Some found \<Rightarrow>
          Ok (st\<lparr>pst_resources := fmupd resource (found\<lparr>pr_health := health\<rparr>) (pst_resources st)\<rparr>))"

definition configure_assignment ::
  "AssignmentIntent \<Rightarrow> SemanticFact \<Rightarrow> 'r ReductionContext \<Rightarrow> InternalProjectState \<Rightarrow> TransitionResult" where
  "configure_assignment intent f ctx st =
     and_then (require_active_human f ctx) (\<lambda>_.
       if pst_lifecycle st \<noteq> Open \<or> pst_assignment st \<noteq> None then Err (invalid InvalidTransition)
       else if \<not> valid_agent_parent f (ai_agent_id intent) (pst_home st) ctx
       then Err (invalid AssignmentBindingMismatch)
       else Ok (st\<lparr>pst_assignment := Some \<lparr>asg_intent = intent, asg_binding = None, asg_phase = Configuring,
                     asg_support = {|fact_id f|}\<rparr>\<rparr>))"

fun awaits_runtime :: "ProjectAssignmentPhase \<Rightarrow> bool" where
  "awaits_runtime Configuring = True"
| "awaits_runtime (Runnable _ _) = False"
| "awaits_runtime (Blocked _) = True"

definition run_assignment ::
  "AssignmentBinding \<Rightarrow> ThreadId \<Rightarrow> ResourceLocator \<Rightarrow> SemanticFact \<Rightarrow> 'r ReductionContext \<Rightarrow>
     InternalProjectState \<Rightarrow> TransitionResult" where
  "run_assignment binding thread launch_directory f ctx st =
     (case pst_assignment st of
        None \<Rightarrow> Err (invalid AssignmentBindingMismatch)
      | Some assignment \<Rightarrow>
          if ai_assignment_id (asg_intent assignment) \<noteq> ab_assignment_id binding
             \<or> ai_agent_id (asg_intent assignment) \<noteq> ab_agent_id binding
             \<or> ai_provider (asg_intent assignment) \<noteq> ab_provider binding
             \<or> \<not> awaits_runtime (asg_phase assignment)
             \<or> \<not> valid_agent_parent f (ab_agent_id binding) (pst_home st) ctx
             \<or> \<not> valid_project_thread f thread (pst_project_id st) (pst_home st) (pst_mailbox_id st) ctx
          then Err (invalid AssignmentBindingMismatch)
          else Ok (st\<lparr>pst_assignment := Some (assignment\<lparr>asg_binding := Some binding,
                        asg_phase := Runnable thread launch_directory,
                        asg_support := finsert (fact_id f) (asg_support assignment)\<rparr>)\<rparr>))"

definition block_assignment ::
  "AssignmentId \<Rightarrow> ErrorCode \<Rightarrow> SemanticFact \<Rightarrow> InternalProjectState \<Rightarrow> TransitionResult" where
  "block_assignment assignment_id cause f st =
     (case pst_assignment st of
        None \<Rightarrow> Err (invalid AssignmentBindingMismatch)
      | Some assignment \<Rightarrow>
          if ai_assignment_id (asg_intent assignment) \<noteq> assignment_id
          then Err (invalid AssignmentBindingMismatch)
          else Ok (st\<lparr>pst_assignment := Some (assignment\<lparr>asg_phase := Blocked cause,
                        asg_support := finsert (fact_id f) (asg_support assignment)\<rparr>)\<rparr>))"

definition end_assignment ::
  "AssignmentId \<Rightarrow> bool \<Rightarrow> SemanticFact \<Rightarrow> 'r ReductionContext \<Rightarrow> InternalProjectState \<Rightarrow> TransitionResult" where
  "end_assignment assignment_id forced f ctx st =
     and_then (if forced then require_active_human f ctx else Ok ()) (\<lambda>_.
       if (case pst_assignment st of
             None \<Rightarrow> True | Some assignment \<Rightarrow> ai_assignment_id (asg_intent assignment) \<noteq> assignment_id)
       then Err (invalid AssignmentBindingMismatch)
       else Ok (st\<lparr>pst_assignment := None\<rparr>))"

definition accept_input ::
  "MessageId \<Rightarrow> FactId \<Rightarrow> nat \<Rightarrow> SemanticFact \<Rightarrow> 'r ReductionContext \<Rightarrow> InternalProjectState \<Rightarrow> TransitionResult" where
  "accept_input message_id input_fact sequence f ctx st =
     (if sequence \<noteq> pst_input_sequence st + 1 \<or> \<not> valid_project_input f input_fact message_id st ctx
      then Err (invalid InputSequenceConflict)
      else Ok (st\<lparr>pst_input_sequence := sequence\<rparr>))"

definition dispatch_input ::
  "MessageId \<Rightarrow> nat \<Rightarrow> AssignmentBinding \<Rightarrow> ThreadId \<Rightarrow> SemanticFact \<Rightarrow> 'r ReductionContext \<Rightarrow>
     InternalProjectState \<Rightarrow> TransitionResult" where
  "dispatch_input message_id sequence binding thread f ctx st =
     (case pst_assignment st of
        None \<Rightarrow> Err (invalid AssignmentBindingMismatch)
      | Some assignment \<Rightarrow>
          if pst_lifecycle st \<noteq> Open \<or> asg_binding assignment \<noteq> Some binding
             \<or> (case asg_phase assignment of Runnable active _ \<Rightarrow> active \<noteq> thread | _ \<Rightarrow> True)
             \<or> \<not> valid_acceptance_parent f message_id sequence ctx
          then Err (invalid DispatchConflict)
          else Ok st)"

definition record_output ::
  "DispatchId \<Rightarrow> AssignmentBinding \<Rightarrow> ThreadId \<Rightarrow> MessageContent \<Rightarrow> SemanticFact \<Rightarrow> 'r ReductionContext \<Rightarrow>
     InternalProjectState \<Rightarrow> TransitionResult" where
  "record_output dispatch binding thread message f ctx st =
     (if \<not> valid_dispatch_parent f dispatch binding thread ctx
         \<or> mc_recipient message \<noteq> Some (MailboxAddress (pst_home st) (pst_mailbox_id st))
         \<or> unique_agent_mailbox (ab_agent_id binding) (pst_home st) ctx \<noteq> Some (mc_sender message)
      then Err (invalid OutputConflict)
      else Ok st)"

definition transition :: "SemanticFact \<Rightarrow> 'r ReductionContext \<Rightarrow> InternalProjectState \<Rightarrow> TransitionResult" where
  "transition f ctx st =
     (case payload f of
        ProjectOpened _ \<Rightarrow> open_project f ctx st
      | ProjectClosingStarted _ \<Rightarrow> start_closing f ctx st
      | ProjectClosed _ _ _ \<Rightarrow> close_project f ctx st
      | ProjectArchived _ \<Rightarrow> archive_project f ctx st
      | ProjectUnarchived _ \<Rightarrow> unarchive_project f ctx st
      | ProjectMetadataUpdated _ name brief \<Rightarrow> update_metadata name brief f ctx st
      | ProjectResourceAdded _ resource make_primary \<Rightarrow> add_resource resource make_primary f ctx st
      | ProjectResourceRemoved _ resource force \<Rightarrow> remove_resource resource force f ctx st
      | ProjectResourceReplaced _ old new \<Rightarrow> replace_resource old new f ctx st
      | ProjectPrimaryResourceChanged _ resource \<Rightarrow> change_primary resource f ctx st
      | ProjectResourceHealthObserved _ resource health _ _ \<Rightarrow> observe_health resource health st
      | ProjectAssignmentConfiguring _ intent \<Rightarrow> configure_assignment intent f ctx st
      | ProjectAssignmentRunnable _ binding thread launch_directory _ \<Rightarrow>
          run_assignment binding thread launch_directory f ctx st
      | ProjectAssignmentBlocked _ assignment cause \<Rightarrow> block_assignment assignment cause f st
      | ProjectAssignmentEnded _ assignment forced _ \<Rightarrow> end_assignment assignment forced f ctx st
      | ProjectInputAccepted _ message input_fact sequence \<Rightarrow> accept_input message input_fact sequence f ctx st
      | ProjectInputDispatched _ message sequence _ binding thread \<Rightarrow>
          dispatch_input message sequence binding thread f ctx st
      | ProjectOutputRecorded _ _ dispatch binding thread message \<Rightarrow>
          record_output dispatch binding thread message f ctx st
      | _ \<Rightarrow> Ok st)"

definition apply_payload :: "SemanticFact \<Rightarrow> 'r ReductionContext \<Rightarrow> InternalProjectState \<Rightarrow> TransitionResult" where
  "apply_payload f ctx st = and_then (transition f ctx st) (\<lambda>st'. Ok (st'\<lparr>pst_head := fact_id f\<rparr>))"

section \<open>Replay\<close>

definition created_state :: "SemanticFact \<Rightarrow> InternalProjectState option" where
  "created_state f =
     (case payload f of
        ProjectCreated project mailbox home name brief predecessor resources primary initial \<Rightarrow>
          (case scope f of
             AccountAddressed account \<Rightarrow>
               Some \<lparr>pst_project_id = project, pst_root = fact_id f, pst_head = fact_id f, pst_home = home,
                 pst_account_id = account, pst_mailbox_id = mailbox, pst_predecessor = predecessor, pst_name = name,
                 pst_brief = brief,
                 pst_resources = fold (\<lambda>r. fmupd (pr_resource_id r) r) resources fmempty,
                 pst_primary = primary,
                 pst_lifecycle = (case initial of InitiallyOpen \<Rightarrow> Open | InitiallyClosed \<Rightarrow> Closed),
                 pst_archived = False, pst_assignment = None, pst_input_sequence = 0\<rparr>
           | _ \<Rightarrow> None)
      | _ \<Rightarrow> None)"

definition step_state ::
  "SemanticFact \<Rightarrow> 'r ReductionContext \<Rightarrow> InternalProjectState option \<Rightarrow> InternalProjectState option" where
  "step_state f ctx previous =
     (case previous of
        None \<Rightarrow> None
      | Some st \<Rightarrow> (case apply_payload f ctx st of Err _ \<Rightarrow> None | Ok st' \<Rightarrow> Some st'))"

text \<open>The outer option tells whether the recursion returns, the inner one is the source's result.\<close>

partial_function (option) replay :: "'r ReductionContext \<Rightarrow> FactId \<Rightarrow> InternalProjectState option option" where
  "replay ctx i =
     (case context_fact ctx i of
        None \<Rightarrow> Some None
      | Some f \<Rightarrow>
          if \<not> is_projected ctx i then Some None
          else if is_creation f then Some (created_state f)
          else if is_home_transition f then
            (case authority_of (causal f) PreviousState of
               None \<Rightarrow> Some None
             | Some previous \<Rightarrow> Option.bind (replay ctx previous) (\<lambda>found. Some (step_state f ctx found)))
          else Some None)"

declare replay.simps [code]

definition state_at :: "'r ReductionContext \<Rightarrow> FactId \<Rightarrow> InternalProjectState option" where
  "state_at ctx i = (case replay ctx i of Some found \<Rightarrow> found | None \<Rightarrow> None)"

definition next_facts :: "'r ReductionContext \<Rightarrow> InternalProjectState \<Rightarrow> SemanticFact list" where
  "next_facts ctx st =
     filter (\<lambda>c. is_projected ctx (fact_id c) \<and> authority_of (causal c) PreviousState = Some (pst_head st)
                \<and> project_id_of c = Some (pst_project_id st))
       (fact_set_facts (ctx_facts ctx))"

text \<open>The loop of \<open>final_states\<close> that follows the only child of the head; \<open>None\<close> if it does not end.\<close>

partial_function (option) advance ::
  "'r ReductionContext \<Rightarrow> InternalProjectState \<Rightarrow> InternalProjectState option" where
  "advance ctx st =
     (case next_facts ctx st of
        [child] \<Rightarrow>
          (case state_at ctx (fact_id child) of
             None \<Rightarrow> Some st
           | Some next_state \<Rightarrow> advance ctx next_state)
      | _ \<Rightarrow> Some st)"

declare advance.simps [code]

definition final_states :: "'r ReductionContext \<Rightarrow> (ProjectId, InternalProjectState) fmap" where
  "final_states ctx =
     fold (\<lambda>root states.
         case Option.bind (state_at ctx (fact_id root)) (advance ctx) of
           None \<Rightarrow> states
         | Some st \<Rightarrow> fmupd (pst_project_id st) st states)
       (filter (\<lambda>f. is_projected ctx (fact_id f) \<and> is_creation f) (fact_set_facts (ctx_facts ctx))) fmempty"

section \<open>Identities and forks\<close>

datatype StableIdentity =
    InputIdentity ProjectId MessageId FactId nat
  | DispatchIdentity ProjectId MessageId nat DispatchId
  | OutputIdentity MessageId

definition identity_matches :: "StableIdentity \<Rightarrow> SemanticFact \<Rightarrow> bool" where
  "identity_matches identity candidate =
     (case identity of
        InputIdentity project message input_fact sequence \<Rightarrow>
          (case payload candidate of
             ProjectInputAccepted candidate_project candidate_message candidate_input candidate_sequence \<Rightarrow>
               candidate_project = project
               \<and> (candidate_message = message \<or> candidate_input = input_fact \<or> candidate_sequence = sequence)
           | _ \<Rightarrow> False)
      | DispatchIdentity project message sequence dispatch \<Rightarrow>
          (case payload candidate of
             ProjectInputDispatched candidate_project candidate_message candidate_sequence candidate_dispatch _ _ \<Rightarrow>
               candidate_project = project
               \<and> (candidate_dispatch = dispatch \<or> candidate_message = message \<or> candidate_sequence = sequence)
           | _ \<Rightarrow> False)
      | OutputIdentity output \<Rightarrow>
          (case payload candidate of
             ProjectOutputRecorded _ candidate_output _ _ _ _ \<Rightarrow> candidate_output = output
           | _ \<Rightarrow> False))"

definition stable_identity :: "SemanticFact \<Rightarrow> (ProjectReason \<times> StableIdentity) option" where
  "stable_identity f =
     (case payload f of
        ProjectInputAccepted project message input_fact sequence \<Rightarrow>
          Some (InputSequenceConflict, InputIdentity project message input_fact sequence)
      | ProjectInputDispatched project message sequence dispatch _ _ \<Rightarrow>
          Some (DispatchConflict, DispatchIdentity project message sequence dispatch)
      | ProjectOutputRecorded _ output _ _ _ _ \<Rightarrow> Some (OutputConflict, OutputIdentity output)
      | _ \<Rightarrow> None)"

definition stable_identity_conflict :: "SemanticFact \<Rightarrow> 'r ReductionContext \<Rightarrow> ClassificationError option" where
  "stable_identity_conflict f ctx =
     (case stable_identity f of
        None \<Rightarrow> None
      | Some (reason, identity) \<Rightarrow>
          let participants = finsert (fact_id f) (fset_of_list (map fact_id
                (filter (\<lambda>c. identity_matches identity c \<and> payload c \<noteq> payload f)
                  (fact_set_facts (ctx_facts ctx)))))
          in if fcard participants > 1 then Some (reason, participants) else None)"

fun ruled_out :: "DecisionStatus \<Rightarrow> bool" where
  "ruled_out Projected = False"
| "ruled_out Conflicted = False"
| "ruled_out _ = True"

definition sibling_participants ::
  "SemanticFact \<Rightarrow> ProjectId \<Rightarrow> FactId \<Rightarrow> 'r ReductionContext \<Rightarrow> FactId fset" where
  "sibling_participants f project previous ctx =
     finsert (fact_id f) (fset_of_list (map fact_id
       (filter (\<lambda>c. project_id_of c = Some project \<and> authority_of (causal c) PreviousState = Some previous
                   \<and> fact_id c \<noteq> fact_id f
                   \<and> \<not> (case fmlookup (ctx_decisions ctx) (fact_id c) of
                          Some decision \<Rightarrow> ruled_out (fd_status decision) | None \<Rightarrow> False))
         (fact_set_facts (ctx_facts ctx)))))"

fun holds_claims :: "ProjectLifecycle \<Rightarrow> bool" where
  "holds_claims Open = True"
| "holds_claims Closing = True"
| "holds_claims Closed = False"

definition resource_values :: "InternalProjectState \<Rightarrow> ProjectResource list" where
  "resource_values st = map snd (sorted_list_of_fmap (pst_resources st))"

definition claim_conflict_participants ::
  "InternalProjectState \<Rightarrow> FactId \<Rightarrow> 'r ReductionContext \<Rightarrow> ResourceConflictPolicy \<Rightarrow> FactId fset" where
  "claim_conflict_participants candidate candidate_fact ctx overlaps =
     fset_of_list (concat (map (\<lambda>(_, other).
         if pst_project_id other = pst_project_id candidate \<or> pst_home other \<noteq> pst_home candidate
            \<or> \<not> holds_claims (pst_lifecycle other)
         then []
         else if list_ex (\<lambda>left. list_ex (\<lambda>right. overlaps (pr_canonical_locator left) (pr_canonical_locator right))
                (resource_values other)) (resource_values candidate)
         then [candidate_fact, pst_head other]
         else [])
       (sorted_list_of_fmap (final_states ctx))))"

section \<open>Classification\<close>

definition is_account_addressed :: "FactScope \<Rightarrow> bool" where
  "is_account_addressed s = (case s of AccountAddressed _ \<Rightarrow> True | _ \<Rightarrow> False)"

definition creates_project :: "ProjectId \<Rightarrow> SemanticFact \<Rightarrow> bool" where
  "creates_project project c = (case payload c of ProjectCreated p _ _ _ _ _ _ _ _ \<Rightarrow> p = project | _ \<Rightarrow> False)"

definition shares_project_identity :: "ProjectId \<Rightarrow> InstallationId \<Rightarrow> MailboxId \<Rightarrow> SemanticFact \<Rightarrow> bool" where
  "shares_project_identity project home mailbox c =
     (case payload c of
        ProjectCreated candidate candidate_mailbox candidate_home _ _ _ _ _ _ \<Rightarrow>
          candidate = project \<or> (candidate_home = home \<and> candidate_mailbox = mailbox)
      | _ \<Rightarrow> False)"

definition validate_creation :: "SemanticFact \<Rightarrow> 'r ReductionContext \<Rightarrow> ClassificationError + unit" where
  "validate_creation f ctx =
     (case payload f of
        ProjectCreated project mailbox home name _ predecessor resources primary _ \<Rightarrow>
          if author_id f \<noteq> home \<or> \<not> is_account_addressed (scope f) \<or> name = []
             \<or> \<not> valid_project_home f home ctx \<or> \<not> valid_active_human f ctx
          then Err (invalid ProjectAuthorityMismatch)
          else
            let resource_ids = fset_of_list (map pr_resource_id resources) in
            if fcard resource_ids \<noteq> length resources \<or> list_ex (\<lambda>r. \<not> valid_path_resource r) resources
               \<or> (case primary of Some i \<Rightarrow> i |\<notin>| resource_ids | None \<Rightarrow> False)
            then Err (invalid ResourceInvariant)
            else if (case predecessor of
                       Some p \<Rightarrow> \<not> cites_projected (creates_project p) f ctx | None \<Rightarrow> False)
            then Err (invalid ProjectSubjectMismatch)
            else
              let participants = fset_of_list (map fact_id
                    (filter (shares_project_identity project home mailbox) (fact_set_facts (ctx_facts ctx))))
              in if fcard participants > 1 then Err (ProjectIdentityConflict, participants) else Ok ()
      | _ \<Rightarrow> Ok ())"

definition opens_project :: "SemanticFact \<Rightarrow> bool" where
  "opens_project f = (case payload f of ProjectOpened _ \<Rightarrow> True | _ \<Rightarrow> False)"

definition validate_home_transition ::
  "SemanticFact \<Rightarrow> 'r ReductionContext \<Rightarrow> ResourceConflictPolicy \<Rightarrow> ClassificationError + unit" where
  "validate_home_transition f ctx overlaps =
     and_then (ok_or (invalid ProjectSubjectMismatch) (project_id_of f)) (\<lambda>project.
     and_then (ok_or (invalid ProjectAuthorityMismatch) (authority_of (causal f) PreviousState)) (\<lambda>previous.
       if previous |\<notin>| fact_parents f \<or> \<not> is_projected ctx previous then Err (invalid StaleHead)
       else
         case state_at ctx previous of
           None \<Rightarrow> Err (invalid StaleHead)
         | Some st \<Rightarrow>
             if pst_project_id st \<noteq> project then Err (invalid StaleHead)
             else if author_id f \<noteq> pst_home st \<or> \<not> valid_project_home f (pst_home st) ctx
             then Err (invalid ProjectAuthorityMismatch)
             else
               case stable_identity_conflict f ctx of
                 Some conflict \<Rightarrow> Err conflict
               | None \<Rightarrow>
                   let participants = sibling_participants f project previous ctx in
                   if fcard participants > 1 then Err (HomeLinearFork, participants)
                   else and_then (apply_payload f ctx st) (\<lambda>st'.
                     if opens_project f then
                       let conflicts = claim_conflict_participants st' (fact_id f) ctx overlaps in
                       if conflicts \<noteq> {||} then Err (ResourceClaimConflict, conflicts) else Ok ()
                     else Ok ())))"

end
