(* ===== verification/Project_Views.thy ===== *)
theory Project_Views
  imports Project
begin

text \<open>
  The project policy, second part: remote commands, the decision of the policy, aggregate keys,
  and the projections and conflicts derived from the replayed projects
  (\<open>hq-reducer/src/project.rs\<close>).
\<close>

section \<open>Remote commands\<close>

definition requests_command :: "CommandId \<Rightarrow> SemanticFact \<Rightarrow> bool" where
  "requests_command command c =
     (case payload c of RemoteProjectCommandRequested candidate _ _ _ _ _ _ \<Rightarrow> candidate = command | _ \<Rightarrow> False)"

definition same_remote_request :: "SemanticFact \<Rightarrow> SemanticFact \<Rightarrow> bool" where
  "same_remote_request first other \<longleftrightarrow>
     payload first = payload other \<and> scope first = scope other \<and> authored_at first = authored_at other"

definition remote_identity_participants :: "CommandId \<Rightarrow> 'r ReductionContext \<Rightarrow> FactId fset" where
  "remote_identity_participants command ctx =
     (let requests = facts_where ctx (requests_command command) in
      case requests of
        [] \<Rightarrow> {||}
      | first # _ \<Rightarrow>
          if list_ex (\<lambda>request. \<not> same_remote_request first request) requests
          then fset_of_list (map fact_id requests) else {||})"

definition requests_exactly :: "CommandId \<Rightarrow> CommandDigest \<Rightarrow> ProjectId \<Rightarrow> SemanticFact \<Rightarrow> bool" where
  "requests_exactly command digest project c =
     (case payload c of
        RemoteProjectCommandRequested candidate candidate_digest candidate_project _ _ _ _ \<Rightarrow>
          candidate = command \<and> candidate_digest = digest \<and> candidate_project = project
      | _ \<Rightarrow> False)"

definition receives_exactly :: "CommandId \<Rightarrow> CommandDigest \<Rightarrow> ProjectId \<Rightarrow> SemanticFact \<Rightarrow> bool" where
  "receives_exactly command digest project c =
     (case payload c of
        RemoteProjectCommandReceipt candidate candidate_digest candidate_project _ _ \<Rightarrow>
          candidate = command \<and> candidate_digest = digest \<and> candidate_project = project
      | _ \<Rightarrow> False)"

definition remote_request_parent ::
  "SemanticFact \<Rightarrow> CommandId \<Rightarrow> CommandDigest \<Rightarrow> ProjectId \<Rightarrow> 'r ReductionContext \<Rightarrow> SemanticFact option" where
  "remote_request_parent f command digest project ctx =
     find (\<lambda>c. is_projected ctx (fact_id c) \<and> requests_exactly command digest project c)
       (List.map_filter (context_fact ctx) (sorted_list_of_fset (fact_parents f)))"

definition request_home :: "SemanticFact \<Rightarrow> InstallationId option" where
  "request_home f =
     (case payload f of RemoteProjectCommandRequested _ _ _ target_home _ _ _ \<Rightarrow> Some target_home | _ \<Rightarrow> None)"

text \<open>An optional head names a stored fact of the project.\<close>

definition head_of_project :: "FactId option \<Rightarrow> ProjectId \<Rightarrow> 'r ReductionContext \<Rightarrow> bool" where
  "head_of_project head project ctx =
     (case head of
        None \<Rightarrow> True
      | Some i \<Rightarrow> (case context_fact ctx i of Some f \<Rightarrow> project_id_of f = Some project | None \<Rightarrow> False))"

text \<open>A receipt or an outcome is written by the home the cited request addresses.\<close>

definition from_request_home :: "SemanticFact \<Rightarrow> SemanticFact \<Rightarrow> 'r ReductionContext \<Rightarrow> bool" where
  "from_request_home f request ctx =
     (case request_home request of
        Some target_home \<Rightarrow> author_id f = target_home \<and> valid_project_home f target_home ctx
      | None \<Rightarrow> False)"

definition committed_valid :: "SemanticFact \<Rightarrow> ProjectId \<Rightarrow> RemoteCommandResult \<Rightarrow> 'r ReductionContext \<Rightarrow> bool" where
  "committed_valid f project result ctx =
     (case result of
        Committed head \<Rightarrow>
          head |\<in>| fact_parents f
          \<and> (case context_fact ctx head of
               Some c \<Rightarrow> is_projected ctx (fact_id c) \<and> project_id_of c = Some project
             | None \<Rightarrow> False)
      | Rejected _ _ \<Rightarrow> True)"

definition validate_remote_control :: "SemanticFact \<Rightarrow> 'r ReductionContext \<Rightarrow> ClassificationError + unit" where
  "validate_remote_control f ctx =
     (case payload f of
        RemoteProjectCommandRequested command _ project target_home expected_head _ _ \<Rightarrow>
          if (case scope f of RemoteControl _ scope_home \<Rightarrow> scope_home \<noteq> target_home | _ \<Rightarrow> True)
             \<or> \<not> valid_active_human f ctx \<or> \<not> head_of_project expected_head project ctx
          then Err (invalid RemoteCommandConflict)
          else
            let participants = remote_identity_participants command ctx in
            if participants \<noteq> {||} then Err (RemoteCommandConflict, participants) else Ok ()
      | RemoteProjectCommandReceipt command digest project received_head _ \<Rightarrow>
          and_then (ok_or (invalid RemoteCommandConflict) (remote_request_parent f command digest project ctx)) (\<lambda>request.
            check (from_request_home f request ctx \<and> head_of_project received_head project ctx)
              (invalid RemoteCommandConflict))
      | RemoteProjectCommandOutcome command digest project result _ \<Rightarrow>
          and_then (ok_or (invalid RemoteCommandConflict) (remote_request_parent f command digest project ctx)) (\<lambda>request.
            check (from_request_home f request ctx
                   \<and> cites_projected (receives_exactly command digest project) f ctx
                   \<and> committed_valid f project result ctx)
              (invalid RemoteCommandConflict))
      | _ \<Rightarrow> Ok ())"

section \<open>The decision of the policy\<close>

definition classify_project_fact ::
  "SemanticFact \<Rightarrow> 'r ReductionContext \<Rightarrow> ResourceConflictPolicy \<Rightarrow> ClassificationError + unit" where
  "classify_project_fact f ctx overlaps =
     (if is_creation f then validate_creation f ctx
      else if is_home_transition f then validate_home_transition f ctx overlaps
      else if is_remote (payload f) then validate_remote_control f ctx
      else Ok ())"

fun is_conflict_reason :: "ProjectReason \<Rightarrow> bool" where
  "is_conflict_reason ProjectIdentityConflict = True"
| "is_conflict_reason HomeLinearFork = True"
| "is_conflict_reason ResourceClaimConflict = True"
| "is_conflict_reason AssignmentCardinalityConflict = True"
| "is_conflict_reason DispatchConflict = True"
| "is_conflict_reason OutputConflict = True"
| "is_conflict_reason RemoteCommandConflict = True"
| "is_conflict_reason _ = False"

definition project_classify ::
  "AuthorityPolicy \<Rightarrow> ResourceConflictPolicy \<Rightarrow> SemanticFact \<Rightarrow> ProjectReason ReductionContext \<Rightarrow>
     ProjectReason DomainDecision" where
  "project_classify policy overlaps f ctx =
     (let authority = classify_fact policy f ctx in
      if authority \<noteq> DomainProjected then map_authority_decision ProjectAuthority authority
      else
        case classify_project_fact f ctx overlaps of
          Ok _ \<Rightarrow> DomainProjected
        | Err (reason, participants) \<Rightarrow>
            if is_conflict_reason reason then DomainConflicted reason participants else DomainInvalid reason)"

definition project_aggregate_keys :: "SemanticFact \<Rightarrow> ProjectAggregateKey list" where
  "project_aggregate_keys f =
     (case payload f of
        ProjectCreated project _ home _ _ _ resources _ initial \<Rightarrow>
          ProjectHistoryKey project
          # (if initial = InitiallyOpen then map (\<lambda>r. ResourceKey home (pr_canonical_locator r)) resources else [])
      | ProjectAssignmentConfiguring project intent \<Rightarrow>
          [ProjectHistoryKey project, AgentAssignmentKey (author_id f) (ai_agent_id intent)]
      | ProjectAssignmentRunnable project binding _ _ _ \<Rightarrow>
          [ProjectHistoryKey project, AgentAssignmentKey (author_id f) (ab_agent_id binding)]
      | ProjectInputAccepted project message _ _ \<Rightarrow> [ProjectHistoryKey project, InputKey message]
      | ProjectInputDispatched project _ _ dispatch _ _ \<Rightarrow> [ProjectHistoryKey project, DispatchKey dispatch]
      | ProjectOutputRecorded project output _ _ _ _ \<Rightarrow> [ProjectHistoryKey project, OutputKey output]
      | RemoteProjectCommandRequested command _ _ _ _ _ _ \<Rightarrow> [CommandKey command]
      | RemoteProjectCommandReceipt command _ _ _ _ \<Rightarrow> [CommandKey command]
      | RemoteProjectCommandOutcome command _ _ _ _ \<Rightarrow> [CommandKey command]
      | p \<Rightarrow> (case payload_project_id p of Some project \<Rightarrow> [ProjectHistoryKey project] | None \<Rightarrow> []))"

section \<open>Claims and assignments\<close>

fun later_pairs :: "'a list \<Rightarrow> ('a \<times> 'a) list" where
  "later_pairs [] = []"
| "later_pairs (x # xs) = map (Pair x) xs @ later_pairs xs"

definition state_values :: "(ProjectId, InternalProjectState) fmap \<Rightarrow> InternalProjectState list" where
  "state_values states = map snd (sorted_list_of_fmap states)"

definition pair_conflicts ::
  "ResourceConflictPolicy \<Rightarrow> InternalProjectState \<times> InternalProjectState \<Rightarrow> ((ProjectId \<times> ResourceId) \<times> ProjectId) list" where
  "pair_conflicts overlaps pair =
     (case pair of (left, right) \<Rightarrow>
        if pst_home left \<noteq> pst_home right \<or> pst_project_id left = pst_project_id right then []
        else concat (map (\<lambda>l. concat (map (\<lambda>r.
            if overlaps (pr_canonical_locator l) (pr_canonical_locator r)
            then [((pst_project_id left, pr_resource_id l), pst_project_id right),
                  ((pst_project_id right, pr_resource_id r), pst_project_id left)]
            else []) (resource_values right))) (resource_values left)))"

definition claim_conflict_map ::
  "(ProjectId, InternalProjectState) fmap \<Rightarrow> ResourceConflictPolicy \<Rightarrow> (ProjectId \<times> ResourceId, ProjectId fset) fmap" where
  "claim_conflict_map states overlaps =
     fold (\<lambda>(k, v). entry_insert k v)
       (concat (map (pair_conflicts overlaps)
         (later_pairs (filter (\<lambda>st. holds_claims (pst_lifecycle st)) (state_values states)))))
       fmempty"

definition assignment_conflict_map ::
  "(ProjectId, InternalProjectState) fmap \<Rightarrow> (InstallationId \<times> AgentId, ProjectId fset) fmap" where
  "assignment_conflict_map states =
     fold (\<lambda>(k, v). entry_insert k v)
       (List.map_filter (\<lambda>st. case pst_assignment st of
           Some assignment \<Rightarrow> Some ((pst_home st, ai_agent_id (asg_intent assignment)), pst_project_id st)
         | None \<Rightarrow> None) (state_values states))
       fmempty"

definition conflicting_heads ::
  "(ProjectId, InternalProjectState) fmap \<Rightarrow> ProjectId fset \<Rightarrow> FactId list" where
  "conflicting_heads states projects =
     List.map_filter (\<lambda>project. map_option pst_head (fmlookup states project)) (sorted_list_of_fset projects)"

section \<open>Support\<close>

text \<open>The loop of \<open>project_support\<close>: back from the head until the root, a repetition or the end.\<close>

function support_walk ::
  "'r ReductionContext \<Rightarrow> FactId \<Rightarrow> FactId fset \<Rightarrow> FactId option \<Rightarrow> FactId fset" where
  "support_walk ctx root support current =
     (case current of
        None \<Rightarrow> support
      | Some i \<Rightarrow>
          if i |\<in>| support then support
          else if i = root then finsert i support
          else support_walk ctx root (finsert i support)
            (Option.bind (context_fact ctx i) (\<lambda>f. authority_of (causal f) PreviousState)))"
  by pat_completeness auto

termination
proof (relation "inv_image (less_than <*lex*> less_than)
    (\<lambda>(ctx, root, support, current). (card (set (fact_set_ids (ctx_facts ctx)) - fset support), if current = None then 0 else 1))")
  fix ctx :: "'r ReductionContext" and root i :: FactId and support :: "FactId fset" and current
  let ?next = "Option.bind (context_fact ctx i) (\<lambda>f. authority_of (causal f) PreviousState)"
  assume cur: "current = Some i" and new: "i |\<notin>| support"
  show "((ctx, root, finsert i support, ?next), (ctx, root, support, current)) \<in> inv_image (less_than <*lex*> less_than)
    (\<lambda>(ctx, root, support, current). (card (set (fact_set_ids (ctx_facts ctx)) - fset support), if current = None then 0 else 1))"
  proof (cases "context_fact ctx i")
    case None
    have "card (set (fact_set_ids (ctx_facts ctx)) - fset (finsert i support))
        \<le> card (set (fact_set_ids (ctx_facts ctx)) - fset support)"
      by (intro card_mono) auto
    then show ?thesis using None cur by auto
  next
    case (Some f)
    then have "i \<in> set (fact_set_ids (ctx_facts ctx))"
      by (auto simp: set_fact_set_ids context_fact_def dest: fact_set_get_contains)
    then have "card (set (fact_set_ids (ctx_facts ctx)) - fset (finsert i support))
        < card (set (fact_set_ids (ctx_facts ctx)) - fset support)"
      using new by (intro psubset_card_mono) auto
    then show ?thesis by simp
  qed
qed (simp add: wf_inv_image wf_lex_prod)

definition project_support :: "InternalProjectState \<Rightarrow> 'r ReductionContext \<Rightarrow> FactId fset" where
  "project_support st ctx = support_walk ctx (pst_root st) {||} (Some (pst_head st))"

definition expand_direct_support :: "FactId fset \<Rightarrow> 'r ReductionContext \<Rightarrow> FactId fset" where
  "expand_direct_support support ctx =
     support |\<union>| fset_of_list (concat (map (\<lambda>i.
       case context_fact ctx i of
         Some f \<Rightarrow> filter (is_projected ctx) (sorted_list_of_fset (fact_parents f))
       | None \<Rightarrow> []) (sorted_list_of_fset support)))"

definition fork_participants :: "FactId \<Rightarrow> ProjectId \<Rightarrow> 'r ReductionContext \<Rightarrow> FactId fset" where
  "fork_participants head project ctx =
     fset_of_list (map fact_id (facts_where ctx (\<lambda>c.
       authority_of (causal c) PreviousState = Some head \<and> project_id_of c = Some project
       \<and> (case fmlookup (ctx_decisions ctx) (fact_id c) of
            Some decision \<Rightarrow> fd_status decision = Conflicted | None \<Rightarrow> False))))"

section \<open>Project views\<close>

type_synonym ProjectContribution = "(ProjectProjectionKey, ProjectProjection) ProjectionContribution"

definition state_claim_conflicts ::
  "(ProjectId \<times> ResourceId, ProjectId fset) fmap \<Rightarrow> InternalProjectState \<Rightarrow> (ResourceId, ProjectId fset) fmap" where
  "state_claim_conflicts claim_conflicts st =
     fmap_of_list (List.map_filter (\<lambda>((project, resource), conflicts).
         if project = pst_project_id st then Some (resource, conflicts) else None)
       (sorted_list_of_fmap claim_conflicts))"

definition is_runnable :: "ProjectAssignmentPhase \<Rightarrow> bool" where
  "is_runnable phase = (case phase of Runnable _ _ \<Rightarrow> True | _ \<Rightarrow> False)"

definition assignment_view ::
  "(InstallationId \<times> AgentId, ProjectId fset) fmap \<Rightarrow> bool \<Rightarrow> InternalProjectState \<Rightarrow> InternalAssignment \<Rightarrow>
     ProjectAssignmentView" where
  "assignment_view assignment_conflicts claimable st assignment =
     (let conflicted = (case fmlookup assignment_conflicts (pst_home st, ai_agent_id (asg_intent assignment)) of
          Some projects \<Rightarrow> fcard projects > 1 | None \<Rightarrow> False)
      in \<lparr>pav_intent = asg_intent assignment, pav_binding = asg_binding assignment, pav_phase = asg_phase assignment,
          pav_cardinality_conflicted = conflicted,
          pav_runnable = (\<not> conflicted \<and> claimable \<and> pst_lifecycle st = Open \<and> is_runnable (asg_phase assignment)),
          pav_support = asg_support assignment\<rparr>)"

definition project_contribution ::
  "'r ReductionContext \<Rightarrow> ResourceConflictPolicy \<Rightarrow> (ProjectId, InternalProjectState) fmap \<Rightarrow> InternalProjectState \<Rightarrow>
     ProjectContribution" where
  "project_contribution ctx overlaps states st =
     (let project_claim_conflicts = state_claim_conflicts (claim_conflict_map states overlaps) st;
          assignment_conflicts = assignment_conflict_map states;
          claimable = (project_claim_conflicts = fmempty);
          active_claims = (if claimable \<and> holds_claims (pst_lifecycle st) then fmdom (pst_resources st) else {||});
          claim_heads = concat (map (\<lambda>(_, projects). conflicting_heads states projects)
            (sorted_list_of_fmap project_claim_conflicts));
          assignment_heads = (case pst_assignment st of
              None \<Rightarrow> []
            | Some assignment \<Rightarrow>
                (case fmlookup assignment_conflicts (pst_home st, ai_agent_id (asg_intent assignment)) of
                   Some projects \<Rightarrow> conflicting_heads states projects | None \<Rightarrow> []));
          support = project_support st ctx |\<union>| fset_of_list (claim_heads @ assignment_heads)
      in \<lparr>pc_key = ProjectProjection (pst_project_id st),
          pc_value = ProjectValue \<lparr>pv_root = pst_root st, pv_head = pst_head st,
            pv_fork_participants = fork_participants (pst_head st) (pst_project_id st) ctx,
            pv_home = pst_home st, pv_account_id = pst_account_id st,
            pv_mailbox = MailboxAddress (pst_home st) (pst_mailbox_id st), pv_predecessor = pst_predecessor st,
            pv_name = pst_name st, pv_brief = pst_brief st, pv_resources = pst_resources st,
            pv_primary = pst_primary st, pv_lifecycle = pst_lifecycle st, pv_archived = pst_archived st,
            pv_active_claims = active_claims, pv_claim_conflicts = project_claim_conflicts, pv_claimable = claimable,
            pv_assignment = map_option (assignment_view assignment_conflicts claimable st) (pst_assignment st),
            pv_input_sequence = pst_input_sequence st\<rparr>,
          pc_direct_support = expand_direct_support support ctx\<rparr>)"

definition project_projections ::
  "'r ReductionContext \<Rightarrow> ResourceConflictPolicy \<Rightarrow> ProjectContribution list" where
  "project_projections ctx overlaps =
     (let states = final_states ctx in map (project_contribution ctx overlaps states) (state_values states))"

section \<open>Inputs, dispatches and outputs\<close>

definition input_contribution :: "SemanticFact \<Rightarrow> ProjectContribution option" where
  "input_contribution f =
     (case payload f of
        ProjectInputAccepted project message input_fact sequence \<Rightarrow>
          Some \<lparr>pc_key = InputProjection message,
            pc_value = InputValue \<lparr>piv_project_id = project, piv_message_id = message, piv_input_fact_id = input_fact,
              piv_sequence = sequence, piv_accepted_fact = fact_id f\<rparr>,
            pc_direct_support = {|fact_id f, input_fact|}\<rparr>
      | _ \<Rightarrow> None)"

definition input_projections :: "'r ReductionContext \<Rightarrow> ProjectContribution list" where
  "input_projections ctx = List.map_filter input_contribution (projected_facts ctx)"

definition dispatched :: "SemanticFact \<Rightarrow> DispatchId option" where
  "dispatched f = (case payload f of ProjectInputDispatched _ _ _ dispatch _ _ \<Rightarrow> Some dispatch | _ \<Rightarrow> None)"

definition dispatch_contribution :: "DispatchId \<times> SemanticFact list \<Rightarrow> ProjectContribution option" where
  "dispatch_contribution entry =
     (case entry of
        (dispatch, first # rest) \<Rightarrow>
          (case payload first of
             ProjectInputDispatched _ message sequence _ binding thread \<Rightarrow>
               Some \<lparr>pc_key = DispatchProjection dispatch,
                 pc_value = DispatchValue \<lparr>pdv_dispatch_id = dispatch, pdv_message_id = message,
                   pdv_sequence = sequence, pdv_binding = binding, pdv_thread_id = thread, pdv_fact_id = fact_id first,
                   pdv_conflicted = list_ex (\<lambda>c. payload c \<noteq> payload first) (first # rest)\<rparr>,
                 pc_direct_support = fset_of_list (map fact_id (first # rest))\<rparr>
           | _ \<Rightarrow> None)
      | (_, []) \<Rightarrow> None)"

definition dispatch_projections :: "'r ReductionContext \<Rightarrow> ProjectContribution list" where
  "dispatch_projections ctx =
     List.map_filter dispatch_contribution (sorted_list_of_fmap (group_facts dispatched (projected_facts ctx)))"

definition recorded_output :: "SemanticFact \<Rightarrow> MessageId option" where
  "recorded_output f = (case payload f of ProjectOutputRecorded _ output _ _ _ _ \<Rightarrow> Some output | _ \<Rightarrow> None)"

definition ends_assignment :: "ProjectId \<Rightarrow> AssignmentId \<Rightarrow> SemanticFact \<Rightarrow> bool" where
  "ends_assignment project assignment c =
     (case payload c of
        ProjectAssignmentEnded ended_project ended _ _ \<Rightarrow> ended_project = project \<and> ended = assignment
      | _ \<Rightarrow> False)"

definition output_status ::
  "'r ReductionContext \<Rightarrow> ProjectId \<Rightarrow> AssignmentBinding \<Rightarrow> SemanticFact \<Rightarrow> SemanticFact list \<Rightarrow> ProjectOutputStatus" where
  "output_status ctx project binding first facts =
     (if list_ex (\<lambda>c. payload c \<noteq> payload first) facts then ConflictedOutput
      else if list_ex (\<lambda>c. ends_assignment project (ab_assignment_id binding) c
                          \<and> structurally_reaches (ctx_graph ctx) (fact_id c) (fact_id first)) (projected_facts ctx)
      then LateFromInactive
      else CurrentOutput)"

definition output_contribution ::
  "'r ReductionContext \<Rightarrow> MessageId \<times> SemanticFact list \<Rightarrow> ProjectContribution option" where
  "output_contribution ctx entry =
     (case entry of
        (output, first # rest) \<Rightarrow>
          (case payload first of
             ProjectOutputRecorded project _ dispatch binding thread message \<Rightarrow>
               Some \<lparr>pc_key = OutputProjection output,
                 pc_value = OutputValue \<lparr>pov_output_id = output, pov_dispatch_id = dispatch, pov_binding = binding,
                   pov_thread_id = thread, pov_message = message,
                   pov_status = output_status ctx project binding first (first # rest),
                   pov_facts = fset_of_list (map fact_id (first # rest))\<rparr>,
                 pc_direct_support = fset_of_list (map fact_id (first # rest))\<rparr>
           | _ \<Rightarrow> None)
      | (_, []) \<Rightarrow> None)"

definition output_projections :: "'r ReductionContext \<Rightarrow> ProjectContribution list" where
  "output_projections ctx =
     List.map_filter (output_contribution ctx) (sorted_list_of_fmap (group_facts recorded_output (projected_facts ctx)))"

section \<open>Command views\<close>

definition remote_command :: "SemanticFact \<Rightarrow> CommandId option" where
  "remote_command f =
     (case payload f of
        RemoteProjectCommandRequested command _ _ _ _ _ _ \<Rightarrow> Some command
      | RemoteProjectCommandReceipt command _ _ _ _ \<Rightarrow> Some command
      | RemoteProjectCommandOutcome command _ _ _ _ \<Rightarrow> Some command
      | _ \<Rightarrow> None)"

record RemoteRequestProjection =
  rrp_fact_id :: FactId
  rrp_account_id :: AccountId
  rrp_digest :: CommandDigest
  rrp_project_id :: ProjectId
  rrp_target_home :: InstallationId
  rrp_expected_head :: "FactId option"
  rrp_operation :: OperationCorrelation
  rrp_body :: ContentText
  rrp_issued_at :: Timestamp

definition request_projection :: "FactId option \<Rightarrow> SemanticFact \<Rightarrow> RemoteRequestProjection option" where
  "request_projection cited_id f =
     (case payload f of
        RemoteProjectCommandRequested _ digest project target_home expected_head operation body \<Rightarrow>
          if (case cited_id of Some request \<Rightarrow> request = fact_id f | None \<Rightarrow> True) then
            (case scope f of
               RemoteControl account _ \<Rightarrow>
                 Some \<lparr>rrp_fact_id = fact_id f, rrp_account_id = account, rrp_digest = digest, rrp_project_id = project,
                   rrp_target_home = target_home, rrp_expected_head = expected_head, rrp_operation = operation,
                   rrp_body = body, rrp_issued_at = authored_at f\<rparr>
             | _ \<Rightarrow> None)
          else None
      | _ \<Rightarrow> None)"

definition remote_request_projection :: "SemanticFact list \<Rightarrow> FactId option \<Rightarrow> RemoteRequestProjection option" where
  "remote_request_projection facts cited_id =
     (case List.map_filter (request_projection cited_id) facts of r # _ \<Rightarrow> Some r | [] \<Rightarrow> None)"

definition remote_receipts :: "SemanticFact list \<Rightarrow> (SemanticFact \<times> FactId option \<times> Timestamp) list" where
  "remote_receipts facts =
     List.map_filter (\<lambda>f. case payload f of
         RemoteProjectCommandReceipt _ _ _ received_head received_at \<Rightarrow> Some (f, received_head, received_at)
       | _ \<Rightarrow> None) facts"

definition remote_outcomes ::
  "SemanticFact list \<Rightarrow> (SemanticFact \<times> RemoteCommandResult \<times> RuntimeObservation option) list" where
  "remote_outcomes facts =
     List.map_filter (\<lambda>f. case payload f of
         RemoteProjectCommandOutcome _ _ _ result runtime \<Rightarrow> Some (f, result, runtime)
       | _ \<Rightarrow> None) facts"

definition neighbours_differ :: "(SemanticFact \<times> 'a) list \<Rightarrow> bool" where
  "neighbours_differ xs \<longleftrightarrow> length xs > 1 \<and> list_ex (\<lambda>((_, a), (_, b)). a \<noteq> b) (zip xs (tl xs))"

definition command_stage ::
  "(SemanticFact \<times> FactId option \<times> Timestamp) list \<Rightarrow>
     (SemanticFact \<times> RemoteCommandResult \<times> RuntimeObservation option) list \<Rightarrow> RemoteCommandStage" where
  "command_stage receipts outcomes =
     (if neighbours_differ outcomes \<or> neighbours_differ receipts then ConflictedCommand
      else
        case receipts of
          [] \<Rightarrow> Queued
        | (receipt, head, received_at) # _ \<Rightarrow>
            (case outcomes of
               [] \<Rightarrow> Received (fact_id receipt) head received_at
             | (outcome, result, runtime) # _ \<Rightarrow>
                 Terminal (fact_id receipt) head received_at (fact_id outcome) result runtime))"

definition cited_request ::
  "(SemanticFact \<times> 'a) list \<Rightarrow> (SemanticFact \<times> 'b) list \<Rightarrow> FactId option" where
  "cited_request receipts outcomes =
     (let cites = (\<lambda>f. authority_of (causal f) Request) in
      case (case receipts of (f, _) # _ \<Rightarrow> cites f | [] \<Rightarrow> None) of
        Some request \<Rightarrow> Some request
      | None \<Rightarrow> (case outcomes of (f, _) # _ \<Rightarrow> cites f | [] \<Rightarrow> None))"

definition command_contribution :: "CommandId \<times> SemanticFact list \<Rightarrow> ProjectContribution option" where
  "command_contribution entry =
     (case entry of (command, facts) \<Rightarrow>
        let receipts = remote_receipts facts; outcomes = remote_outcomes facts in
        case remote_request_projection facts (cited_request receipts outcomes) of
          None \<Rightarrow> None
        | Some request \<Rightarrow>
            Some \<lparr>pc_key = CommandProjection command,
              pc_value = CommandValue \<lparr>rcv_account_id = rrp_account_id request, rcv_digest = rrp_digest request,
                rcv_project_id = rrp_project_id request, rcv_expected_head = rrp_expected_head request,
                rcv_target_home = rrp_target_home request, rcv_operation = rrp_operation request,
                rcv_body = rrp_body request, rcv_issued_at = rrp_issued_at request,
                rcv_request_fact = rrp_fact_id request, rcv_stage = command_stage receipts outcomes,
                rcv_support = fset_of_list (map fact_id facts)\<rparr>,
              pc_direct_support = fset_of_list (map fact_id facts)\<rparr>)"

definition command_projections :: "'r ReductionContext \<Rightarrow> ProjectContribution list" where
  "command_projections ctx =
     List.map_filter command_contribution (sorted_list_of_fmap (group_facts remote_command (projected_facts ctx)))"

section \<open>The policy\<close>

definition derive_project_projections ::
  "ResourceConflictPolicy \<Rightarrow> 'r ReductionContext \<Rightarrow> ProjectContribution list" where
  "derive_project_projections overlaps ctx =
     project_projections ctx overlaps @ input_projections ctx @ dispatch_projections ctx @ output_projections ctx
     @ command_projections ctx"

definition derive_project_conflicts ::
  "ResourceConflictPolicy \<Rightarrow> 'r ReductionContext \<Rightarrow> ProjectReason ConflictObservation list" where
  "derive_project_conflicts overlaps ctx =
     (let states = final_states ctx in
      List.map_filter (\<lambda>((project, _), conflicts).
          map_option (\<lambda>st. ConflictObservation (DomainConflict ResourceClaimConflict)
              (finsert (pst_head st) (fset_of_list (conflicting_heads states conflicts))))
            (fmlookup states project))
        (sorted_list_of_fmap (claim_conflict_map states overlaps))
      @ List.map_filter (\<lambda>(_, projects).
          if fcard projects > 1
          then Some (ConflictObservation (DomainConflict AssignmentCardinalityConflict)
            (fset_of_list (conflicting_heads states projects)))
          else None)
        (sorted_list_of_fmap (assignment_conflict_map states)))"

definition project_reducer ::
  "AuthorityPolicy \<Rightarrow> ResourceConflictPolicy \<Rightarrow>
     (ProjectAggregateKey, ProjectProjectionKey, ProjectProjection, ProjectReason) DomainReducer" where
  "project_reducer policy overlaps =
     \<lparr>classify = project_classify policy overlaps, aggregate_keys = (\<lambda>f _. project_aggregate_keys f),
      domain_projections = derive_project_projections overlaps, domain_conflicts = derive_project_conflicts overlaps,
      presentation_entries = (\<lambda>_. [])\<rparr>"

end
