(* ===== verification/Project_History.thy ===== *)
theory Project_History
  imports Project_Views Content_Checks
begin

text \<open>
  The chain of facts behind a project. Replay and the walk to the head always return; a replayed
  state satisfies the invariants of projects; and in a stable context the projected facts of a
  project form one chain from its creation to its head.
\<close>

section \<open>Replay returns\<close>

lemma replay_unfold:
  "replay ctx i =
     (case context_fact ctx i of
        None \<Rightarrow> Some None
      | Some f \<Rightarrow>
          if \<not> is_projected ctx i then Some None
          else if is_creation f then Some (created_state f)
          else if is_home_transition f then
            (case authority_of (causal f) PreviousState of
               None \<Rightarrow> Some None
             | Some previous \<Rightarrow> map_option (step_state f ctx) (replay ctx previous))
          else Some None)"
  by (subst replay.simps) (auto split: option.splits simp: Option.map_conv_bind_option comp_def)

lemma state_at_unfold:
  "state_at ctx i =
     (case context_fact ctx i of
        None \<Rightarrow> None
      | Some f \<Rightarrow>
          if \<not> is_projected ctx i then None
          else if is_creation f then created_state f
          else if is_home_transition f then
            (case authority_of (causal f) PreviousState of
               None \<Rightarrow> None
             | Some previous \<Rightarrow> step_state f ctx (state_at ctx previous))
          else None)"
  unfolding state_at_def
  by (subst replay_unfold) (auto split: option.splits simp: step_state_def)

text \<open>
  A context is chained when the facts it projects lie on no cycle and cite the previous state among
  their parents. Every round over admitted facts is chained, and so is every stable context.
\<close>

definition chained :: "FactSet \<Rightarrow> 'r Decisions \<Rightarrow> bool" where
  "chained s ds \<longleftrightarrow> fact_set_wf s \<and> (\<forall>i. usable ds i \<longrightarrow> (i, i) \<notin> (causal_edges s)\<^sup>+) \<and>
     (\<forall>i f p. fact_set_get s i = Some f \<longrightarrow> usable ds i \<longrightarrow> project_id_of f \<noteq> None \<longrightarrow>
        authority_of (causal f) PreviousState = Some p \<longrightarrow> p |\<in>| fact_parents f)"

lemma chained_step:
  assumes "chained s ds" and "fact_set_get s i = Some f" and "usable ds i" and "project_id_of f \<noteq> None"
    and "authority_of (causal f) PreviousState = Some p"
  shows "p |\<in>| fact_parents f" and "fact_set_contains s p \<Longrightarrow> settle_depth s p < settle_depth s i"
proof -
  show p: "p |\<in>| fact_parents f" using assms unfolding chained_def by blast
  then have "(p, i) \<in> (causal_edges s)\<^sup>+" using assms(2) by (auto simp: causal_edges_def)
  then show "fact_set_contains s p \<Longrightarrow> settle_depth s p < settle_depth s i"
    using assms(1,3) settle_depth_less unfolding chained_def by blast
qed

lemma replay_returns:
  assumes "chained s ds"
  shows "replay (round_context s ds) i \<noteq> None"
proof (induction "settle_depth s i" arbitrary: i rule: less_induct)
  case less
  show ?case
  proof (cases "\<exists>f p. fact_set_get s i = Some f \<and> usable ds i \<and> is_home_transition f \<and>
      authority_of (causal f) PreviousState = Some p \<and> fact_set_contains s p")
    case True
    then obtain f p where f: "fact_set_get s i = Some f" "usable ds i" "is_home_transition f"
        "authority_of (causal f) PreviousState = Some p" "fact_set_contains s p" by blast
    then have "replay (round_context s ds) p \<noteq> None"
      using less chained_step(2) [OF assms f(1,2) _ f(4,5)] by (auto simp: is_home_transition_def)
    then show ?thesis using f
      by (subst replay_unfold) (simp add: context_fact_def is_home_transition_def)
  next
    case False
    have "replay (round_context s ds) p = Some None" if "\<not> fact_set_contains s p" for p
      using that by (subst replay_unfold) (auto simp: context_fact_def split: option.splits dest: fact_set_get_contains)
    with False show ?thesis by (subst replay_unfold) (auto simp: context_fact_def split: option.splits)
  qed
qed

lemma state_at_head:
  assumes "state_at ctx i = Some st" and "\<And>f. context_fact ctx i = Some f \<Longrightarrow> fact_id f = i"
  shows "pst_head st = i"
  using assms
  by (subst (asm) state_at_unfold)
    (auto simp: created_state_def step_state_def apply_payload_def and_then_Ok_iff
      split: option.splits if_splits SemanticPayload.splits FactScope.splits sum.splits)

lemma next_facts_iff:
  assumes "fact_set_wf s"
  shows "c \<in> set (next_facts (round_context s ds) st) \<longleftrightarrow>
    fact_set_get s (fact_id c) = Some c \<and> usable ds (fact_id c) \<and>
    authority_of (causal c) PreviousState = Some (pst_head st) \<and> project_id_of c = Some (pst_project_id st)"
  by (auto simp: next_facts_def set_fact_set_facts [OF assms])

lemma next_state_head:
  assumes "fact_set_wf s" and "c \<in> set (next_facts (round_context s ds) st)"
    and "state_at (round_context s ds) (fact_id c) = Some st'"
  shows "pst_head st' = fact_id c"
  using assms(2) by (intro state_at_head [OF assms(3)]) (auto simp: next_facts_iff [OF assms(1)] context_fact_def)

lemma advance_returns:
  assumes chained: "chained s ds"
  shows "advance (round_context s ds) st \<noteq> None"
proof -
  let ?n = "card {i. fact_set_contains s i}"
  let ?left = "\<lambda>st. if fact_set_contains s (pst_head st) then ?n - settle_depth s (pst_head st) else Suc ?n"
  have wf: "fact_set_wf s" using chained by (simp add: chained_def)
  show ?thesis
  proof (induction "?left st" arbitrary: st rule: less_induct)
    case less
    show ?case
    proof (cases "\<exists>c st'. next_facts (round_context s ds) st = [c] \<and> state_at (round_context s ds) (fact_id c) = Some st'")
      case True
      then obtain c st' where c: "next_facts (round_context s ds) st = [c]"
          "state_at (round_context s ds) (fact_id c) = Some st'" by blast
      then have "c \<in> set (next_facts (round_context s ds) st)" by simp
      note f = this [unfolded next_facts_iff [OF wf]] and head = next_state_head [OF wf this c(2)]
      have "fact_set_contains s (fact_id c)" using f fact_set_get_contains by blast
      moreover have "settle_depth s (pst_head st) < settle_depth s (fact_id c)" if "fact_set_contains s (pst_head st)"
        using chained_step(2) [OF chained, of "fact_id c" c] f that by simp
      ultimately have "?left st' < ?left st"
        using settle_depth_bound [of s "fact_id c"] by (auto simp: head)
      from less [OF this] show ?thesis using c by (subst advance.simps) simp
    next
      case False
      then show ?thesis by (subst advance.simps) (auto split: list.splits option.splits)
    qed
  qed
qed

text \<open>Every round over admitted facts is chained, from the first one on.\<close>

lemma acyclic_usable:
  assumes "fact_set_wf s" and "i |\<notin>| cycle_members (graph_of s)"
  shows "(i, i) \<notin> (causal_edges s)\<^sup>+"
  using assms by (simp add: causal_index.cycle_members_iff [OF graph_of_causal_index] causal_edges_graph)

lemma rounds_chained:
  assumes "list_all admitted fs"
  shows "chained (from_facts fs)
    ((round_of (from_facts fs) (graph_of (from_facts fs)) domain ^^ k) (initial_decisions (from_facts fs) (graph_of (from_facts fs))))"
    (is "chained ?s ?ds")
proof -
  note wf = fact_set_wf_from_facts [of fs]
  have "i |\<notin>| cycle_members (graph_of ?s)" if "usable ?ds i" for i
    using that by (cases k) (auto simp: usable_initial dest: usable_acyclic [OF wf])
  moreover have "p |\<in>| fact_parents f"
    if "fact_set_get ?s i = Some f" and "authority_of (causal f) PreviousState = Some p" for i f p
    using assms stored_was_received [OF that(1)] admitted_role(1) [OF _ that(2)] by (auto simp: list_all_iff)
  ultimately show ?thesis using acyclic_usable [OF wf] wf unfolding chained_def by blast
qed

section \<open>Transitions\<close>

lemmas transitions =
  open_project_def start_closing_def close_project_def archive_project_def unarchive_project_def update_metadata_def
  add_resource_def remove_resource_def replace_resource_def change_primary_def observe_health_def
  configure_assignment_def run_assignment_def block_assignment_def end_assignment_def accept_input_def
  dispatch_input_def record_output_def

lemma transition_frame:
  assumes "transition f ctx st = Ok st'"
  shows "pst_project_id st' = pst_project_id st \<and> pst_root st' = pst_root st \<and> pst_home st' = pst_home st \<and>
    pst_account_id st' = pst_account_id st \<and> pst_mailbox_id st' = pst_mailbox_id st \<and>
    pst_predecessor st' = pst_predecessor st"
  using assms
  by (cases "payload f")
    (auto simp: transition_def transitions and_then_Ok_iff Let_def split: if_splits option.splits)

lemma apply_payload_Ok_iff:
  "apply_payload f ctx st = Ok st' \<longleftrightarrow> (\<exists>st''. transition f ctx st = Ok st'' \<and> st' = st''\<lparr>pst_head := fact_id f\<rparr>)"
  by (auto simp: apply_payload_def and_then_Ok_iff)

lemma apply_payload_frame:
  assumes "apply_payload f ctx st = Ok st'"
  shows "pst_project_id st' = pst_project_id st" and "pst_root st' = pst_root st" and "pst_home st' = pst_home st"
    and "pst_account_id st' = pst_account_id st" and "pst_mailbox_id st' = pst_mailbox_id st"
    and "pst_head st' = fact_id f"
  using assms transition_frame [of f ctx st] by (auto simp: apply_payload_Ok_iff)

lemma step_state_Some_iff:
  "step_state f ctx found = Some st' \<longleftrightarrow> (\<exists>st. found = Some st \<and> apply_payload f ctx st = Ok st')"
  by (auto simp: step_state_def split: option.splits sum.splits)

text \<open>The invariant of a replayed project.\<close>

definition resources_wf :: "InternalProjectState \<Rightarrow> bool" where
  "resources_wf st \<longleftrightarrow>
     (\<forall>i r. fmlookup (pst_resources st) i = Some r \<longrightarrow> pr_resource_id r = i \<and> valid_path_resource r) \<and>
     (\<forall>i. pst_primary st = Some i \<longrightarrow> i |\<in>| fmdom (pst_resources st))"

definition lifecycle_wf :: "InternalProjectState \<Rightarrow> bool" where
  "lifecycle_wf st \<longleftrightarrow>
     (pst_lifecycle st = Closed \<longrightarrow> pst_assignment st = None) \<and> (pst_archived st \<longrightarrow> pst_lifecycle st = Closed)"

definition assignment_wf :: "InternalProjectState \<Rightarrow> bool" where
  "assignment_wf st \<longleftrightarrow> (\<forall>a. pst_assignment st = Some a \<longrightarrow>
     (\<forall>b. asg_binding a = Some b \<longrightarrow> ab_assignment_id b = ai_assignment_id (asg_intent a) \<and>
        ab_agent_id b = ai_agent_id (asg_intent a) \<and> ab_provider b = ai_provider (asg_intent a)) \<and>
     (is_runnable (asg_phase a) \<longrightarrow> asg_binding a \<noteq> None))"

definition project_wf :: "InternalProjectState \<Rightarrow> bool" where
  "project_wf st \<longleftrightarrow> resources_wf st \<and> lifecycle_wf st \<and> assignment_wf st"

lemma first_key_member: "first_key m = Some k \<Longrightarrow> k |\<in>| fmdom m"
  by (metis first_key_def list.case_eq_if list.set_sel(1) option.inject option.distinct(1) set_sorted_list_of_fset)

lemma first_key_drop: "first_key (fmdrop k m) = Some i \<Longrightarrow> i |\<in>| fmdom m \<and> i \<noteq> k"
  using first_key_member [of "fmdrop k m" i] by simp

lemma valid_path_health [simp]: "valid_path_resource (r\<lparr>pr_health := h\<rparr>) = valid_path_resource r"
  by (simp add: valid_path_resource_def)

lemma transition_resources:
  assumes "transition f ctx st = Ok st'" and "resources_wf st"
  shows "resources_wf st'"
  using assms
  by (cases "payload f")
    (auto simp: transition_def transitions and_then_Ok_iff Let_def resources_wf_def dest: first_key_drop
      split: if_splits option.splits)

lemma transition_lifecycle:
  assumes "transition f ctx st = Ok st'" and "lifecycle_wf st"
  shows "lifecycle_wf st'"
  using assms
  by (cases "payload f")
    (auto simp: transition_def transitions and_then_Ok_iff Let_def lifecycle_wf_def split: if_splits option.splits)

lemma transition_assignment:
  assumes "transition f ctx st = Ok st'" and "assignment_wf st"
  shows "assignment_wf st'"
  using assms
  by (cases "payload f")
    (auto simp: transition_def transitions and_then_Ok_iff Let_def assignment_wf_def is_runnable_def
      split: if_splits option.splits)

lemma apply_payload_wf:
  assumes "apply_payload f ctx st = Ok st'" and "project_wf st"
  shows "project_wf st'"
  using assms transition_resources [of f ctx st] transition_lifecycle [of f ctx st] transition_assignment [of f ctx st]
  by (auto simp: apply_payload_Ok_iff project_wf_def resources_wf_def lifecycle_wf_def assignment_wf_def)

section \<open>Stable contexts\<close>

lemma project_reducer_fields [simp]:
  "classify (project_reducer policy overlaps) = project_classify policy overlaps"
  "domain_projections (project_reducer policy overlaps) = derive_project_projections overlaps"
  "presentation_entries (project_reducer policy overlaps) = (\<lambda>_. [])"
  by (simp_all add: project_reducer_def)

lemma project_classify_projected_iff:
  "project_classify policy overlaps f ctx = DomainProjected \<longleftrightarrow>
     validate_fact policy f ctx = Ok () \<and> classify_project_fact f ctx overlaps = Ok ()"
  by (auto simp: project_classify_def Let_def classify_fact_projected_iff split: sum.splits if_splits prod.splits)

interpretation project_layer: authority_layer "project_reducer policy overlaps" policy for policy overlaps
  by unfold_locales (simp add: project_classify_projected_iff)

lemma validate_home_transition_OkD:
  assumes ok: "validate_home_transition f ctx overlaps = Ok ()"
  shows "\<exists>project previous st st'. project_id_of f = Some project \<and> authority_of (causal f) PreviousState = Some previous \<and>
    previous |\<in>| fact_parents f \<and> is_projected ctx previous \<and> state_at ctx previous = Some st \<and>
    pst_project_id st = project \<and> author_id f = pst_home st \<and>
    stable_identity_conflict f ctx = None \<and> \<not> 1 < fcard (sibling_participants f project previous ctx) \<and>
    apply_payload f ctx st = Ok st' \<and>
    (opens_project f \<longrightarrow> claim_conflict_participants st' (fact_id f) ctx overlaps = {||})"
proof -
  obtain project previous where p: "project_id_of f = Some project" "authority_of (causal f) PreviousState = Some previous"
    using ok by (auto simp: validate_home_transition_def and_then_Ok_iff)
  note ok = ok [unfolded validate_home_transition_def p ok_or.simps and_then.simps Let_def]
  obtain st where st: "state_at ctx previous = Some st"
    using ok by (cases "state_at ctx previous") (simp_all split: if_splits)
  have none: "stable_identity_conflict f ctx = None"
    using ok by (cases "stable_identity_conflict f ctx") (simp_all add: st split: if_splits)
  obtain st' where "apply_payload f ctx st = Ok st'"
    using ok by (cases "apply_payload f ctx st") (simp_all add: st none split: if_splits)
  with ok show ?thesis by (simp add: p st none split: if_splits)
qed

lemma fcard_gt_1_iff: "1 < fcard A \<longleftrightarrow> (\<exists>a b. a |\<in>| A \<and> b |\<in>| A \<and> a \<noteq> b)"
proof -
  have "1 < fcard A \<longleftrightarrow> \<not> card (fset A) \<le> Suc 0" by (auto simp: fcard.rep_eq)
  then show ?thesis by (auto simp: card_le_Suc0_iff_eq)
qed

lemma sibling_iff:
  "j |\<in>| sibling_participants f project previous ctx \<longleftrightarrow> j = fact_id f \<or>
     (\<exists>c \<in> set (fact_set_facts (ctx_facts ctx)). fact_id c = j \<and> project_id_of c = Some project \<and>
        authority_of (causal c) PreviousState = Some previous \<and> fact_id c \<noteq> fact_id f \<and>
        \<not> (case fmlookup (ctx_decisions ctx) (fact_id c) of Some d \<Rightarrow> ruled_out (fd_status d) | None \<Rightarrow> False))"
  by (auto simp: sibling_participants_def)

lemma usable_not_ruled_out:
  "usable ds i \<Longrightarrow> \<not> (case fmlookup ds i of Some d \<Rightarrow> ruled_out (fd_status d) | None \<Rightarrow> False)"
  by (auto simp: usable_def split: option.splits)

abbreviation stable_projects ::
  "AuthorityPolicy \<Rightarrow> ResourceConflictPolicy \<Rightarrow> SemanticFact list \<Rightarrow> ProjectReason Decisions \<Rightarrow> bool" where
  "stable_projects policy overlaps fs ds \<equiv> stable_decisions (project_reducer policy overlaps) fs ds"

lemma projected_project_fact:
  assumes "stable_projects policy overlaps fs ds" and "fact_set_get (from_facts fs) i = Some f" and "usable ds i"
  shows "fact_id f = i" and "classify_project_fact f (arrived fs ds) overlaps = Ok ()"
    and "validate_fact policy f (arrived fs ds) = Ok ()" and "p |\<in>| fact_parents f \<Longrightarrow> usable ds p"
    and "(i, i) \<notin> (causal_edges (from_facts fs))\<^sup>+"
proof -
  note wf = fact_set_wf_from_facts [of fs]
  show "fact_id f = i" using fact_set_get_id [OF wf assms(2)] .
  obtain g where "fact_set_get (from_facts fs) i = Some g" "i |\<notin>| cycle_members (graph_of (from_facts fs))"
      "\<And>p. p |\<in>| fact_parents g \<Longrightarrow> usable ds p" "classify (project_reducer policy overlaps) g (arrived fs ds) = DomainProjected"
    using stable_usable_iff [OF wf assms(1), of i] assms(3) by blast
  then show "classify_project_fact f (arrived fs ds) overlaps = Ok ()" "validate_fact policy f (arrived fs ds) = Ok ()"
      "p |\<in>| fact_parents f \<Longrightarrow> usable ds p" "(i, i) \<notin> (causal_edges (from_facts fs))\<^sup>+"
    using assms(2) acyclic_usable [OF wf] by (auto simp: project_classify_projected_iff)
qed

lemma projected_transition:
  assumes stable: "stable_projects policy overlaps fs ds" and f: "fact_set_get (from_facts fs) i = Some f" "usable ds i"
    and home: "is_home_transition f"
  obtains project previous st st' where "project_id_of f = Some project"
    and "authority_of (causal f) PreviousState = Some previous" and "previous |\<in>| fact_parents f" and "usable ds previous"
    and "state_at (arrived fs ds) previous = Some st" and "pst_project_id st = project" and "author_id f = pst_home st"
    and "stable_identity_conflict f (arrived fs ds) = None"
    and "\<And>j c. fact_set_get (from_facts fs) j = Some c \<Longrightarrow> usable ds j \<Longrightarrow> project_id_of c = Some project \<Longrightarrow>
      authority_of (causal c) PreviousState = Some previous \<Longrightarrow> j = i"
    and "apply_payload f (arrived fs ds) st = Ok st'" and "state_at (arrived fs ds) i = Some st'"
    and "opens_project f \<longrightarrow> claim_conflict_participants st' i (arrived fs ds) overlaps = {||}"
proof -
  note wf = fact_set_wf_from_facts [of fs]
  note p = projected_project_fact [OF stable f]
  have "validate_home_transition f (arrived fs ds) overlaps = Ok ()"
    using p(2) home by (simp add: classify_project_fact_def is_home_transition_def)
  then obtain project previous st st' where v: "project_id_of f = Some project"
      "authority_of (causal f) PreviousState = Some previous" "previous |\<in>| fact_parents f" "usable ds previous"
      "state_at (arrived fs ds) previous = Some st" "pst_project_id st = project" "author_id f = pst_home st"
      "stable_identity_conflict f (arrived fs ds) = None"
      "\<not> 1 < fcard (sibling_participants f project previous (arrived fs ds))"
      "apply_payload f (arrived fs ds) st = Ok st'"
      "opens_project f \<longrightarrow> claim_conflict_participants st' i (arrived fs ds) overlaps = {||}"
    using validate_home_transition_OkD [of f "arrived fs ds" overlaps] unfolding p(1) by auto
  have "j = i" if c: "fact_set_get (from_facts fs) j = Some c" "usable ds j" "project_id_of c = Some project"
      "authority_of (causal c) PreviousState = Some previous" for j c
  proof (rule ccontr)
    assume "j \<noteq> i"
    moreover have "fact_id c = j" using fact_set_get_id [OF wf c(1)] .
    ultimately have "j |\<in>| sibling_participants f project previous (arrived fs ds)"
      using c p(1) usable_not_ruled_out [OF c(2)] by (auto simp: sibling_iff set_fact_set_facts)
    moreover have "i |\<in>| sibling_participants f project previous (arrived fs ds)" by (simp add: sibling_iff p(1))
    ultimately show False using v(9) \<open>j \<noteq> i\<close> unfolding fcard_gt_1_iff by blast
  qed
  moreover have "state_at (arrived fs ds) i = Some st'"
    using f home v(2,5,10)
    by (subst state_at_unfold) (simp add: context_fact_def is_home_transition_def step_state_Some_iff)
  ultimately show thesis using v that by blast
qed

lemma creation_payload:
  "is_creation f \<longleftrightarrow> (\<exists>p m h n b d rs pr i. payload f = ProjectCreated p m h n b d rs pr i)"
  by (cases "payload f") (simp_all add: is_creation_def)

lemma fmlookup_resources:
  "distinct (map pr_resource_id rs) \<Longrightarrow>
     fmlookup (fold (\<lambda>r. fmupd (pr_resource_id r) r) rs m) i =
       (case find (\<lambda>r. pr_resource_id r = i) rs of Some r \<Rightarrow> Some r | None \<Rightarrow> fmlookup m i)"
proof (induction rs arbitrary: m)
  case (Cons r rs)
  have "find (\<lambda>x. pr_resource_id x = pr_resource_id r) rs = None"
    using Cons.prems by (auto simp: find_None_iff image_iff)
  then show ?case using Cons by (auto split: option.splits)
qed simp

lemma created_state_wf:
  assumes "validate_creation f ctx = Ok ()" and "created_state f = Some st"
  shows "project_wf st" and "project_id_of f = Some (pst_project_id st)" and "pst_root st = fact_id f"
    and "pst_input_sequence st = 0" and "author_id f = pst_home st"
proof -
  obtain p m h n b d rs pr i where c: "payload f = ProjectCreated p m h n b d rs pr i"
    using assms(2) by (cases "payload f") (simp_all add: created_state_def)
  have ids: "distinct (map pr_resource_id rs)" "list_all valid_path_resource rs"
      "\<And>i. pr = Some i \<Longrightarrow> i \<in> pr_resource_id ` set rs"
      and home: "author_id f = h"
    using assms(1) fcard_fset_of_list_eq_length [of "map pr_resource_id rs"]
    by (auto simp: validate_creation_def c Let_def list_ex_iff list_all_iff split: if_splits option.splits)
  have st: "pst_resources st = fold (\<lambda>r. fmupd (pr_resource_id r) r) rs fmempty" "pst_primary st = pr"
      "\<not> pst_archived st" "pst_assignment st = None"
    using assms(2) by (auto simp: created_state_def c split: FactScope.splits)
  have res: "fmlookup (pst_resources st) k = find (\<lambda>r. pr_resource_id r = k) rs" for k
    unfolding st(1) fmlookup_resources [OF ids(1), of fmempty] by (simp split: option.split)
  have "pr_resource_id r = k \<and> valid_path_resource r" if "fmlookup (pst_resources st) k = Some r" for k r
    using that ids(2) by (auto simp: res find_Some_iff list_all_iff)
  moreover have "k |\<in>| fmdom (pst_resources st)" if "pr = Some k" for k
  proof -
    have "find (\<lambda>r. pr_resource_id r = k) rs \<noteq> None" using ids(3) [OF that] by (auto simp: find_None_iff)
    then show ?thesis by (simp add: fmlookup_dom_iff res)
  qed
  ultimately show "project_wf st"
    by (simp add: project_wf_def resources_wf_def lifecycle_wf_def assignment_wf_def st(2-))
  show "project_id_of f = Some (pst_project_id st)" "pst_root st = fact_id f" "pst_input_sequence st = 0"
      "author_id f = pst_home st"
    using assms(2) home
    by (auto simp: created_state_def c project_id_of_def payload_project_id_def split: FactScope.splits)
qed

lemma projected_creation:
  assumes stable: "stable_projects policy overlaps fs ds" and f: "fact_set_get (from_facts fs) i = Some f" "usable ds i"
    and created: "is_creation f"
  obtains st where "created_state f = Some st" and "state_at (arrived fs ds) i = Some st"
    and "project_wf st" and "project_id_of f = Some (pst_project_id st)" and "pst_root st = i" and "pst_head st = i"
    and "pst_input_sequence st = 0" and "author_id f = pst_home st"
proof -
  note p = projected_project_fact [OF stable f]
  have ok: "validate_creation f (arrived fs ds) = Ok ()" using p(2) created by (simp add: classify_project_fact_def)
  then obtain st where st: "created_state f = Some st"
    using created
    by (auto simp: creation_payload validate_creation_def created_state_def is_account_addressed_def Let_def
        split: if_splits FactScope.splits)
  moreover have "state_at (arrived fs ds) i = Some st"
    using f created st by (subst state_at_unfold) (simp add: context_fact_def)
  moreover from this have "pst_head st = i" by (rule state_at_head) (simp add: context_fact_def f p(1))
  ultimately show thesis using that created_state_wf [OF ok st] p(1) by simp
qed

lemma creation_unique:
  assumes stable: "stable_projects policy overlaps fs ds" and f: "fact_set_get (from_facts fs) i = Some f" "usable ds i"
    and created: "is_creation f" and g: "fact_set_get (from_facts fs) j = Some g" "is_creation g"
    and same: "project_id_of g = project_id_of f"
  shows "j = i"
proof (rule ccontr)
  assume "j \<noteq> i"
  note p = projected_project_fact [OF stable f]
  have j: "fact_id g = j" using fact_set_get_id [OF fact_set_wf_from_facts g(1)] .
  obtain q m h n b d rs pr k where c: "payload f = ProjectCreated q m h n b d rs pr k"
    using created unfolding creation_payload by blast
  have "validate_creation f (arrived fs ds) = Ok ()" using p(2) created by (simp add: classify_project_fact_def)
  then have "\<not> 1 < fcard (fset_of_list (map fact_id (filter (shares_project_identity q h m) (fact_set_facts (from_facts fs)))))"
    by (auto simp: validate_creation_def c Let_def split: if_splits)
  moreover have "fact_id x |\<in>| fset_of_list (map fact_id (filter (shares_project_identity q h m) (fact_set_facts (from_facts fs))))"
      if "x = f \<or> x = g" for x
    using that f(1) g created same p(1) j
    by (auto simp: set_fact_set_facts shares_project_identity_def creation_payload project_id_of_def payload_project_id_def c)
  ultimately show False using p(1) j \<open>j \<noteq> i\<close> unfolding fcard_gt_1_iff by metis
qed

end
