(* ===== verification/Project_Chain.thy ===== *)
theory Project_Chain
  imports Project_History
begin

text \<open>
  The projected facts of a project are one chain: \<open>project_history\<close> is the walk from the creation along
  only children, and in a stable context over admitted facts it visits every projected fact of the
  project. The final states of the policy are the states at the ends of these walks.
\<close>

section \<open>Replayed states\<close>

lemma state_at_induct:
  assumes stable: "stable_projects policy overlaps fs ds" and "state_at (arrived fs ds) i = Some st"
    and base: "\<And>i f st. \<lbrakk>fact_set_get (from_facts fs) i = Some f; usable ds i; is_creation f; created_state f = Some st;
      state_at (arrived fs ds) i = Some st\<rbrakk> \<Longrightarrow> P i st"
    and step: "\<And>i f p st st'. \<lbrakk>fact_set_get (from_facts fs) i = Some f; usable ds i; is_home_transition f;
      project_id_of f = Some (pst_project_id st); authority_of (causal f) PreviousState = Some p;
      state_at (arrived fs ds) p = Some st; P p st; apply_payload f (arrived fs ds) st = Ok st';
      state_at (arrived fs ds) i = Some st'\<rbrakk> \<Longrightarrow> P i st'"
  shows "P i st"
  using assms(2)
proof (induction "settle_depth (from_facts fs) i" arbitrary: i st rule: less_induct)
  case less
  from less.prems obtain f where f: "fact_set_get (from_facts fs) i = Some f" "usable ds i"
      "is_creation f \<or> is_home_transition f"
    by (subst (asm) state_at_unfold) (auto simp: context_fact_def split: option.splits if_splits)
  show ?case
  proof (cases "is_creation f")
    case True
    then obtain st' where st': "created_state f = Some st'" "state_at (arrived fs ds) i = Some st'"
      using projected_creation [OF stable f(1,2)] by metis
    with less.prems have "st' = st" by simp
    with base [OF f(1,2) True st'] show ?thesis by simp
  next
    case False
    with f(3) have home: "is_home_transition f" by simp
    obtain project p u v where v: "project_id_of f = Some project" "authority_of (causal f) PreviousState = Some p"
        "p |\<in>| fact_parents f" "state_at (arrived fs ds) p = Some u" "pst_project_id u = project"
        "apply_payload f (arrived fs ds) u = Ok v" "state_at (arrived fs ds) i = Some v"
      by (rule projected_transition [OF stable f(1,2) home])
    have "fact_set_contains (from_facts fs) p"
      using v(4) by (subst (asm) state_at_unfold)
        (auto simp: context_fact_def dest: fact_set_get_contains split: option.splits)
    moreover have "(p, i) \<in> (causal_edges (from_facts fs))\<^sup>+" using f(1) v(3) by (auto simp: causal_edges_def)
    ultimately have "settle_depth (from_facts fs) p < settle_depth (from_facts fs) i"
      using projected_project_fact(5) [OF stable f(1,2)] settle_depth_less by blast
    from less.hyps [OF this v(4)] have "P i v" using step [OF f(1,2) home _ v(2,4) _ v(6,7)] v(1,5) by simp
    then show ?thesis using less.prems v(7) by simp
  qed
qed

lemma state_at_fact:
  assumes "state_at (arrived fs ds) i = Some st"
  obtains f where "fact_set_get (from_facts fs) i = Some f" and "usable ds i" and "fact_id f = i"
    and "is_creation f \<or> is_home_transition f" and "pst_head st = i"
proof -
  from assms obtain f where f: "fact_set_get (from_facts fs) i = Some f" "usable ds i" "is_creation f \<or> is_home_transition f"
    by (subst (asm) state_at_unfold) (auto simp: context_fact_def split: option.splits if_splits)
  have i: "fact_id f = i" using fact_set_get_id [OF fact_set_wf_from_facts f(1)] .
  with f that state_at_head [OF assms] show thesis by (auto simp: context_fact_def)
qed

lemma state_at_wf:
  assumes "stable_projects policy overlaps fs ds" and "state_at (arrived fs ds) i = Some st"
  shows "project_wf st"
  using assms
proof (rule state_at_induct)
  fix i f st assume "fact_set_get (from_facts fs) i = Some f" "usable ds i" "is_creation f" "created_state f = Some st"
  then show "project_wf st" using projected_creation [OF assms(1)] by (metis option.inject)
qed (rule apply_payload_wf)

text \<open>The creation a replayed state goes back to.\<close>

lemma state_at_root:
  assumes "stable_projects policy overlaps fs ds" and "state_at (arrived fs ds) i = Some st"
  shows "\<exists>f. fact_set_get (from_facts fs) (pst_root st) = Some f \<and> usable ds (pst_root st) \<and> is_creation f \<and>
    project_id_of f = Some (pst_project_id st)"
  using assms
proof (rule state_at_induct)
  fix i f st assume f: "fact_set_get (from_facts fs) i = Some f" "usable ds i" "is_creation f" and st: "created_state f = Some st"
  obtain u where "created_state f = Some u" "project_id_of f = Some (pst_project_id u)" "pst_root u = i"
    by (rule projected_creation [OF assms(1) f])
  with f st show "\<exists>f. fact_set_get (from_facts fs) (pst_root st) = Some f \<and> usable ds (pst_root st) \<and> is_creation f \<and>
      project_id_of f = Some (pst_project_id st)" by auto
next
  fix i f p st st'
  assume "apply_payload f (arrived fs ds) st = Ok st'"
    and "\<exists>f. fact_set_get (from_facts fs) (pst_root st) = Some f \<and> usable ds (pst_root st) \<and> is_creation f \<and>
      project_id_of f = Some (pst_project_id st)"
  then show "\<exists>f. fact_set_get (from_facts fs) (pst_root st') = Some f \<and> usable ds (pst_root st') \<and> is_creation f \<and>
      project_id_of f = Some (pst_project_id st')" by (simp add: apply_payload_frame)
qed

section \<open>The chain\<close>

text \<open>Among admitted facts of a project only the steps of its home cite a previous state.\<close>

lemma admitted_previous:
  assumes "admitted f" and "project_id_of f \<noteq> None" and "authority_of (causal f) PreviousState = Some p"
  shows "is_home_transition f"
  using admitted_role(2) [OF assms(1,3)] assms(2)
  by (cases "payload f")
    (simp_all add: is_home_transition_def is_creation_def is_remote_def project_id_of_def payload_project_id_def
      role_is_allowed_def)

lemma stable_chained:
  assumes "stable_projects policy overlaps fs ds" and "list_all admitted fs"
  shows "chained (from_facts fs) ds"
proof -
  note wf = fact_set_wf_from_facts [of fs]
  have "(i, i) \<notin> (causal_edges (from_facts fs))\<^sup>+" if "usable ds i" for i
    using stable_usable_iff [OF wf assms(1), of i] that acyclic_usable [OF wf] by blast
  moreover have "p |\<in>| fact_parents f"
    if "fact_set_get (from_facts fs) i = Some f" and "authority_of (causal f) PreviousState = Some p" for i f p
    using assms(2) stored_was_received [OF that(1)] admitted_role(1) [OF _ that(2)] by (auto simp: list_all_iff)
  ultimately show ?thesis using wf unfolding chained_def by blast
qed

inductive project_history ::
  "'r ReductionContext \<Rightarrow> InternalProjectState \<Rightarrow> SemanticFact list \<Rightarrow> InternalProjectState \<Rightarrow> bool"
  for ctx where
  history_end: "project_history ctx st [] st"
| history_step: "next_facts ctx st = [c] \<Longrightarrow> state_at ctx (fact_id c) = Some st' \<Longrightarrow>
    project_history ctx st' path final \<Longrightarrow> project_history ctx st (c # path) final"

definition stuck :: "'r ReductionContext \<Rightarrow> InternalProjectState \<Rightarrow> bool" where
  "stuck ctx st \<longleftrightarrow> \<not> (\<exists>c st'. next_facts ctx st = [c] \<and> state_at ctx (fact_id c) = Some st')"

lemma advance_history:
  assumes "advance ctx st = Some final"
  shows "\<exists>path. project_history ctx st path final \<and> stuck ctx final"
proof (rule advance.raw_induct [where P = "\<lambda>ctx st final. \<exists>path. project_history ctx st path final \<and> stuck ctx final",
      OF _ assms])
  fix loop :: "'r ReductionContext \<Rightarrow> InternalProjectState \<Rightarrow> InternalProjectState option" and ctx st final
  assume IH: "\<And>ctx st final. loop ctx st = Some final \<Longrightarrow> \<exists>path. project_history ctx st path final \<and> stuck ctx final"
    and eq: "(case next_facts ctx st of [] \<Rightarrow> Some st
      | [child] \<Rightarrow> (case state_at ctx (fact_id child) of None \<Rightarrow> Some st | Some next_state \<Rightarrow> loop ctx next_state)
      | child # _ # _ \<Rightarrow> Some st) = Some final"
  show "\<exists>path. project_history ctx st path final \<and> stuck ctx final"
  proof (cases "stuck ctx st")
    case True
    then have "final = st" using eq by (auto simp: stuck_def split: list.splits option.splits)
    then show ?thesis using True history_end by blast
  next
    case False
    then obtain c st' where c: "next_facts ctx st = [c]" "state_at ctx (fact_id c) = Some st'" by (auto simp: stuck_def)
    then have "loop ctx st' = Some final" using eq by simp
    from IH [OF this] c show ?thesis by (meson history_step)
  qed
qed

text \<open>Each fact of a list cites the one before it, the first one the given fact.\<close>

fun linked :: "FactId \<Rightarrow> SemanticFact list \<Rightarrow> bool" where
  "linked i [] \<longleftrightarrow> True"
| "linked i (c # cs) \<longleftrightarrow> authority_of (causal c) PreviousState = Some i \<and> linked (fact_id c) cs"

text \<open>The steps of a project that a decision map projects.\<close>

definition projected_steps :: "SemanticFact list \<Rightarrow> 'r Decisions \<Rightarrow> ProjectId \<Rightarrow> SemanticFact set" where
  "projected_steps fs ds project =
     {c. fact_set_get (from_facts fs) (fact_id c) = Some c \<and> usable ds (fact_id c) \<and> is_home_transition c \<and>
        project_id_of c = Some project}"

lemma history_sound:
  assumes stable: "stable_projects policy overlaps fs ds" and adm: "list_all admitted fs"
    and "project_history (arrived fs ds) st path final" and "state_at (arrived fs ds) (pst_head st) = Some st"
  shows "set path \<subseteq> projected_steps fs ds (pst_project_id st) \<and> linked (pst_head st) path \<and>
    fold (\<lambda>c. step_state c (arrived fs ds)) path (Some st) = Some final \<and>
    state_at (arrived fs ds) (pst_head final) = Some final \<and> pst_project_id final = pst_project_id st \<and>
    pst_root final = pst_root st"
  using assms(3,4)
proof (induction rule: project_history.induct)
  case (history_step st c st' path final)
  have "c \<in> set (next_facts (arrived fs ds) st)" using history_step by simp
  then have c: "fact_set_get (from_facts fs) (fact_id c) = Some c" "usable ds (fact_id c)"
      "authority_of (causal c) PreviousState = Some (pst_head st)" "project_id_of c = Some (pst_project_id st)"
    by (simp_all add: next_facts_iff)
  have home: "is_home_transition c"
    using adm stored_was_received [OF c(1)] admitted_previous [OF _ _ c(3)] c(4) by (simp add: list_all_iff)
  have step: "step_state c (arrived fs ds) (Some st) = Some st'"
    using history_step.hyps(2) history_step.prems c(1,2,3) home
    by (subst (asm) state_at_unfold) (simp add: context_fact_def is_home_transition_def)
  then have "apply_payload c (arrived fs ds) st = Ok st'" by (simp add: step_state_Some_iff)
  note frame = apply_payload_frame [OF this]
  then show ?case
    using history_step step c home by (auto simp: projected_steps_def)
qed (simp add: projected_steps_def)

lemma history_follows:
  assumes "project_history ctx st path final" and "stuck ctx final"
    and "u = st \<or> (\<exists>c \<in> set path. state_at ctx (fact_id c) = Some u)"
    and "next_facts ctx u = [g]" and "state_at ctx (fact_id g) = Some v"
  shows "g \<in> set path"
  using assms
proof (induction rule: project_history.induct)
  case (history_end st)
  then show ?case by (auto simp: stuck_def)
next
  case (history_step st c st' path final)
  show ?case
  proof (cases "u = st")
    case True
    then show ?thesis using history_step by simp
  next
    case False
    then have "u = st' \<or> (\<exists>c \<in> set path. state_at ctx (fact_id c) = Some u)"
      using history_step.hyps(2) history_step.prems(2) by auto
    with history_step show ?thesis by simp
  qed
qed

lemma distinct_next_facts: "distinct (next_facts (arrived fs ds) st)"
  using distinct_fact_set_facts [OF fact_set_wf_from_facts, of fs] by (simp add: next_facts_def distinct_map)

lemma distinct_singleton: "distinct xs \<Longrightarrow> set xs = {x} \<Longrightarrow> xs = [x]"
  by (cases xs; cases "tl xs") auto

lemma single_next:
  assumes stable: "stable_projects policy overlaps fs ds" and g: "g \<in> projected_steps fs ds project"
  obtains p u v where "authority_of (causal g) PreviousState = Some p" and "p |\<in>| fact_parents g"
    and "state_at (arrived fs ds) p = Some u" and "pst_project_id u = project" and "next_facts (arrived fs ds) u = [g]"
    and "state_at (arrived fs ds) (fact_id g) = Some v"
proof -
  have f: "fact_set_get (from_facts fs) (fact_id g) = Some g" "usable ds (fact_id g)" "is_home_transition g"
      "project_id_of g = Some project"
    using g by (simp_all add: projected_steps_def)
  show thesis
  proof (rule projected_transition [OF stable f(1,2,3)])
    fix q p u v
    assume v: "project_id_of g = Some q" "authority_of (causal g) PreviousState = Some p" "p |\<in>| fact_parents g"
      "state_at (arrived fs ds) p = Some u" "pst_project_id u = q" "state_at (arrived fs ds) (fact_id g) = Some v"
      and only: "\<And>j c. fact_set_get (from_facts fs) j = Some c \<Longrightarrow> usable ds j \<Longrightarrow> project_id_of c = Some q \<Longrightarrow>
        authority_of (causal c) PreviousState = Some p \<Longrightarrow> j = fact_id g"
    have head: "pst_head u = p" using v(4) by (rule state_at_fact)
    have "c = g" if "c \<in> set (next_facts (arrived fs ds) u)" for c
      using that only [of "fact_id c" c] v(5) f(1) by (simp add: next_facts_iff head)
    moreover have "g \<in> set (next_facts (arrived fs ds) u)"
      using f v by (simp add: next_facts_iff head)
    ultimately have "set (next_facts (arrived fs ds) u) = {g}" by blast
    then have "next_facts (arrived fs ds) u = [g]"
      by (rule distinct_singleton [OF distinct_next_facts])
    then show thesis using that v f(4) by auto
  qed
qed

lemma history_complete:
  assumes stable: "stable_projects policy overlaps fs ds" and adm: "list_all admitted fs"
    and hist: "project_history (arrived fs ds) st path final" "stuck (arrived fs ds) final"
    and root: "fact_set_get (from_facts fs) i = Some f" "usable ds i" "is_creation f" "state_at (arrived fs ds) i = Some st"
      "project_id_of f = Some project"
    and g: "g \<in> projected_steps fs ds project"
  shows "g \<in> set path"
  using g
proof (induction "settle_depth (from_facts fs) (fact_id g)" arbitrary: g rule: less_induct)
  case less
  obtain p u v where v: "authority_of (causal g) PreviousState = Some p" "p |\<in>| fact_parents g"
      "state_at (arrived fs ds) p = Some u" "pst_project_id u = project" "next_facts (arrived fs ds) u = [g]"
      "state_at (arrived fs ds) (fact_id g) = Some v"
    by (rule single_next [OF stable less.prems])
  obtain h where h: "fact_set_get (from_facts fs) p = Some h" "usable ds p" "fact_id h = p"
      "is_creation h \<or> is_home_transition h"
    by (rule state_at_fact [OF v(3)])
  have g': "fact_set_get (from_facts fs) (fact_id g) = Some g" "usable ds (fact_id g)"
    using less.prems by (simp_all add: projected_steps_def)
  have "u = st \<or> (\<exists>c \<in> set path. state_at (arrived fs ds) (fact_id c) = Some u)"
  proof (cases "is_creation h")
    case True
    then obtain w where "state_at (arrived fs ds) p = Some w" "project_id_of h = Some (pst_project_id w)"
      using projected_creation [OF stable h(1,2) True] by metis
    then have "project_id_of h = project_id_of f" using v(3,4) root(5) by simp
    from creation_unique [OF stable root(1,2,3) h(1) True this] show ?thesis using v(3) root(4) by simp
  next
    case False
    with h(4) have home: "is_home_transition h" by simp
    obtain q w where "project_id_of h = Some q" "state_at (arrived fs ds) p = Some w" "pst_project_id w = q"
    proof (rule projected_transition [OF stable h(1,2) home])
      fix q p' u' v' assume *: "project_id_of h = Some q" "pst_project_id u' = q"
        "apply_payload h (arrived fs ds) u' = Ok v'" "state_at (arrived fs ds) p = Some v'"
      then show thesis using that apply_payload_frame(1) [OF *(3)] by simp
    qed
    then have "h \<in> projected_steps fs ds project" using v(3,4) h home by (auto simp: projected_steps_def)
    moreover have "settle_depth (from_facts fs) (fact_id h) < settle_depth (from_facts fs) (fact_id g)"
      using projected_project_fact(5) [OF stable g'] v(2) g'(1) fact_set_get_contains [OF h(1)] h(3)
      by (intro settle_depth_less) (auto simp: causal_edges_def)
    ultimately have "h \<in> set path" using less.hyps by blast
    then show ?thesis using v(3) h(3) by blast
  qed
  from history_follows [OF hist this v(5,6)] show ?case .
qed

lemma linked_distinct:
  assumes "chained s ds" and "linked i path" and "fact_set_contains s i"
    and "\<forall>c \<in> set path. fact_set_get s (fact_id c) = Some c \<and> usable ds (fact_id c) \<and> project_id_of c \<noteq> None"
  shows "distinct path \<and> (\<forall>c \<in> set path. settle_depth s i < settle_depth s (fact_id c))"
  using assms(2-)
proof (induction i path rule: linked.induct)
  case (2 i c cs)
  then have c: "fact_set_get s (fact_id c) = Some c" "usable ds (fact_id c)" "project_id_of c \<noteq> None"
      "authority_of (causal c) PreviousState = Some i" by simp_all
  have "settle_depth s i < settle_depth s (fact_id c)" using chained_step(2) [OF assms(1) c] 2 by simp
  moreover have "distinct cs \<and> (\<forall>d \<in> set cs. settle_depth s (fact_id c) < settle_depth s (fact_id d))"
    using 2 fact_set_get_contains [OF c(1)] by simp
  ultimately show ?case by auto
qed simp

text \<open>The walk of a project: from its creation through all its projected steps, to its final state.\<close>

lemma project_walk:
  assumes stable: "stable_projects policy overlaps fs ds" and adm: "list_all admitted fs"
    and f: "fact_set_get (from_facts fs) i = Some f" "usable ds i" "is_creation f" "project_id_of f = Some project"
  obtains st path final where "created_state f = Some st" and "state_at (arrived fs ds) i = Some st"
    and "advance (arrived fs ds) st = Some final" and "set path = projected_steps fs ds project"
    and "distinct path" and "linked i path" and "fold (\<lambda>c. step_state c (arrived fs ds)) path (Some st) = Some final"
    and "state_at (arrived fs ds) (pst_head final) = Some final" and "pst_project_id final = project" and "pst_root final = i"
    and "pst_head final = fact_id (last (f # path))"
proof -
  obtain st where st: "created_state f = Some st" "state_at (arrived fs ds) i = Some st" "project_id_of f = Some (pst_project_id st)"
      "pst_root st = i" "pst_head st = i"
    by (rule projected_creation [OF stable f(1-3)])
  note chain = stable_chained [OF stable adm]
  obtain final where final: "advance (arrived fs ds) st = Some final"
    using advance_returns [OF chain, of st] by blast
  then obtain path where path: "project_history (arrived fs ds) st path final" "stuck (arrived fs ds) final"
    using advance_history by blast
  have sound: "set path \<subseteq> projected_steps fs ds project" "linked i path"
      "fold (\<lambda>c. step_state c (arrived fs ds)) path (Some st) = Some final"
      "state_at (arrived fs ds) (pst_head final) = Some final" "pst_project_id final = project" "pst_root final = i"
    using history_sound [OF stable adm path(1)] st f(4) by auto
  have "set path = projected_steps fs ds project"
    using sound(1) history_complete [OF stable adm path f(1-3) st(2) f(4)] by blast
  moreover have "distinct path"
    using linked_distinct [OF chain sound(2) fact_set_get_contains [OF f(1)]] sound(1) by (auto simp: projected_steps_def)
  moreover have "pst_head final = fact_id (last (f # path))"
  proof (cases path rule: rev_cases)
    case Nil
    then show ?thesis using sound(3) st(5) projected_project_fact(1) [OF stable f(1,2)] by simp
  next
    case (snoc cs c)
    then show ?thesis using sound(3) by (auto simp: step_state_Some_iff apply_payload_frame(6))
  qed
  ultimately show thesis using that st final sound by blast
qed

section \<open>Final states\<close>

lemma fold_keyed_lookup:
  assumes "\<And>x y u v. x \<in> set xs \<Longrightarrow> y \<in> set xs \<Longrightarrow> h x = Some u \<Longrightarrow> h y = Some v \<Longrightarrow> key u = key v \<Longrightarrow> u = v"
  shows "fmlookup (fold (\<lambda>x m. case h x of None \<Rightarrow> m | Some v \<Rightarrow> fmupd (key v) v m) xs m) q = Some v \<longleftrightarrow>
    (\<exists>x \<in> set xs. h x = Some v \<and> key v = q) \<or> \<not> (\<exists>x \<in> set xs. \<exists>u. h x = Some u \<and> key u = q) \<and> fmlookup m q = Some v"
  using assms
proof (induction xs arbitrary: m)
  case (Cons x xs)
  have IH: "fmlookup (fold (\<lambda>x m. case h x of None \<Rightarrow> m | Some v \<Rightarrow> fmupd (key v) v m) xs m') q = Some v \<longleftrightarrow>
      (\<exists>x \<in> set xs. h x = Some v \<and> key v = q) \<or>
      \<not> (\<exists>x \<in> set xs. \<exists>u. h x = Some u \<and> key u = q) \<and> fmlookup m' q = Some v" for m'
    by (rule Cons.IH) (use Cons.prems in auto)
  show ?case
  proof (cases "h x")
    case None
    then show ?thesis by (simp add: IH)
  next
    case (Some w)
    have "u = w" if "y \<in> set xs" "h y = Some u" "key u = key w" for y u
      using Cons.prems [of y x u w] that Some by simp
    then show ?thesis using Some by (auto simp: IH)
  qed
qed simp

lemma final_states_iff:
  assumes stable: "stable_projects policy overlaps fs ds" and adm: "list_all admitted fs"
  shows "fmlookup (final_states (arrived fs ds)) project = Some final \<longleftrightarrow>
    (\<exists>i f st. fact_set_get (from_facts fs) i = Some f \<and> usable ds i \<and> is_creation f \<and> project_id_of f = Some project \<and>
       state_at (arrived fs ds) i = Some st \<and> advance (arrived fs ds) st = Some final)"
proof -
  let ?ctx = "arrived fs ds"
  let ?roots = "filter (\<lambda>f. is_projected ?ctx (fact_id f) \<and> is_creation f) (fact_set_facts (from_facts fs))"
  let ?walk = "\<lambda>f. Option.bind (state_at ?ctx (fact_id f)) (advance ?ctx)"
  have walk: "project_id_of f = Some (pst_project_id u)" if "f \<in> set ?roots" "?walk f = Some u" for f u
  proof -
    have f: "fact_set_get (from_facts fs) (fact_id f) = Some f" "usable ds (fact_id f)" "is_creation f"
      using that(1) by (simp_all add: set_fact_set_facts)
    then obtain project where p: "project_id_of f = Some project"
      using projected_creation [OF stable f] by metis
    show ?thesis using that(2) by (rule_tac project_walk [OF stable adm f p]) (simp add: p)
  qed
  have "u = v" if "x \<in> set ?roots" "y \<in> set ?roots" "?walk x = Some u" "?walk y = Some v"
    "pst_project_id u = pst_project_id v" for x y u v
  proof -
    have "fact_id y = fact_id x"
      by (rule creation_unique [OF stable, where f = x and g = y])
        (use that walk [of x u] walk [of y v] in \<open>simp_all add: set_fact_set_facts\<close>)
    then show ?thesis using that by simp
  qed
  note unique = this
  have "fmlookup (final_states ?ctx) project = Some final \<longleftrightarrow>
      (\<exists>f \<in> set ?roots. ?walk f = Some final \<and> pst_project_id final = project)"
    unfolding final_states_def ReductionContext.select_convs
    by (subst fold_keyed_lookup [of ?roots ?walk pst_project_id, OF unique]) auto
  also have "\<dots> \<longleftrightarrow> (\<exists>f \<in> set ?roots. ?walk f = Some final \<and> project_id_of f = Some project)"
    using walk by fastforce
  also have "\<dots> \<longleftrightarrow> (\<exists>i f st. fact_set_get (from_facts fs) i = Some f \<and> usable ds i \<and> is_creation f \<and>
      project_id_of f = Some project \<and> state_at ?ctx i = Some st \<and> advance ?ctx st = Some final)"
    (is "_ \<longleftrightarrow> ?found")
  proof
    assume "\<exists>f \<in> set ?roots. ?walk f = Some final \<and> project_id_of f = Some project"
    then show ?found by (auto simp: set_fact_set_facts bind_eq_Some_conv)
  next
    assume ?found
    then obtain i f st where f: "fact_set_get (from_facts fs) i = Some f" "usable ds i" "is_creation f"
        "project_id_of f = Some project" "state_at ?ctx i = Some st" "advance ?ctx st = Some final" by blast
    moreover have "fact_id f = i" using fact_set_get_id [OF fact_set_wf_from_facts f(1)] .
    ultimately show "\<exists>f \<in> set ?roots. ?walk f = Some final \<and> project_id_of f = Some project"
      by (intro bexI [of _ f]) (auto simp: set_fact_set_facts)
  qed
  finally show ?thesis .
qed

end
