(* ===== verification/Spec2Isabelle.thy ===== *)
theory Spec2Isabelle
  imports Complete_Reduction Authority_Persistence Agent_Reduction Conversation_Orders
    Content_Checks Project_Chain
begin

text \<open>
  A verification development for HQ, a local-first coordination system whose state is a set of
  signed, causally linked facts. Every installation stores the facts it has received and derives
  its whole state from them by a pure, deterministic reduction; this library models that core.

  \<^bold>\<open>Parts and their theories.\<close>

  \<^item> \<open>Domain_Values\<close>, \<open>Fact_Catalog\<close>, \<open>Semantic_Facts\<close>: the values of \<open>hq-domain\<close>. Identities are
    256-bit words, bounded text and collections have validating constructors with their error
    branches, \<open>CausalReferences\<close> keeps a parent set and role-typed authorities, and a
    \<open>SemanticFact\<close> carries one of the 49 payload families of the catalog.
  \<^item> \<open>Fact_Set\<close> (\<open>hq-reducer/src/fact_set.rs\<close>): the set of received facts, with identity collisions
    and merge.
  \<^item> \<open>Worklist\<close>, \<open>Kahn\<close>: the breadth-first loops and the heap-driven topological traversal that the
    source writes several times, once each, with their specifications.
  \<^item> \<open>Causal_Graph\<close> (\<open>graph.rs\<close>) and \<open>Presentation\<close> (\<open>presentation.rs\<close>): the causal index with its
    traversals, and the canonical presentation order.
  \<^item> \<open>Decisions\<close>, \<open>Stabilisation\<close>, \<open>Reduction\<close>, \<open>Complete_Reduction\<close> (\<open>decision.rs\<close>, \<open>reducer.rs\<close>): the
    fixed point of decisions and the report derived from it, for an arbitrary domain policy.
  \<^item> \<open>Authority\<close>, \<open>Authority_Views\<close>, \<open>Authority_Rules\<close>, \<open>Authority_Layer\<close>, \<open>Authority_Reduction\<close>,
    \<open>Authority_Persistence\<close> (\<open>authority.rs\<close>): the authority policy: who may act for which
    installation, mailbox and account, and the views the store keeps of it.
  \<^item> \<open>Policy_Support\<close>, \<open>Agent\<close>, \<open>Agent_Rules\<close>, \<open>Agent_Reduction\<close> (\<open>agent.rs\<close>): the policy of named agents,
    which runs on the facts the authority policy projects: name claims, provider sessions,
    repository contexts, selections, renames and retirement.
  \<^item> \<open>Conversation\<close>, \<open>Conversation_Views\<close>, \<open>Conversation_Rules\<close>, \<open>Conversation_Reduction\<close>,
    \<open>Conversation_Reports\<close>, \<open>Conversation_Activity\<close>, \<open>Conversation_Orders\<close> (\<open>conversation.rs\<close>): the policy of messages, question threads, message states, archives and
    provider activity, also on top of authority, with the order of each conversation.
  \<^item> \<open>Content_Checks\<close> (\<open>hq-protocol/src/dto/decode.rs\<close>, \<open>semantic.rs\<close>): the checks on the scope, the parents and
    the authorities of a received event, and the conversion to causal references.
  \<^item> \<open>Project\<close>, \<open>Project_Views\<close>, \<open>Project_History\<close>, \<open>Project_Chain\<close> (\<open>project.rs\<close>): the policy of projects: the replay of the chain of facts a
    home writes, with one operation per kind of fact, claims on resources, assignments, inputs,
    dispatches, outputs and remote commands.
  \<^item> \<open>HQ_Prelude\<close> holds the shared vocabulary and \<open>Sample_Facts\<close> the concrete facts of the witnesses.

  \<^bold>\<open>How the code is rendered.\<close> A struct is a record or a one-constructor datatype, an enum a datatype
  with the source's constructors, \<open>Result\<close> the sum type, \<open>BTreeSet\<close> and \<open>BTreeMap\<close> finite sets and
  finite maps that iterate in key order. The trait \<open>DomainReducer\<close> is a record of functions, so a
  policy is a value and \<open>reduce_complete\<close> takes it as an argument. An outer \<open>None\<close> is an arithmetic
  panic; it is shown not to occur. The facts of a received batch are arguments; nothing is
  assumed of them beyond what a theorem states. Where a property needs the authorities of a fact
  to be among its parents it says \<open>causal_wf\<close>, which the constructor of causal references
  establishes (\<open>causal_references_new_wf\<close>).

  \<^bold>\<open>What is shown.\<close>

  \<^item> Of the fact set: merge is a semilattice, and the contents depend only on the set of arrivals.
  \<^item> Of the graph and the orders: reachability, cycle membership and closures are exact; the
    dependency order and the presentation order are the unique least-first topological orders;
    the presentation errors are exactly the faulty selections.
  \<^item> Of reduction under any policy: it never panics and never depends on arrival order; a report
    projects exactly the facts that are unique, acyclic, supported and accepted; diagnostics,
    frontiers and support are exact.
  \<^item> Of the authority policy: a projected action always has its authority, roots are unique, the
    report is the largest consistent one, reduction has a single way to fail and provably
    succeeds when no device acceptance follows a revocation of that device, and the stored views
    are read back unchanged, except for one kind of capability view that is rejected.
  \<^item> Of the agent policy: its report is the largest consistent one and reduction succeeds on every
    orderly batch; claims and selections rest on the projected facts they cite, retirement is
    final, contested names are reported, and a runnable agent is contested in nothing.
  \<^item> Of the conversation policy: reduction succeeds on every orderly batch; projected messages are
    uniquely identified and properly addressed, answers go back to the question's sender,
    rejection is final; thread, message and activity views are exact, the progress kept of a
    session is bounded, every conversation has a causal order of what it shows, and the messages
    reported as incomplete are exactly those with unprojected history.
  \<^item> Of the content checks: references that pass them become well-formed causal references with roles
    their family may use.

  \<^bold>\<open>Contracts.\<close> \<open>arrival_store\<close> (insertion commutes and absorbs), \<open>kahn_graph\<close> and \<open>causal_index\<close> (mirrored
  indexes), \<open>usable_order\<close> (reachability through projected facts is a partial order),
  \<open>ancestor_local\<close>, \<open>refining_policy\<close>, \<open>conservative_policy\<close> and \<open>monotone_policy\<close> (what a policy may read of the current
  decisions) and \<open>authority_layer\<close> (a policy that runs after authority) are locales; each is
  interpreted on the definitions of the model.

  \<^bold>\<open>Bounds.\<close> The loops over finite indexes are total functions with termination proofs and need no
  fuel. The stabilising loop keeps the source's own bound of \<open>2 * n + 2\<close> rounds, computed with
  the saturating operations of a 64-bit \<open>usize\<close>.

  \<^bold>\<open>Not modelled.\<close> JSON codecs and signatures (the rest of \<open>hq-protocol\<close>), encryption and websockets (\<open>hq-relay\<close>), provider processes (\<open>hq-harness\<close>,
  \<open>hq-codex\<close>), file-system observation (\<open>hq-resources\<close>), SQLite (\<open>hq-store\<close>, but for the view constructors
  it calls), asynchronous services and sagas (\<open>hq-application\<close>, \<open>hq-projects\<close>), and the user interfaces
  (\<open>hq-local-api\<close>, \<open>hq-node\<close>, \<open>hq-tui\<close>): they are I/O, concurrency or calls into third-party crates.
\<close>

end
